(* ===== verification/Go_Prelude.thy ===== *)
theory Go_Prelude
  imports Main "HOL-Library.AList" "HOL-Library.List_Lexorder" "HOL-Library.Char_ord"
begin

text \<open>
  The Go language and standard library as far as the controller uses them: instants and
  durations, ASCII strings, decimal integers, maps with an iteration order, and errors with
  the chains that \<open>errors.Is\<close> and \<open>errors.As\<close> walk.
\<close>

named_theorems go_defs \<open>unfolding rules of small helper definitions\<close>
named_theorems mut_defs \<open>definitions of the record mutators of the state store\<close>

section \<open>Instants and durations\<close>

text \<open>
  An instant (\<open>time.Time\<close>) is its number of nanoseconds since the zero instant, so
  \<open>IsZero\<close> is equality with 0, \<open>Before\<close> and \<open>After\<close> are the orders of \<open>int\<close> and \<open>UTC\<close> is
  the identity. A duration is a number of nanoseconds. \<open>Sub\<close> (and \<open>time.Since\<close>) saturate at
  the bounds of \<open>int64\<close>, as the library does.
\<close>

type_synonym time = int
type_synonym duration = int

definition zero_time :: time where
  "zero_time = 0"

definition is_zero :: "time \<Rightarrow> bool" where
  "is_zero t \<longleftrightarrow> t = zero_time"

definition second :: duration where
  "second = 1000000000"

definition minute :: duration where
  "minute = 60 * second"

definition hour :: duration where
  "hour = 60 * minute"

definition max_duration :: duration where
  "max_duration = 9223372036854775807"

definition min_duration :: duration where
  "min_duration = - 9223372036854775808"

definition time_sub :: "time \<Rightarrow> time \<Rightarrow> duration" where
  "time_sub a b = max min_duration (min max_duration (a - b))"

lemmas time_defs [go_defs] = zero_time_def is_zero_def second_def minute_def hour_def

lemma is_zero_zero [simp]: "is_zero zero_time"
  by (simp add: is_zero_def)

section \<open>ASCII strings\<close>

text \<open>
  A string is its list of bytes. Case folding and trimming are those of the library on
  ASCII input.
\<close>

definition to_lower_char :: "char \<Rightarrow> char" where
  "to_lower_char c =
     (let n = (of_char c :: nat) in if 65 \<le> n \<and> n \<le> 90 then char_of (n + 32) else c)"

definition to_lower :: "string \<Rightarrow> string" where
  "to_lower s = map to_lower_char s"

definition equal_fold :: "string \<Rightarrow> string \<Rightarrow> bool" where
  "equal_fold a b \<longleftrightarrow> to_lower a = to_lower b"

definition is_space :: "char \<Rightarrow> bool" where
  "is_space c \<longleftrightarrow> (let n = (of_char c :: nat) in n = 32 \<or> (9 \<le> n \<and> n \<le> 13))"

definition trim_space :: "string \<Rightarrow> string" where
  "trim_space s = rev (dropWhile is_space (rev (dropWhile is_space s)))"

definition has_prefix :: "string \<Rightarrow> string \<Rightarrow> bool" where
  "has_prefix s p \<longleftrightarrow> take (length p) s = p"

text \<open>\<open>strings.Split\<close> on a one-byte separator: the pieces between separators, at least one.\<close>

fun split_on :: "char \<Rightarrow> string \<Rightarrow> string list" where
  "split_on c [] = [[]]"
| "split_on c (x # xs) =
     (if x = c then [] # split_on c xs
      else (case split_on c xs of [] \<Rightarrow> [[x]] | p # ps \<Rightarrow> (x # p) # ps))"

fun join_with :: "string \<Rightarrow> string list \<Rightarrow> string" where
  "join_with sep [] = []"
| "join_with sep [x] = x"
| "join_with sep (x # y # ys) = x @ sep @ join_with sep (y # ys)"

lemma char_of_nat_inj: "m < 256 \<Longrightarrow> n < 256 \<Longrightarrow> (char_of (m::nat) = char_of n) = (m = n)"
  by (metis of_char_of mod_less)

lemma of_char_lt_256: "(of_char c :: nat) < 256"
  by (metis of_char_mod_256 mod_less_divisor zero_less_numeral)

lemma to_lower_char_idem [simp]: "to_lower_char (to_lower_char c) = to_lower_char c"
  using of_char_lt_256 [of c] by (auto simp: to_lower_char_def Let_def)

lemma to_lower_idem [simp]: "to_lower (to_lower s) = to_lower s"
  by (simp add: to_lower_def)

lemma to_lower_append [simp]: "to_lower (a @ b) = to_lower a @ to_lower b"
  by (simp add: to_lower_def)

lemma length_to_lower [simp]: "length (to_lower s) = length s"
  by (simp add: to_lower_def)

lemma split_on_nonempty [simp]: "split_on c s \<noteq> []"
  by (induction s) (auto split: list.splits)

lemma has_prefix_append [simp]: "has_prefix (p @ s) p"
  by (simp add: has_prefix_def)

section \<open>Decimal integers\<close>

definition digit_char :: "nat \<Rightarrow> char" where
  "digit_char d = char_of (48 + d)"

fun show_nat :: "nat \<Rightarrow> string" where
  "show_nat n = (if n < 10 then [digit_char n] else show_nat (n div 10) @ [digit_char (n mod 10)])"

declare show_nat.simps [simp del]

definition itoa :: "int \<Rightarrow> string" where
  "itoa i = (if i < 0 then CHR ''-'' # show_nat (nat (- i)) else show_nat (nat i))"

lemma digit_char_inj: "a < 10 \<Longrightarrow> b < 10 \<Longrightarrow> (digit_char a = digit_char b) = (a = b)"
  by (simp add: digit_char_def char_of_nat_inj)

lemma show_nat_nonempty [simp]: "show_nat n \<noteq> []"
  by (subst show_nat.simps) simp

lemma show_nat_digits: "c \<in> set (show_nat n) \<Longrightarrow> 48 \<le> (of_char c :: nat) \<and> (of_char c :: nat) \<le> 57"
proof (induction n rule: show_nat.induct)
  case (1 n)
  then show ?case
    by (auto simp: show_nat.simps [of n] digit_char_def split: if_splits)
qed

lemma show_nat_inject: "show_nat m = show_nat n \<Longrightarrow> m = n"
proof (induction m arbitrary: n rule: show_nat.induct)
  case (1 m)
  show ?case
  proof (cases "m < 10")
    case True
    have "n < 10"
    proof (rule ccontr)
      assume "\<not> n < 10"
      with True "1.prems" have "[digit_char m] = show_nat (n div 10) @ [digit_char (n mod 10)]"
        by (simp add: show_nat.simps [of m] show_nat.simps [of n])
      then have "show_nat (n div 10) = []" by (cases "show_nat (n div 10)") auto
      then show False by simp
    qed
    with True "1.prems" show ?thesis
      by (simp add: show_nat.simps [of m] show_nat.simps [of n] digit_char_inj)
  next
    case False
    with "1.prems" have "\<not> n < 10"
      by (auto simp: show_nat.simps [of m] show_nat.simps [of n])
    with False "1.prems" have "show_nat (m div 10) = show_nat (n div 10)"
      and "digit_char (m mod 10) = digit_char (n mod 10)"
      by (auto simp: show_nat.simps [of m] show_nat.simps [of n])
    with False "1.IH" have "m div 10 = n div 10" and "m mod 10 = n mod 10"
      by (auto simp: digit_char_inj)
    then show ?thesis by (metis div_mult_mod_eq)
  qed
qed

lemma itoa_no_minus: "CHR ''-'' \<notin> set (show_nat n)"
  using show_nat_digits [of "CHR ''-''" n] by auto

lemma itoa_inject: "itoa a = itoa b \<Longrightarrow> a = b"
  using itoa_no_minus
  by (auto simp: itoa_def dest!: show_nat_inject split: if_splits)
     (metis list.set_intros(1) itoa_no_minus)+

lemma itoa_chars: "c \<in> set (itoa i) \<Longrightarrow> c = CHR ''-'' \<or> 48 \<le> (of_char c :: nat) \<and> (of_char c :: nat) \<le> 57"
  by (auto simp: itoa_def dest: show_nat_digits split: if_splits)

text \<open>\<open>strconv.Quote\<close> on ASCII: quotes, backslashes and control bytes are escaped.\<close>

definition hex_digit :: "nat \<Rightarrow> char" where
  "hex_digit n = (if n < 10 then char_of (48 + n) else char_of (87 + n))"

definition quote_char :: "char \<Rightarrow> string" where
  "quote_char c =
    (let n = (of_char c :: nat); bs = char_of (92 :: nat) in
     if n = 34 \<or> n = 92 then [bs, c]
     else if n = 7 then [bs, CHR ''a''] else if n = 8 then [bs, CHR ''b'']
     else if n = 12 then [bs, CHR ''f''] else if n = 10 then [bs, CHR ''n'']
     else if n = 13 then [bs, CHR ''r''] else if n = 9 then [bs, CHR ''t'']
     else if n = 11 then [bs, CHR ''v'']
     else if n < 32 \<or> 127 \<le> n then [bs, CHR ''x'', hex_digit (n div 16), hex_digit (n mod 16)]
     else [c])"

definition go_quote :: "string \<Rightarrow> string" where
  "go_quote s = [char_of (34 :: nat)] @ concat (map quote_char s) @ [char_of (34 :: nat)]"

section \<open>Maps with an iteration order\<close>

text \<open>
  A Go map is an association list with distinct keys. Its order is the order of one
  \<open>range\<close> loop over the map; Go leaves that order open, and so do the theorems, which hold
  for every list.
\<close>

type_synonym 'v gomap = "(string \<times> 'v) list"

definition keys_of :: "'v gomap \<Rightarrow> string list" where
  "keys_of m = map fst m"

abbreviation wf_map :: "'v gomap \<Rightarrow> bool" where
  "wf_map m \<equiv> distinct (map fst m)"

lemma map_of_update [simp]: "map_of (AList.update k v m) = (map_of m)(k \<mapsto> v)"
  by (rule update_conv')

lemma map_of_delete [simp]: "map_of (AList.delete k m) = (map_of m)(k := None)"
  by (rule delete_conv')

lemma wf_map_update [simp]: "wf_map m \<Longrightarrow> wf_map (AList.update k v m)"
  by (rule distinct_update)

lemma wf_map_delete [simp]: "wf_map m \<Longrightarrow> wf_map (AList.delete k m)"
  by (rule distinct_delete)

text \<open>Counting the entries that satisfy a predicate, and how one update changes the count.\<close>

definition count_where :: "('v \<Rightarrow> bool) \<Rightarrow> 'v gomap \<Rightarrow> nat" where
  "count_where p m = length (filter (\<lambda>(k, v). p v) m)"

lemma count_where_Nil [simp]: "count_where p [] = 0"
  by (simp add: count_where_def)

lemma count_where_Cons [simp]:
  "count_where p ((k, v) # m) = (if p v then Suc (count_where p m) else count_where p m)"
  by (simp add: count_where_def)

lemma count_where_update_new:
  "map_of m k = None \<Longrightarrow>
   count_where p (AList.update k v m) = count_where p m + (if p v then 1 else 0)"
  by (induction m) (auto split: if_splits)

lemma count_where_update_old:
  "wf_map m \<Longrightarrow> map_of m k = Some w \<Longrightarrow>
   count_where p (AList.update k v m) + (if p w then 1 else 0) =
   count_where p m + (if p v then 1 else 0)"
  by (induction m) (auto split: if_splits)

lemma count_where_update_same:
  "wf_map m \<Longrightarrow> map_of m k = Some w \<Longrightarrow> p v = p w \<Longrightarrow>
   count_where p (AList.update k v m) = count_where p m"
  using count_where_update_old [of m k w p v] by (auto split: if_splits)

lemma count_where_update_le:
  "wf_map m \<Longrightarrow> map_of m k = Some w \<Longrightarrow> (p v \<Longrightarrow> p w) \<Longrightarrow>
   count_where p (AList.update k v m) \<le> count_where p m"
  using count_where_update_old [of m k w p v] by (auto split: if_splits)

lemma count_where_delete_le: "count_where p (AList.delete k m) \<le> count_where p m"
  by (induction m) (auto simp: le_Suc_eq)

lemma count_where_map_of_eq:
  "wf_map m \<Longrightarrow> wf_map n \<Longrightarrow> map_of m = map_of n \<Longrightarrow> count_where p m = count_where p n"
proof -
  assume wf: "wf_map m" "wf_map n" and eq: "map_of m = map_of n"
  have "set m = set n" using wf eq by (metis map_of_inject_set)
  moreover have "distinct m" "distinct n" using wf by (auto simp: distinct_map)
  ultimately have "card (set (filter (\<lambda>(k, v). p v) m)) = card (set (filter (\<lambda>(k, v). p v) n))"
    by simp
  then show ?thesis
    using \<open>distinct m\<close> \<open>distinct n\<close> unfolding count_where_def by (metis distinct_card distinct_filter)
qed

section \<open>Errors\<close>

text \<open>
  An error is a text, the two context errors, the sentinels of the packages
  \<open>compute\<close>, the typed GitHub API errors, an error wrapped by \<open>fmt.Errorf("...: %w")\<close>
  or a list joined by \<open>errors.Join\<close>. A typed error of a cloud SDK is its kind and status.
\<close>

datatype go_error =
    ErrText string
  | ErrCanceled
  | ErrDeadlineExceeded
  | ErrOwnershipMismatch
  | ErrDuplicateInstances
  | ErrCreateOutcomeUnknown
  | ErrRateLimit time int
  | ErrAPIStatus int string
  | ErrProvider string int
  | ErrWrap string go_error
  | ErrWrapSuffix go_error string
  | ErrJoin "go_error list"

text \<open>\<open>errors.Is\<close>: a depth-first search of the chain for a sentinel.\<close>

fun errors_is :: "go_error \<Rightarrow> go_error \<Rightarrow> bool" where
  "errors_is (ErrWrap p e) t = errors_is e t"
| "errors_is (ErrWrapSuffix e p) t = errors_is e t"
| "errors_is (ErrJoin es) t = (\<exists>e \<in> set es. errors_is e t)"
| "errors_is e t = (e = t)"

text \<open>\<open>errors.As\<close>: the first error of the chain, depth first, that a projection accepts.\<close>

fun errors_as :: "(go_error \<Rightarrow> 'a option) \<Rightarrow> go_error \<Rightarrow> 'a option"
  and errors_as_list :: "(go_error \<Rightarrow> 'a option) \<Rightarrow> go_error list \<Rightarrow> 'a option" where
  "errors_as f (ErrWrap p e) = errors_as f e"
| "errors_as f (ErrWrapSuffix e p) = errors_as f e"
| "errors_as f (ErrJoin es) = errors_as_list f es"
| "errors_as f e = f e"
| "errors_as_list f [] = None"
| "errors_as_list f (e # es) =
     (case errors_as f e of Some a \<Rightarrow> Some a | None \<Rightarrow> errors_as_list f es)"

text \<open>\<open>errors.Join\<close> drops nil errors and is nil when all are.\<close>

definition errors_join :: "go_error option list \<Rightarrow> go_error option" where
  "errors_join es = (let xs = List.map_filter id es in if xs = [] then None else Some (ErrJoin xs))"

end
