(* ===== verification/Runner_Record.thy ===== *)
theory Runner_Record
  imports Go_Prelude
begin

text \<open>
  The durable record of one workflow job and its runner (\<open>internal/state/store.go\<close>, types
  \<open>Status\<close>, \<open>WorkKind\<close> and \<open>Record\<close>), the migration applied to each record when a store is
  opened, and the record mutators that the operations of the store run under its lock. Each
  mutator is the function literal its operation hands to \<open>update\<close>; the instant \<open>now\<close> is the
  reading of the clock made inside it.
\<close>

section \<open>Status, work kind and record\<close>

datatype status =
    StatusUnset
  | StatusPending
  | StatusProvisioning
  | StatusProvisioned
  | StatusCompleted
  | StatusDeleting
  | StatusDeleted
  | StatusFailed
  | StatusOrphaned

text \<open>\<open>StatusUnset\<close> and \<open>WorkNone\<close> are the empty strings, the zero values of the two types.\<close>

datatype work_kind = WorkNone | WorkProvision | WorkDelete

text \<open>The fields carry the names of their JSON keys.\<close>

record runner_record =
  r_key :: string
  r_delivery_id :: string
  r_job_id :: int
  r_owner :: string
  r_repository :: string
  r_labels :: "string list"
  r_provider :: string
  r_runner_name :: string
  r_github_runner_id :: int
  r_github_runner_owned :: bool
  r_instance_id :: string
  r_job_completed :: bool
  r_recheck_demand :: bool
  r_deletion_accepted_id :: string
  r_droplet_id :: int
  r_status :: status
  r_claimed_work :: work_kind
  r_defer_deletion :: bool
  r_attempts :: int
  r_provision_epoch :: int
  r_delete_attempts :: int
  r_reconcile_failures :: int
  r_throttle_failures :: int
  r_last_error :: string
  r_next_attempt_at :: time
  r_missing_since :: time
  r_missing_checks :: int
  r_github_missing_since :: time
  r_github_missing_checks :: int
  r_created_at :: time
  r_provisioned_at :: time
  r_registered_at :: time
  r_reconciled_at :: time
  r_updated_at :: time

definition zero_record :: runner_record where
  "zero_record =
    \<lparr>r_key = '''', r_delivery_id = '''', r_job_id = 0, r_owner = '''', r_repository = '''',
     r_labels = [], r_provider = '''', r_runner_name = '''', r_github_runner_id = 0,
     r_github_runner_owned = False, r_instance_id = '''', r_job_completed = False,
     r_recheck_demand = False, r_deletion_accepted_id = '''', r_droplet_id = 0,
     r_status = StatusUnset, r_claimed_work = WorkNone, r_defer_deletion = False,
     r_attempts = 0, r_provision_epoch = 0, r_delete_attempts = 0, r_reconcile_failures = 0,
     r_throttle_failures = 0, r_last_error = '''', r_next_attempt_at = zero_time,
     r_missing_since = zero_time, r_missing_checks = 0, r_github_missing_since = zero_time,
     r_github_missing_checks = 0, r_created_at = zero_time, r_provisioned_at = zero_time,
     r_registered_at = zero_time, r_reconciled_at = zero_time, r_updated_at = zero_time\<rparr>"

abbreviation owned_jit :: "runner_record \<Rightarrow> bool" where
  "owned_jit r \<equiv> r_github_runner_owned r \<and> r_github_runner_id r \<noteq> 0"

abbreviation retired :: "runner_record \<Rightarrow> bool" where
  "retired r \<equiv> r_status r = StatusDeleted \<or> r_status r = StatusOrphaned"

text \<open>\<open>clone\<close> copies the label slice; a value of the model is its own copy.\<close>

definition clone_record :: "runner_record \<Rightarrow> runner_record" where
  [simp]: "clone_record r = r\<lparr>r_labels := [] @ r_labels r\<rparr>"

section \<open>Recovery of a record when the store is opened\<close>

definition canceled_text :: string where
  "canceled_text = ''context canceled''"

definition deadline_text :: string where
  "deadline_text = ''context deadline exceeded''"

definition recover_interrupted_work :: "runner_record \<Rightarrow> runner_record \<times> bool" where
  "recover_interrupted_work r =
    (case r_status r of
       StatusProvisioning \<Rightarrow>
         (let r = r\<lparr>r_status := StatusPending\<rparr>;
              r = (if r_attempts r > 0 then r\<lparr>r_attempts := r_attempts r - 1\<rparr> else r)
          in (r, True))
     | StatusDeleting \<Rightarrow>
         (let r = r\<lparr>r_status := StatusCompleted\<rparr>;
              r = (if r_delete_attempts r > 0
                   then r\<lparr>r_delete_attempts := r_delete_attempts r - 1\<rparr> else r)
          in (r, True))
     | StatusCompleted \<Rightarrow>
         (if r_delete_attempts r > 0 \<and>
             (r_last_error r = canceled_text \<or> r_last_error r = deadline_text)
          then (r\<lparr>r_delete_attempts := r_delete_attempts r - 1, r_last_error := ''''\<rparr>, True)
          else (r, False))
     | _ \<Rightarrow> (r, False))"

text \<open>
  The statements of \<open>recoverRecord\<close> in order, each a step on the record and the flag
  \<open>changed\<close>.
\<close>

type_synonym recovery = "runner_record \<times> bool"

definition recover_claim :: "recovery \<Rightarrow> recovery" where
  "recover_claim p =
    (case p of (r, changed) \<Rightarrow>
       if r_claimed_work r \<noteq> WorkNone then (r\<lparr>r_claimed_work := WorkNone\<rparr>, True) else (r, changed))"

definition recover_provider :: "recovery \<Rightarrow> recovery" where
  "recover_provider p =
    (case p of (r, changed) \<Rightarrow>
       if r_provider r = '''' then (r\<lparr>r_provider := ''digitalocean''\<rparr>, True) else (r, changed))"

definition recover_provisioned_at :: "recovery \<Rightarrow> recovery" where
  "recover_provisioned_at p =
    (case p of (r, changed) \<Rightarrow>
       if r_status r = StatusProvisioned \<and> is_zero (r_provisioned_at r)
       then (let r = r\<lparr>r_provisioned_at := r_updated_at r\<rparr>
             in (if is_zero (r_provisioned_at r)
                 then r\<lparr>r_provisioned_at := r_created_at r\<rparr> else r, True))
       else (r, changed))"

definition recover_interrupted :: "recovery \<Rightarrow> recovery" where
  "recover_interrupted p =
    (case p of (r, changed) \<Rightarrow>
       case recover_interrupted_work r of (r, interrupted) \<Rightarrow> (r, interrupted \<or> changed))"

definition recover_instance_id :: "recovery \<Rightarrow> recovery" where
  "recover_instance_id p =
    (case p of (r, changed) \<Rightarrow>
       if r_instance_id r = '''' \<and> r_droplet_id r \<noteq> 0
       then (r\<lparr>r_instance_id := itoa (r_droplet_id r), r_droplet_id := 0\<rparr>, True)
       else (r, changed))"

definition recover_steps :: "recovery \<Rightarrow> recovery" where
  "recover_steps p =
    recover_instance_id (recover_interrupted (recover_provisioned_at (recover_provider (recover_claim p))))"

text \<open>The result is the record, whether to keep it, and whether it changed.\<close>

definition recover_record ::
    "runner_record \<Rightarrow> time \<Rightarrow> duration \<Rightarrow> runner_record \<times> bool \<times> bool" where
  "recover_record r now retention =
    (if r_status r = StatusDeleted \<and> r_updated_at r < now - retention then (r, False, True)
     else
       (case recover_steps (r, False) of (r, changed) \<Rightarrow>
          (if changed then r\<lparr>r_next_attempt_at := zero_time, r_updated_at := now\<rparr> else r,
           True, changed)))"

section \<open>Mutators of the provisioning side\<close>

definition release_provision_claim :: "runner_record \<Rightarrow> runner_record" where
  [mut_defs]: "release_provision_claim r =
    (let r = (if r_attempts r > 0 then r\<lparr>r_attempts := r_attempts r - 1\<rparr> else r)
     in (if r_status r = StatusProvisioning then r\<lparr>r_status := StatusPending\<rparr> else r))"

definition release_delete_claim :: "runner_record \<Rightarrow> runner_record" where
  [mut_defs]: "release_delete_claim r =
    (let r = (if r_delete_attempts r > 0
              then r\<lparr>r_delete_attempts := r_delete_attempts r - 1\<rparr> else r)
     in (if r_status r = StatusDeleting then r\<lparr>r_status := StatusCompleted\<rparr> else r))"

definition release_claim_mut :: "work_kind \<Rightarrow> runner_record \<Rightarrow> runner_record" where
  [mut_defs]: "release_claim_mut kind r =
    (if retired r \<or> r_claimed_work r \<noteq> kind then r
     else if kind \<noteq> WorkProvision \<and> kind \<noteq> WorkDelete then r
     else
       let r = r\<lparr>r_claimed_work := WorkNone, r_next_attempt_at := zero_time\<rparr>
       in (case kind of
             WorkProvision \<Rightarrow> release_provision_claim r
           | WorkDelete \<Rightarrow> release_delete_claim r
           | WorkNone \<Rightarrow> r))"

definition defer_rate_limited_work_mut ::
    "work_kind \<Rightarrow> string \<Rightarrow> time \<Rightarrow> int \<Rightarrow> runner_record \<Rightarrow> runner_record" where
  [mut_defs]: "defer_rate_limited_work_mut kind message retry_at max_attempts r =
    (if retired r \<or> r_claimed_work r \<noteq> kind then r
     else
       let r = r\<lparr>r_claimed_work := WorkNone\<rparr>;
           r = (case kind of
                  WorkProvision \<Rightarrow> release_provision_claim r
                | WorkDelete \<Rightarrow> release_delete_claim r
                | WorkNone \<Rightarrow> r)
       in if kind = WorkProvision \<and> r_status r = StatusCompleted
          then r\<lparr>r_next_attempt_at := zero_time\<rparr>
          else
            let r = r\<lparr>r_throttle_failures := r_throttle_failures r + 1, r_last_error := message\<rparr>
            in if r_throttle_failures r \<ge> max_attempts
               then r\<lparr>r_status := StatusOrphaned, r_next_attempt_at := zero_time\<rparr>
               else r\<lparr>r_next_attempt_at := retry_at\<rparr>)"

definition defer_provisioning_demand_mut ::
    "string \<Rightarrow> time \<Rightarrow> runner_record \<Rightarrow> runner_record" where
  [mut_defs]: "defer_provisioning_demand_mut message retry_at r =
    (if retired r \<or> r_claimed_work r \<noteq> WorkProvision then r
     else
       let r = release_provision_claim (r\<lparr>r_claimed_work := WorkNone\<rparr>);
           r = (if r_status r \<noteq> StatusCompleted
                then r\<lparr>r_next_attempt_at := retry_at, r_defer_deletion := True\<rparr> else r)
       in r\<lparr>r_last_error := message\<rparr>)"

definition clear_jit_mut :: "runner_record \<Rightarrow> runner_record" where
  [mut_defs]: "clear_jit_mut r =
    (if r_status r = StatusDeleted then r
     else r\<lparr>r_github_runner_id := 0, r_github_runner_owned := False\<rparr>)"

definition mark_provisioned_mut ::
    "time \<Rightarrow> string \<Rightarrow> int \<Rightarrow> string \<Rightarrow> runner_record \<Rightarrow> runner_record" where
  [mut_defs]: "mark_provisioned_mut now instance_id runner_id runner_name r =
    (if retired r then r
     else
       let r = r\<lparr>r_instance_id := instance_id\<rparr>;
           r = (if r_deletion_accepted_id r \<noteq> instance_id
                then r\<lparr>r_deletion_accepted_id := ''''\<rparr> else r);
           r = r\<lparr>r_droplet_id := 0, r_github_runner_id := runner_id,
                 r_github_runner_owned := True, r_runner_name := runner_name,
                 r_last_error := '''', r_throttle_failures := 0\<rparr>;
           r = (if is_zero (r_provisioned_at r) then r\<lparr>r_provisioned_at := now\<rparr> else r);
           r = r\<lparr>r_claimed_work := WorkNone, r_missing_since := zero_time,
                 r_missing_checks := 0\<rparr>
       in (if r_status r \<noteq> StatusCompleted then r\<lparr>r_status := StatusProvisioned\<rparr> else r))"

definition mark_provision_failed_mut ::
    "string \<Rightarrow> time \<Rightarrow> int \<Rightarrow> runner_record \<Rightarrow> runner_record" where
  [mut_defs]: "mark_provision_failed_mut message retry_at max_attempts r =
    (if retired r then r
     else
       let r = r\<lparr>r_last_error := message, r_throttle_failures := 0, r_claimed_work := WorkNone\<rparr>
       in if r_status r = StatusCompleted then r
          else if r_attempts r \<ge> max_attempts then r\<lparr>r_status := StatusFailed\<rparr>
          else r\<lparr>r_status := StatusPending, r_next_attempt_at := retry_at\<rparr>)"

section \<open>Mutators of the reconciliation side\<close>

definition clear_provider_missing_mut :: "runner_record \<Rightarrow> runner_record" where
  [mut_defs]: "clear_provider_missing_mut r =
    r\<lparr>r_missing_since := zero_time, r_missing_checks := 0\<rparr>"

definition clear_github_missing_mut :: "runner_record \<Rightarrow> runner_record" where
  [mut_defs]: "clear_github_missing_mut r =
    r\<lparr>r_github_missing_since := zero_time, r_github_missing_checks := 0\<rparr>"

definition record_runner_seen_mut :: "time \<Rightarrow> runner_record \<Rightarrow> runner_record" where
  [mut_defs]: "record_runner_seen_mut now r =
    (if r_status r = StatusProvisioned then
       let r = (if is_zero (r_registered_at r) then r\<lparr>r_registered_at := now\<rparr> else r)
       in r\<lparr>r_reconciled_at := now, r_missing_since := zero_time, r_missing_checks := 0,
            r_github_missing_since := zero_time, r_github_missing_checks := 0\<rparr>
     else r)"

definition clear_runner_missing_mut :: "time \<Rightarrow> runner_record \<Rightarrow> runner_record" where
  [mut_defs]: "clear_runner_missing_mut now r =
    (if r_status r = StatusProvisioned then
       r\<lparr>r_reconciled_at := now, r_missing_since := zero_time, r_missing_checks := 0,
         r_github_missing_since := zero_time, r_github_missing_checks := 0,
         r_delete_attempts := 0, r_reconcile_failures := 0, r_throttle_failures := 0,
         r_last_error := '''', r_next_attempt_at := zero_time\<rparr>
     else r)"

definition defer_reconciliation_mut ::
    "string \<Rightarrow> time \<Rightarrow> int \<Rightarrow> bool \<Rightarrow> bool \<Rightarrow> runner_record \<Rightarrow> runner_record" where
  [mut_defs]: "defer_reconciliation_mut message retry_at max_attempts count_failure count_throttle r =
    (if retired r then r
     else
       let r = (if count_failure then r\<lparr>r_reconcile_failures := r_reconcile_failures r + 1\<rparr> else r)
       in if count_failure \<and> r_reconcile_failures r \<ge> max_attempts
          then r\<lparr>r_status := StatusOrphaned, r_last_error := message,
                 r_next_attempt_at := zero_time\<rparr>
          else
            let r = (if count_throttle
                     then r\<lparr>r_throttle_failures := r_throttle_failures r + 1\<rparr>
                     else r\<lparr>r_throttle_failures := 0\<rparr>)
            in if count_throttle \<and> r_throttle_failures r \<ge> max_attempts
               then r\<lparr>r_status := StatusOrphaned, r_last_error := message,
                      r_next_attempt_at := zero_time\<rparr>
               else r\<lparr>r_last_error := message, r_next_attempt_at := retry_at\<rparr>)"

definition defer_rate_limited_cleanup_mut ::
    "string \<Rightarrow> time \<Rightarrow> int \<Rightarrow> bool \<Rightarrow> runner_record \<Rightarrow> runner_record" where
  [mut_defs]: "defer_rate_limited_cleanup_mut message retry_at max_attempts count_throttle r =
    (if retired r then r
     else
       let r = (if r_delete_attempts r > 0
                then r\<lparr>r_delete_attempts := r_delete_attempts r - 1\<rparr> else r);
           r = r\<lparr>r_last_error := message\<rparr>;
           r = (if count_throttle then r\<lparr>r_throttle_failures := r_throttle_failures r + 1\<rparr>
                else r\<lparr>r_throttle_failures := 0\<rparr>)
       in if count_throttle \<and> r_throttle_failures r \<ge> max_attempts
          then r\<lparr>r_status := StatusOrphaned, r_next_attempt_at := zero_time\<rparr>
          else r\<lparr>r_next_attempt_at := retry_at\<rparr>)"

definition defer_orphan_cleanup_mut :: "string \<Rightarrow> time \<Rightarrow> runner_record \<Rightarrow> runner_record" where
  [mut_defs]: "defer_orphan_cleanup_mut message retry_at r =
    (if r_status r \<noteq> StatusOrphaned then r
     else r\<lparr>r_reconcile_failures := r_reconcile_failures r + 1, r_last_error := message,
            r_next_attempt_at := retry_at\<rparr>)"

definition requeue_missing_runner_mut :: "int \<Rightarrow> runner_record \<Rightarrow> runner_record" where
  [mut_defs]: "requeue_missing_runner_mut max_attempts r =
    (if r_status r \<noteq> StatusProvisioned then r
     else
       let r = r\<lparr>r_instance_id := '''', r_deletion_accepted_id := '''',
                 r_provisioned_at := zero_time, r_registered_at := zero_time,
                 r_reconciled_at := zero_time, r_provision_epoch := r_provision_epoch r + 1,
                 r_github_runner_id := 0, r_github_runner_owned := False, r_runner_name := '''',
                 r_missing_since := zero_time, r_missing_checks := 0,
                 r_github_missing_since := zero_time, r_github_missing_checks := 0,
                 r_last_error := ''provider instance disappeared; provisioning replacement''\<rparr>
       in if r_attempts r \<ge> max_attempts then r\<lparr>r_status := StatusFailed\<rparr>
          else r\<lparr>r_status := StatusPending, r_next_attempt_at := zero_time\<rparr>)"

section \<open>Mutators of the deletion side\<close>

definition mark_completed_mut :: "runner_record \<Rightarrow> runner_record" where
  [mut_defs]: "mark_completed_mut r =
    (if r_status r \<noteq> StatusDeleted \<and> r_status r \<noteq> StatusOrphaned
     then r\<lparr>r_status := StatusCompleted, r_next_attempt_at := zero_time\<rparr> else r)"

definition schedule_deletion_mut :: "runner_record \<Rightarrow> runner_record" where
  [mut_defs]: "schedule_deletion_mut r =
    (if retired r \<or> r_claimed_work r \<noteq> WorkNone then r
     else r\<lparr>r_status := StatusCompleted, r_defer_deletion := False,
            r_next_attempt_at := zero_time\<rparr>)"

definition defer_deletion_confirmation_mut ::
    "string \<Rightarrow> time \<Rightarrow> runner_record \<Rightarrow> runner_record" where
  [mut_defs]: "defer_deletion_confirmation_mut message retry_at r =
    (if r_status r \<noteq> StatusDeleting \<or> r_claimed_work r \<noteq> WorkDelete \<or>
        r_deletion_accepted_id r = '''' \<or> r_deletion_accepted_id r \<noteq> r_instance_id r then r
     else (release_delete_claim r)\<lparr>r_claimed_work := WorkNone, r_last_error := message,
            r_next_attempt_at := retry_at\<rparr>)"

definition mark_deleted_mut :: "runner_record \<Rightarrow> runner_record" where
  [mut_defs]: "mark_deleted_mut r =
    r\<lparr>r_status := StatusDeleted, r_claimed_work := WorkNone, r_defer_deletion := False,
      r_last_error := '''', r_next_attempt_at := zero_time\<rparr>"

text \<open>The second component is the captured variable \<open>restored\<close>.\<close>

definition finish_deleted_runner_mut :: "bool \<Rightarrow> runner_record \<Rightarrow> runner_record \<times> bool" where
  [mut_defs]: "finish_deleted_runner_mut queued r =
    (if retired r then (r, False)
     else
       let restore = (queued \<and> r_recheck_demand r \<and> \<not> r_job_completed r);
           r = r\<lparr>r_status := StatusDeleted, r_claimed_work := WorkNone,
                 r_defer_deletion := False, r_last_error := '''',
                 r_next_attempt_at := zero_time, r_recheck_demand := False\<rparr>
       in if \<not> restore then (r, False)
          else (r\<lparr>r_status := StatusPending, r_instance_id := '''',
                  r_deletion_accepted_id := '''', r_github_runner_id := 0,
                  r_github_runner_owned := False, r_runner_name := '''',
                  r_provisioned_at := zero_time, r_registered_at := zero_time,
                  r_reconciled_at := zero_time, r_missing_since := zero_time,
                  r_github_missing_since := zero_time, r_missing_checks := 0,
                  r_github_missing_checks := 0, r_attempts := 0, r_delete_attempts := 0,
                  r_reconcile_failures := 0, r_throttle_failures := 0,
                  r_provision_epoch := r_provision_epoch r + 1\<rparr>, True))"

definition defer_reassignment_demand_mut ::
    "string \<Rightarrow> time \<Rightarrow> runner_record \<Rightarrow> runner_record" where
  [mut_defs]: "defer_reassignment_demand_mut message retry_at r =
    (if r_claimed_work r \<noteq> WorkDelete then r
     else (release_delete_claim (r\<lparr>r_claimed_work := WorkNone\<rparr>))
            \<lparr>r_last_error := message, r_next_attempt_at := retry_at\<rparr>)"

definition mark_delete_failed_mut ::
    "string \<Rightarrow> time \<Rightarrow> int \<Rightarrow> runner_record \<Rightarrow> runner_record" where
  [mut_defs]: "mark_delete_failed_mut message retry_at max_attempts r =
    (if retired r then r
     else
       let r = r\<lparr>r_last_error := message, r_throttle_failures := 0, r_claimed_work := WorkNone\<rparr>
       in if r_delete_attempts r \<ge> max_attempts then r\<lparr>r_status := StatusOrphaned\<rparr>
          else r\<lparr>r_status := StatusCompleted, r_next_attempt_at := retry_at\<rparr>)"

definition mark_orphaned_mut :: "string \<Rightarrow> runner_record \<Rightarrow> runner_record" where
  [mut_defs]: "mark_orphaned_mut message r =
    (if r_status r = StatusDeleted then r
     else r\<lparr>r_status := StatusOrphaned, r_claimed_work := WorkNone, r_last_error := message,
            r_next_attempt_at := zero_time\<rparr>)"

definition release_absent_orphan_mut :: "string \<Rightarrow> runner_record \<Rightarrow> runner_record" where
  [mut_defs]: "release_absent_orphan_mut instance_id r =
    (if instance_id = '''' \<or> r_status r \<noteq> StatusOrphaned \<or> r_instance_id r \<noteq> instance_id then r
     else r\<lparr>r_instance_id := '''', r_claimed_work := WorkNone\<rparr>)"

end
