(* ===== verification/State_Disk.thy ===== *)
theory State_Disk
  imports Runner_Record
begin

text \<open>
  The durable layer of the state store (\<open>internal/state/store.go\<close>): the snapshot file and the
  write-ahead journal, \<open>saveLocked\<close>, compaction, and loading at start-up. Every system call
  has an outcome chosen by the environment, so each error path of the source is a branch. A
  file of JSON lines is a list of lines: a line holds one decoded journal entry, or only white
  space, or text that \<open>json.Unmarshal\<close> rejects, and its length in bytes; the tail is the text
  after the last newline, at least one byte when it is present.
\<close>

section \<open>Files\<close>

type_synonym records = "runner_record gomap"
type_synonym changes = "(string \<times> runner_record option) list"

datatype journal_line =
    JEntry changes nat
  | JBlank nat
  | JBad nat

fun line_len :: "journal_line \<Rightarrow> nat" where
  "line_len (JEntry ch n) = n"
| "line_len (JBlank n) = n"
| "line_len (JBad n) = n"

datatype snapshot_file = SnapMissing | SnapEmpty | SnapBad | SnapRecords records

record disk =
  d_snapshot :: snapshot_file
  d_journal_exists :: bool
  d_lines :: "journal_line list"
  d_tail :: "journal_line option"

definition empty_disk :: disk where
  "empty_disk = \<lparr>d_snapshot = SnapMissing, d_journal_exists = False, d_lines = [], d_tail = None\<rparr>"

definition journal_size :: "disk \<Rightarrow> nat" where
  "journal_size d =
     sum_list (map (\<lambda>l. line_len l + 1) (d_lines d)) +
     (case d_tail d of None \<Rightarrow> 0 | Some l \<Rightarrow> line_len l)"

text \<open>Text written after an unterminated tail lands on the same line.\<close>

fun join_tail :: "journal_line option \<Rightarrow> journal_line \<Rightarrow> journal_line" where
  "join_tail None l = l"
| "join_tail (Some (JBlank n)) (JEntry ch m) = JEntry ch (n + m)"
| "join_tail (Some (JBlank n)) (JBlank m) = JBlank (n + m)"
| "join_tail (Some t) l = JBad (line_len t + line_len l)"

section \<open>Outcomes of the system calls\<close>

text \<open>
  Outcomes of one \<open>writeSnapshotLocked\<close> and the journal truncation after it
  (\<open>None\<close>: the call succeeds).
\<close>

record compact_io =
  ci_marshal :: "go_error option"
  ci_temp :: "go_error option"
  ci_chmod :: "go_error option"
  ci_write :: "go_error option"
  ci_sync :: "go_error option"
  ci_close :: "go_error option"
  ci_rename :: "go_error option"
  ci_dirsync :: "go_error option"
  ci_open :: "go_error option"
  ci_jsync :: "go_error option"
  ci_jclose :: "go_error option"

text \<open>
  Outcomes of one \<open>saveLocked\<close>: the length of the encoded entry without its newline, the
  error of each call and, for the write, how many bytes reached the file when it was short.
\<close>

record save_io =
  io_size :: nat
  io_mkdir :: "go_error option"
  io_marshal :: "go_error option"
  io_stat :: "go_error option"
  io_open :: "go_error option"
  io_chmod :: "go_error option"
  io_dirsync :: "go_error option"
  io_fstat :: "go_error option"
  io_written :: "nat option"
  io_write_err :: "go_error option"
  io_sync :: "go_error option"
  io_truncate :: "go_error option"
  io_resync :: "go_error option"
  io_close :: "go_error option"
  io_compact :: compact_io

definition compact_ok :: compact_io where
  "compact_ok = \<lparr>ci_marshal = None, ci_temp = None, ci_chmod = None, ci_write = None,
    ci_sync = None, ci_close = None, ci_rename = None, ci_dirsync = None, ci_open = None,
    ci_jsync = None, ci_jclose = None\<rparr>"

definition save_ok :: save_io where
  "save_ok = \<lparr>io_size = 100, io_mkdir = None, io_marshal = None, io_stat = None, io_open = None,
    io_chmod = None, io_dirsync = None, io_fstat = None, io_written = None, io_write_err = None,
    io_sync = None, io_truncate = None, io_resync = None, io_close = None,
    io_compact = compact_ok\<rparr>"

lemma compact_ok_simps [simp]:
  "ci_marshal compact_ok = None"
  "ci_temp compact_ok = None"
  "ci_chmod compact_ok = None"
  "ci_write compact_ok = None"
  "ci_sync compact_ok = None"
  "ci_close compact_ok = None"
  "ci_rename compact_ok = None"
  "ci_dirsync compact_ok = None"
  "ci_open compact_ok = None"
  "ci_jsync compact_ok = None"
  "ci_jclose compact_ok = None"
  by (simp_all add: compact_ok_def)

lemma save_ok_simps [simp]:
  "io_size save_ok = 100"
  "io_mkdir save_ok = None"
  "io_marshal save_ok = None"
  "io_stat save_ok = None"
  "io_open save_ok = None"
  "io_chmod save_ok = None"
  "io_dirsync save_ok = None"
  "io_fstat save_ok = None"
  "io_written save_ok = None"
  "io_write_err save_ok = None"
  "io_sync save_ok = None"
  "io_truncate save_ok = None"
  "io_resync save_ok = None"
  "io_close save_ok = None"
  "io_compact save_ok = compact_ok"
  by (simp_all add: save_ok_def)

section \<open>The store\<close>

text \<open>
  \<open>FileStore\<close> with the disk it works on and the outcomes of its future saves (the list is
  consumed from the front; past its end every call succeeds). The mutex has no counterpart:
  each operation is one function, hence atomic.
\<close>

record file_store =
  fs_locked :: bool
  fs_closed :: bool
  fs_records :: records
  fs_persisted :: records
  fs_dirty_keys :: "string list"
  fs_runner_keys :: "string gomap"
  fs_deleted_retention :: duration
  fs_ordered_keys :: "string list"
  fs_keys_dirty :: bool
  fs_journal_entries :: nat
  fs_journal_bytes :: nat
  fs_max_live_runners :: int
  fs_disk :: disk
  fs_io :: "save_io list"

definition default_deleted_retention :: duration where
  "default_deleted_retention = 24 * hour"

definition next_io :: "file_store \<Rightarrow> save_io \<times> file_store" where
  "next_io s = (case fs_io s of [] \<Rightarrow> (save_ok, s) | io # ios \<Rightarrow> (io, s\<lparr>fs_io := ios\<rparr>))"

definition mark_dirty :: "string \<Rightarrow> file_store \<Rightarrow> file_store" where
  "mark_dirty k s = s\<lparr>fs_dirty_keys := List.insert k (fs_dirty_keys s)\<rparr>"

definition put_record :: "string \<Rightarrow> runner_record \<Rightarrow> file_store \<Rightarrow> file_store" where
  "put_record k r s = s\<lparr>fs_records := AList.update k r (fs_records s)\<rparr>"

definition drop_record :: "string \<Rightarrow> file_store \<Rightarrow> file_store" where
  "drop_record k s = s\<lparr>fs_records := AList.delete k (fs_records s)\<rparr>"

abbreviation lookup_record :: "file_store \<Rightarrow> string \<Rightarrow> runner_record option" where
  "lookup_record s k \<equiv> map_of (fs_records s) k"

section \<open>Snapshots and compaction\<close>

definition write_snapshot :: "compact_io \<Rightarrow> records \<Rightarrow> disk \<Rightarrow> go_error option \<times> disk" where
  "write_snapshot io rs d =
    (case ci_marshal io of Some e \<Rightarrow> (Some (ErrWrap ''encode state snapshot: '' e), d) | None \<Rightarrow>
    (case ci_temp io of Some e \<Rightarrow> (Some (ErrWrap ''create temporary state snapshot: '' e), d) | None \<Rightarrow>
    (case ci_chmod io of Some e \<Rightarrow> (Some e, d) | None \<Rightarrow>
    (case ci_write io of Some e \<Rightarrow> (Some e, d) | None \<Rightarrow>
    (case ci_sync io of Some e \<Rightarrow> (Some e, d) | None \<Rightarrow>
    (case ci_close io of Some e \<Rightarrow> (Some e, d) | None \<Rightarrow>
    (case ci_rename io of Some e \<Rightarrow> (Some (ErrWrap ''replace state snapshot: '' e), d) | None \<Rightarrow>
     (ci_dirsync io, d\<lparr>d_snapshot := SnapRecords rs\<rparr>))))))))"

definition truncate_journal :: "disk \<Rightarrow> disk" where
  "truncate_journal d = d\<lparr>d_journal_exists := True, d_lines := [], d_tail := None\<rparr>"

definition compact_locked :: "compact_io \<Rightarrow> file_store \<Rightarrow> go_error option \<times> file_store" where
  "compact_locked io s =
    (case write_snapshot io (fs_records s) (fs_disk s) of (err, d) \<Rightarrow>
     (let s = s\<lparr>fs_disk := d\<rparr> in
      case err of Some e \<Rightarrow> (Some e, s) | None \<Rightarrow>
      (case ci_open io of Some e \<Rightarrow> (Some (ErrWrap ''truncate state journal: '' e), s) | None \<Rightarrow>
       (let s = s\<lparr>fs_disk := truncate_journal (fs_disk s)\<rparr> in
        case ci_jsync io of Some e \<Rightarrow> (Some (ErrWrap ''sync compacted state journal: '' e), s) | None \<Rightarrow>
        (case ci_jclose io of Some e \<Rightarrow> (Some (ErrWrap ''close compacted state journal: '' e), s) | None \<Rightarrow>
         (None, s\<lparr>fs_journal_entries := 0, fs_journal_bytes := 0\<rparr>))))))"

definition compaction_due :: "file_store \<Rightarrow> bool" where
  "compaction_due s \<longleftrightarrow> fs_journal_entries s \<ge> 512 \<or> fs_journal_bytes s \<ge> 4 * 1024 * 1024"

section \<open>Saving\<close>

text \<open>The dirty keys whose record differs from the persisted one; \<open>None\<close> is a removal.\<close>

fun pending_changes :: "string list \<Rightarrow> records \<Rightarrow> records \<Rightarrow> changes" where
  "pending_changes [] rs ps = []"
| "pending_changes (k # ks) rs ps =
     (case (map_of rs k, map_of ps k) of
        (None, Some p) \<Rightarrow> (k, None) # pending_changes ks rs ps
      | (Some r, p) \<Rightarrow>
          (if p = None \<or> p \<noteq> Some r then (k, Some (clone_record r)) # pending_changes ks rs ps
           else pending_changes ks rs ps)
      | (None, None) \<Rightarrow> pending_changes ks rs ps)"

text \<open>\<open>entry.Records\<close> applied to the records: loading the journal and updating \<open>persisted\<close>.\<close>

fun apply_changes :: "changes \<Rightarrow> records \<Rightarrow> records" where
  "apply_changes [] rs = rs"
| "apply_changes ((k, None) # cs) rs = apply_changes cs (AList.delete k rs)"
| "apply_changes ((k, Some r) # cs) rs = apply_changes cs (AList.update k (clone_record r) rs)"

text \<open>
  The file after \<open>written\<close> bytes of an encoded entry of \<open>len\<close> bytes and its newline: all of
  it, nothing, the entry without its newline, or a torn prefix.
\<close>

definition write_entry :: "changes \<Rightarrow> nat \<Rightarrow> nat \<Rightarrow> disk \<Rightarrow> disk" where
  "write_entry ch len written d =
    (if written = len + 1 then
       d\<lparr>d_lines := d_lines d @ [join_tail (d_tail d) (JEntry ch len)], d_tail := None\<rparr>
     else if written = 0 then d
     else if written = len then d\<lparr>d_tail := Some (join_tail (d_tail d) (JEntry ch len))\<rparr>
     else d\<lparr>d_tail := Some (join_tail (d_tail d) (JBad written))\<rparr>)"

text \<open>\<open>rollbackJournal\<close>: truncation to the old size, then a sync.\<close>

definition rollback_journal :: "save_io \<Rightarrow> disk \<Rightarrow> disk \<Rightarrow> go_error option \<times> disk" where
  "rollback_journal io before after =
    (case io_truncate io of
       Some e \<Rightarrow> (Some (ErrWrap ''roll back partial state journal entry: '' e), after)
     | None \<Rightarrow>
         (map_option (ErrWrap ''sync rolled-back state journal: '') (io_resync io), before))"

definition append_journal :: "save_io \<Rightarrow> changes \<Rightarrow> disk \<Rightarrow> go_error option \<times> disk" where
  "append_journal io ch d =
    (case io_stat io of
       Some e \<Rightarrow> (Some (ErrWrap ''stat state journal before append: '' e), d) | None \<Rightarrow>
    (let journal_missing = (\<not> d_journal_exists d) in
    (case io_open io of Some e \<Rightarrow> (Some (ErrWrap ''open state journal: '' e), d) | None \<Rightarrow>
    (let d = d\<lparr>d_journal_exists := True\<rparr> in
    (case io_chmod io of
       Some e \<Rightarrow> (Some (ErrWrap ''secure state journal permissions: '' e), d) | None \<Rightarrow>
    (case (if journal_missing then io_dirsync io else None) of Some e \<Rightarrow> (Some e, d) | None \<Rightarrow>
    (case io_fstat io of Some e \<Rightarrow> (Some (ErrWrap ''stat state journal: '' e), d) | None \<Rightarrow>
    (let total = io_size io + 1;
         written = (case io_written io of None \<Rightarrow> total | Some n \<Rightarrow> min n total);
         d' = write_entry ch (io_size io) written d in
     if io_write_err io \<noteq> None \<or> written \<noteq> total then
       (let write_err = (case io_write_err io of None \<Rightarrow> ErrText ''short write'' | Some e \<Rightarrow> e) in
        case rollback_journal io d d' of (rollback_err, d'') \<Rightarrow>
          (errors_join [Some (ErrWrap ''append state journal: '' write_err), rollback_err], d''))
     else
       (case io_sync io of
          Some e \<Rightarrow>
            (case rollback_journal io d d' of (rollback_err, d'') \<Rightarrow>
               (errors_join [Some (ErrWrap ''sync state journal: '' e), rollback_err], d''))
        | None \<Rightarrow> (None, d'))))))))))"

text \<open>A failed close is only logged, and so is a failed compaction.\<close>

definition save_locked :: "file_store \<Rightarrow> go_error option \<times> file_store" where
  "save_locked s =
    (if fs_closed s then (Some (ErrText ''state store is closed''), s) else
     case next_io s of (io, s) \<Rightarrow>
     (case io_mkdir io of
        Some e \<Rightarrow> (Some (ErrWrap ''create state directory: '' e), s)
      | None \<Rightarrow>
        (let changes = pending_changes (fs_dirty_keys s) (fs_records s) (fs_persisted s) in
         if changes = [] then (None, s\<lparr>fs_dirty_keys := []\<rparr>) else
         (case io_marshal io of
            Some e \<Rightarrow> (Some (ErrWrap ''encode state journal: '' e), s)
          | None \<Rightarrow>
            (case append_journal io changes (fs_disk s) of
               (Some e, d) \<Rightarrow> (Some e, s\<lparr>fs_disk := d\<rparr>)
             | (None, d) \<Rightarrow>
               (let s = s\<lparr>fs_disk := d,
                          fs_persisted := apply_changes changes (fs_persisted s),
                          fs_dirty_keys := [],
                          fs_journal_entries := fs_journal_entries s + 1,
                          fs_journal_bytes := fs_journal_bytes s + (io_size io + 1)\<rparr>
                in if compaction_due s then (None, snd (compact_locked (io_compact io) s))
                   else (None, s)))))))"

section \<open>Loading\<close>

datatype flock_result = FlockOk | FlockWouldBlock | FlockErr go_error

record load_io =
  li_mkdir :: "go_error option"
  li_lock_open :: "go_error option"
  li_lock_chmod :: "go_error option"
  li_flock :: flock_result
  li_read_snapshot :: "go_error option"
  li_chmod_snapshot :: "go_error option"
  li_read_journal :: "go_error option"
  li_chmod_journal :: "go_error option"
  li_repair_open :: "go_error option"
  li_repair_truncate :: "go_error option"
  li_repair_sync :: "go_error option"
  li_repair_close :: "go_error option"
  li_repair_dirsync :: "go_error option"
  li_delim_open :: "go_error option"
  li_delim_write :: "go_error option"
  li_delim_sync :: "go_error option"
  li_delim_close :: "go_error option"
  li_delim_dirsync :: "go_error option"
  li_compact :: compact_io

definition load_ok :: load_io where
  "load_ok = \<lparr>li_mkdir = None, li_lock_open = None, li_lock_chmod = None, li_flock = FlockOk,
    li_read_snapshot = None, li_chmod_snapshot = None, li_read_journal = None,
    li_chmod_journal = None, li_repair_open = None, li_repair_truncate = None,
    li_repair_sync = None, li_repair_close = None, li_repair_dirsync = None,
    li_delim_open = None, li_delim_write = None, li_delim_sync = None, li_delim_close = None,
    li_delim_dirsync = None, li_compact = compact_ok\<rparr>"

lemma load_ok_simps [simp]:
  "li_mkdir load_ok = None"
  "li_lock_open load_ok = None"
  "li_lock_chmod load_ok = None"
  "li_flock load_ok = FlockOk"
  "li_read_snapshot load_ok = None"
  "li_chmod_snapshot load_ok = None"
  "li_read_journal load_ok = None"
  "li_chmod_journal load_ok = None"
  "li_repair_open load_ok = None"
  "li_repair_truncate load_ok = None"
  "li_repair_sync load_ok = None"
  "li_repair_close load_ok = None"
  "li_repair_dirsync load_ok = None"
  "li_delim_open load_ok = None"
  "li_delim_write load_ok = None"
  "li_delim_sync load_ok = None"
  "li_delim_close load_ok = None"
  "li_delim_dirsync load_ok = None"
  "li_compact load_ok = compact_ok"
  by (simp_all add: load_ok_def)

text \<open>An error of the JSON decoder.\<close>

definition json_error :: go_error where
  "json_error = ErrText ''invalid JSON''"

text \<open>The result of a successful load of the snapshot: was it missing, and its records.\<close>

definition load_snapshot :: "load_io \<Rightarrow> disk \<Rightarrow> go_error + (bool \<times> records)" where
  "load_snapshot io d =
    (case d_snapshot d of
       SnapMissing \<Rightarrow> Inr (True, [])
     | f \<Rightarrow>
       (case li_read_snapshot io of Some e \<Rightarrow> Inl (ErrWrap ''read state file: '' e) | None \<Rightarrow>
       (case li_chmod_snapshot io of
          Some e \<Rightarrow> Inl (ErrWrap ''secure state file permissions: '' e) | None \<Rightarrow>
       (case f of
          SnapRecords rs \<Rightarrow> Inr (False, rs)
        | SnapBad \<Rightarrow> Inl (ErrWrap ''decode state file: '' json_error)
        | _ \<Rightarrow> Inr (False, [])))))"

text \<open>The newline-terminated lines, from line number \<open>i\<close>: records and entries read.\<close>

fun replay_lines :: "nat \<Rightarrow> journal_line list \<Rightarrow> records \<Rightarrow> nat \<Rightarrow> go_error + (records \<times> nat)" where
  "replay_lines i [] rs n = Inr (rs, n)"
| "replay_lines i (JBlank l # ls) rs n = replay_lines (Suc i) ls rs n"
| "replay_lines i (JEntry ch l # ls) rs n = replay_lines (Suc i) ls (apply_changes ch rs) (Suc n)"
| "replay_lines i (JBad l # ls) rs n =
     Inl (ErrWrap (''decode state journal entry '' @ itoa (int i + 1) @ '': '') json_error)"

definition repair_journal_tail :: "load_io \<Rightarrow> disk \<Rightarrow> go_error option \<times> disk" where
  "repair_journal_tail io d =
    (case li_repair_open io of Some e \<Rightarrow> (Some (ErrWrap ''open torn state journal: '' e), d) | None \<Rightarrow>
    (case li_repair_truncate io of
       Some e \<Rightarrow> (Some (ErrWrap ''roll back partial state journal entry: '' e), d) | None \<Rightarrow>
    (let d = d\<lparr>d_tail := None\<rparr> in
    (case li_repair_sync io of
       Some e \<Rightarrow> (Some (ErrWrap ''sync rolled-back state journal: '' e), d) | None \<Rightarrow>
    (case li_repair_close io of
       Some e \<Rightarrow> (Some (ErrWrap ''close repaired state journal: '' e), d) | None \<Rightarrow>
     (li_repair_dirsync io, d))))))"

definition append_journal_delimiter :: "load_io \<Rightarrow> disk \<Rightarrow> go_error option \<times> disk" where
  "append_journal_delimiter io d =
    (case li_delim_open io of Some e \<Rightarrow> (Some (ErrWrap ''open state journal delimiter: '' e), d) | None \<Rightarrow>
    (case li_delim_write io of
       Some e \<Rightarrow> (Some (ErrWrap ''append state journal delimiter: '' e), d) | None \<Rightarrow>
    (let d = (case d_tail d of None \<Rightarrow> d
              | Some t \<Rightarrow> d\<lparr>d_lines := d_lines d @ [t], d_tail := None\<rparr>) in
    (case li_delim_sync io of
       Some e \<Rightarrow> (Some (ErrWrap ''sync state journal delimiter: '' e), d) | None \<Rightarrow>
    (case li_delim_close io of
       Some e \<Rightarrow> (Some (ErrWrap ''close state journal delimiter: '' e), d) | None \<Rightarrow>
     (li_delim_dirsync io, d))))))"

text \<open>
  \<open>loadJournal\<close> on the records of the snapshot. A rejected tail is a torn last entry and is
  cut off; a valid or blank tail gets its missing newline.
\<close>

definition load_journal ::
    "load_io \<Rightarrow> disk \<Rightarrow> records \<Rightarrow> (go_error + (records \<times> nat \<times> nat)) \<times> disk" where
  "load_journal io d rs =
    (if \<not> d_journal_exists d then (Inr (rs, 0, 0), d) else
     case li_read_journal io of Some e \<Rightarrow> (Inl (ErrWrap ''read state journal: '' e), d) | None \<Rightarrow>
    (case li_chmod_journal io of
       Some e \<Rightarrow> (Inl (ErrWrap ''secure state journal permissions: '' e), d) | None \<Rightarrow>
    (case replay_lines 0 (d_lines d) rs 0 of
       Inl e \<Rightarrow> (Inl e, d)
     | Inr (rs, n) \<Rightarrow>
       (let total = journal_size d in
        case d_tail d of
          None \<Rightarrow> (Inr (rs, n, total), d)
        | Some (JBad l) \<Rightarrow>
            (case repair_journal_tail io d of
               (Some e, d) \<Rightarrow>
                 (Inl (ErrJoin [ErrWrap ''decode torn state journal tail: '' json_error, e]), d)
             | (None, d) \<Rightarrow> (Inr (rs, n, total - l), d))
        | Some t \<Rightarrow>
            (let (rs, n) = (case t of JEntry ch l \<Rightarrow> (apply_changes ch rs, Suc n) | _ \<Rightarrow> (rs, n)) in
             case append_journal_delimiter io d of
               (Some e, d) \<Rightarrow> (Inl e, d)
             | (None, d) \<Rightarrow> (Inr (rs, n, total + 1), d))))))"

end
