(* ===== verification/State_Store.thy ===== *)
theory State_Store
  imports State_Disk
begin

text \<open>
  The operations of \<open>FileStore\<close> (\<open>internal/state/store.go\<close>), one definition per method. A
  method returns its results and the store it leaves; an error result is \<open>Some e\<close> or \<open>Inl e\<close>.
  \<open>now\<close> is the clock as the method reads it; a method that reads the clock more than once is
  given one reading.
\<close>

section \<open>Opening and closing\<close>

definition with_deleted_retention :: "duration \<Rightarrow> file_store \<Rightarrow> go_error + file_store" where
  "with_deleted_retention retention s =
    (if retention < 24 * hour
     then Inl (ErrText ''deleted record retention must be at least 24 hours'')
     else Inr (s\<lparr>fs_deleted_retention := retention\<rparr>))"

definition new_file_store ::
    "string \<Rightarrow> load_io \<Rightarrow> save_io list \<Rightarrow> disk \<Rightarrow> go_error + file_store" where
  "new_file_store path io ios d =
    (case li_mkdir io of Some e \<Rightarrow> Inl (ErrWrap ''create state directory: '' e) | None \<Rightarrow>
    (case li_lock_open io of Some e \<Rightarrow> Inl (ErrWrap ''open state lock: '' e) | None \<Rightarrow>
    (case li_lock_chmod io of
       Some e \<Rightarrow> Inl (ErrWrap ''secure state lock permissions: '' e) | None \<Rightarrow>
    (case li_flock io of
       FlockWouldBlock \<Rightarrow>
         Inl (ErrText (''state file '' @ go_quote path @ '' is already locked by another controller''))
     | FlockErr e \<Rightarrow> Inl (ErrWrap ''lock state file: '' e)
     | FlockOk \<Rightarrow>
         Inr \<lparr>fs_locked = True, fs_closed = False, fs_records = [], fs_persisted = [],
              fs_dirty_keys = [], fs_runner_keys = [],
              fs_deleted_retention = default_deleted_retention, fs_ordered_keys = [],
              fs_keys_dirty = True, fs_journal_entries = 0, fs_journal_bytes = 0,
              fs_max_live_runners = 20, fs_disk = d, fs_io = ios\<rparr>))))"

fun apply_options ::
    "(file_store \<Rightarrow> go_error + file_store) list \<Rightarrow> file_store \<Rightarrow> go_error + file_store" where
  "apply_options [] s = Inr s"
| "apply_options (f # fs) s = (case f s of Inl e \<Rightarrow> Inl e | Inr s' \<Rightarrow> apply_options fs s')"

text \<open>\<open>recoverRecords\<close> ranges over the records as they were when the loop started.\<close>

fun recover_records :: "records \<Rightarrow> time \<Rightarrow> file_store \<Rightarrow> bool \<Rightarrow> file_store \<times> bool" where
  "recover_records [] now s recovered = (s, recovered)"
| "recover_records ((key, record) # rest) now s recovered =
    (case recover_record record now (fs_deleted_retention s) of (updated, keep, changed) \<Rightarrow>
       if \<not> keep then
         recover_records rest now
           ((mark_dirty key (drop_record key s))\<lparr>fs_keys_dirty := True\<rparr>) True
       else if changed then
         recover_records rest now (mark_dirty key (put_record key updated s)) True
       else recover_records rest now s recovered)"

definition runner_identity_key :: "string \<Rightarrow> string \<Rightarrow> int \<Rightarrow> string" where
  "runner_identity_key owner repository runner_id =
    to_lower (owner @ ''/'' @ repository) @ ''#'' @ itoa runner_id"

definition completion_marker_prefix :: string where
  "completion_marker_prefix = ''_completed_runner:''"

definition completion_marker_key :: "string \<Rightarrow> string \<Rightarrow> int \<Rightarrow> string" where
  "completion_marker_key owner repository runner_id =
    completion_marker_prefix @ runner_identity_key owner repository runner_id"

definition record_identity :: "runner_record \<Rightarrow> string" where
  "record_identity r = runner_identity_key (r_owner r) (r_repository r) (r_github_runner_id r)"

definition record_marker_key :: "runner_record \<Rightarrow> string" where
  "record_marker_key r = completion_marker_key (r_owner r) (r_repository r) (r_github_runner_id r)"

fun rebuild_runner_index :: "records \<Rightarrow> string gomap \<Rightarrow> string gomap" where
  "rebuild_runner_index [] idx = idx"
| "rebuild_runner_index ((key, record) # rest) idx =
    rebuild_runner_index rest
      (if r_status record \<noteq> StatusDeleted \<and> r_github_runner_owned record \<and>
          r_github_runner_id record \<noteq> 0 \<and> key \<noteq> record_marker_key record
       then AList.update (record_identity record) key idx else idx)"

definition finalize_open :: "load_io \<Rightarrow> bool \<Rightarrow> file_store \<Rightarrow> go_error option \<times> file_store" where
  "finalize_open io snapshot_missing s =
    (if compaction_due s then compact_locked (li_compact io) s
     else if snapshot_missing then
       (case write_snapshot (li_compact io) (fs_records s) (fs_disk s) of
          (err, d) \<Rightarrow> (err, s\<lparr>fs_disk := d\<rparr>))
     else (None, s))"

text \<open>The result and the disk afterwards; on an error the store is closed and dropped.\<close>

definition open_file_store ::
    "string \<Rightarrow> (file_store \<Rightarrow> go_error + file_store) list \<Rightarrow> load_io \<Rightarrow> save_io list \<Rightarrow> time \<Rightarrow>
     disk \<Rightarrow> (go_error + file_store) \<times> disk" where
  "open_file_store path options io ios now d =
    (if path = '''' then (Inl (ErrText ''state file path is required''), d) else
     case new_file_store path io ios d of Inl e \<Rightarrow> (Inl e, d) | Inr s \<Rightarrow>
    (case apply_options options s of Inl e \<Rightarrow> (Inl e, d) | Inr s \<Rightarrow>
    (case load_snapshot io d of Inl e \<Rightarrow> (Inl e, d) | Inr (snapshot_missing, rs) \<Rightarrow>
    (case load_journal io d rs of
       (Inl e, d) \<Rightarrow> (Inl e, d)
     | (Inr (rs, entries, bytes), d) \<Rightarrow>
       (let s = s\<lparr>fs_disk := d, fs_records := rs, fs_journal_entries := entries,
                  fs_journal_bytes := bytes, fs_persisted := rs\<rparr>;
            (s, recovered) = recover_records (fs_records s) now s False;
            (err, s) = (if recovered then save_locked s else (None, s))
        in case err of Some e \<Rightarrow> (Inl e, fs_disk s) | None \<Rightarrow>
        (let s = s\<lparr>fs_runner_keys := rebuild_runner_index (fs_records s) []\<rparr> in
         case finalize_open io snapshot_missing s of
           (Some e, s) \<Rightarrow> (Inl e, fs_disk s)
         | (None, s) \<Rightarrow> (Inr s, fs_disk s)))))))"

definition close_store ::
    "go_error option \<Rightarrow> go_error option \<Rightarrow> file_store \<Rightarrow> go_error option \<times> file_store" where
  "close_store unlock_err close_err s =
    (if \<not> fs_locked s then (None, s)
     else (errors_join [unlock_err, close_err], s\<lparr>fs_closed := True, fs_locked := False\<rparr>))"

section \<open>Single-record updates\<close>

definition not_found :: "string \<Rightarrow> go_error" where
  "not_found key = ErrText (''state record '' @ go_quote key @ '' not found'')"

text \<open>Store a record, save, and put the old record back when the save fails.\<close>

definition replace_record ::
    "string \<Rightarrow> runner_record \<Rightarrow> runner_record \<Rightarrow> file_store \<Rightarrow> go_error option \<times> file_store" where
  "replace_record key before record s =
    (case save_locked (mark_dirty key (put_record key record s)) of
       (Some e, s) \<Rightarrow> (Some e, put_record key (clone_record before) s)
     | (None, s) \<Rightarrow> (None, s))"

definition update_record ::
    "string \<Rightarrow> (runner_record \<Rightarrow> runner_record) \<Rightarrow> time \<Rightarrow> file_store \<Rightarrow>
     go_error option \<times> file_store" where
  "update_record key mutate now s =
    (case lookup_record s key of
       None \<Rightarrow> (Some (not_found key), s)
     | Some record \<Rightarrow> replace_record key record ((mutate record)\<lparr>r_updated_at := now\<rparr>) s)"

definition release_claim where
  "release_claim key kind = update_record key (release_claim_mut kind)"

definition defer_rate_limited_work where
  "defer_rate_limited_work key kind message retry_at max_attempts =
    update_record key (defer_rate_limited_work_mut kind message retry_at max_attempts)"

definition defer_provisioning_demand where
  "defer_provisioning_demand key message retry_at =
    update_record key (defer_provisioning_demand_mut message retry_at)"

definition clear_jit where
  "clear_jit key = update_record key clear_jit_mut"

definition clear_provider_missing where
  "clear_provider_missing key = update_record key clear_provider_missing_mut"

definition clear_github_missing where
  "clear_github_missing key = update_record key clear_github_missing_mut"

definition record_runner_seen :: "string \<Rightarrow> time \<Rightarrow> file_store \<Rightarrow> go_error option \<times> file_store" where
  "record_runner_seen key now = update_record key (record_runner_seen_mut now) now"

definition clear_runner_missing :: "string \<Rightarrow> time \<Rightarrow> file_store \<Rightarrow> go_error option \<times> file_store" where
  "clear_runner_missing key now = update_record key (clear_runner_missing_mut now) now"

definition defer_reconciliation where
  "defer_reconciliation key message retry_at max_attempts count_failure count_throttle =
    update_record key
      (defer_reconciliation_mut message retry_at max_attempts count_failure count_throttle)"

definition defer_rate_limited_cleanup where
  "defer_rate_limited_cleanup key message retry_at max_attempts count_throttle =
    update_record key (defer_rate_limited_cleanup_mut message retry_at max_attempts count_throttle)"

definition defer_orphan_cleanup where
  "defer_orphan_cleanup key message retry_at =
    update_record key (defer_orphan_cleanup_mut message retry_at)"

definition mark_provision_failed where
  "mark_provision_failed key message retry_at max_attempts =
    update_record key (mark_provision_failed_mut message retry_at max_attempts)"

definition mark_completed where
  "mark_completed key = update_record key mark_completed_mut"

definition schedule_deletion where
  "schedule_deletion key = update_record key schedule_deletion_mut"

definition defer_deletion_confirmation where
  "defer_deletion_confirmation key message retry_at =
    update_record key (defer_deletion_confirmation_mut message retry_at)"

definition mark_deleted where
  "mark_deleted key = update_record key mark_deleted_mut"

definition defer_reassignment_demand where
  "defer_reassignment_demand key message retry_at =
    update_record key (defer_reassignment_demand_mut message retry_at)"

definition mark_delete_failed where
  "mark_delete_failed key message retry_at max_attempts =
    update_record key (mark_delete_failed_mut message retry_at max_attempts)"

definition mark_orphaned where
  "mark_orphaned key message = update_record key (mark_orphaned_mut message)"

definition release_absent_orphan where
  "release_absent_orphan key instance_id =
    update_record key (release_absent_orphan_mut instance_id)"

definition requeue_missing_runner where
  "requeue_missing_runner key max_attempts =
    update_record key (requeue_missing_runner_mut max_attempts)"

text \<open>\<open>FinishDeletedRunner\<close> also reports whether the demand was restored.\<close>

definition finish_deleted_runner ::
    "string \<Rightarrow> bool \<Rightarrow> time \<Rightarrow> file_store \<Rightarrow> (go_error + bool) \<times> file_store" where
  "finish_deleted_runner key queued now s =
    (let restored = (case lookup_record s key of None \<Rightarrow> False
                     | Some r \<Rightarrow> snd (finish_deleted_runner_mut queued r)) in
     case update_record key (\<lambda>r. fst (finish_deleted_runner_mut queued r)) now s of
       (Some e, s) \<Rightarrow> (Inl e, s)
     | (None, s) \<Rightarrow> (Inr restored, s))"

definition mark_provisioned ::
    "string \<Rightarrow> string \<Rightarrow> int \<Rightarrow> string \<Rightarrow> time \<Rightarrow> file_store \<Rightarrow> go_error option \<times> file_store" where
  "mark_provisioned key instance_id runner_id runner_name now s =
    (let mutate = mark_provisioned_mut now instance_id runner_id runner_name;
         indexed = (case lookup_record s key of None \<Rightarrow> None
                    | Some r \<Rightarrow> if \<not> retired r \<and> runner_id \<noteq> 0 then Some (mutate r) else None)
     in case update_record key mutate now s of
          (Some e, s) \<Rightarrow> (Some e, s)
        | (None, s) \<Rightarrow>
          (case indexed of
             None \<Rightarrow> (None, s)
           | Some r \<Rightarrow>
               (None, if key \<noteq> record_marker_key r
                      then s\<lparr>fs_runner_keys :=
                               AList.update (record_identity r) key (fs_runner_keys s)\<rparr>
                      else s)))"

section \<open>Updates with their own guards\<close>

definition mark_deletion_accepted ::
    "string \<Rightarrow> string \<Rightarrow> time \<Rightarrow> file_store \<Rightarrow> go_error option \<times> file_store" where
  "mark_deletion_accepted key instance_id now s =
    (let refuse = (Some (ErrText (''cannot record deletion acceptance for unclaimed instance '' @
                                  go_quote instance_id)), s) in
     case lookup_record s key of
       None \<Rightarrow> refuse
     | Some r \<Rightarrow>
         if instance_id = '''' \<or> r_instance_id r \<noteq> instance_id \<or> r_status r \<noteq> StatusDeleting \<or>
            r_claimed_work r \<noteq> WorkDelete then refuse
         else replace_record key r
                (r\<lparr>r_deletion_accepted_id := instance_id, r_updated_at := now\<rparr>) s)"

definition observe_runner_missing ::
    "string \<Rightarrow> time \<Rightarrow> duration \<Rightarrow> int \<Rightarrow> file_store \<Rightarrow> (go_error + bool) \<times> file_store" where
  "observe_runner_missing key now settle confirmations s =
    (case lookup_record s key of
       None \<Rightarrow> (Inl (not_found key), s)
     | Some before \<Rightarrow>
         if r_status before \<noteq> StatusProvisioned then (Inr False, s)
         else
           (let r = (if is_zero (r_missing_since before)
                     then before\<lparr>r_missing_since := now, r_missing_checks := 1\<rparr>
                     else before\<lparr>r_missing_checks := r_missing_checks before + 1\<rparr>);
                r = r\<lparr>r_updated_at := now\<rparr>
            in case replace_record key before r s of
                 (Some e, s) \<Rightarrow> (Inl e, s)
               | (None, s) \<Rightarrow>
                   (Inr (r_missing_checks r \<ge> confirmations \<and>
                         \<not> (r_missing_since r + settle > now)), s)))"

definition observe_github_runner_missing ::
    "string \<Rightarrow> time \<Rightarrow> duration \<Rightarrow> int \<Rightarrow> file_store \<Rightarrow> (go_error + bool) \<times> file_store" where
  "observe_github_runner_missing key now settle confirmations s =
    (case lookup_record s key of
       None \<Rightarrow> (Inl (not_found key), s)
     | Some before \<Rightarrow>
         if r_status before \<noteq> StatusProvisioned then (Inr False, s)
         else
           (let r = (if is_zero (r_github_missing_since before)
                     then before\<lparr>r_github_missing_since := now, r_github_missing_checks := 1\<rparr>
                     else before\<lparr>r_github_missing_checks := r_github_missing_checks before + 1\<rparr>);
                r = r\<lparr>r_updated_at := now\<rparr>
            in case replace_record key before r s of
                 (Some e, s) \<Rightarrow> (Inl e, s)
               | (None, s) \<Rightarrow>
                   (Inr (r_github_missing_checks r \<ge> confirmations \<and>
                         \<not> (r_github_missing_since r + settle > now)), s)))"

definition begin_cleanup_attempt ::
    "string \<Rightarrow> int \<Rightarrow> time \<Rightarrow> file_store \<Rightarrow> (go_error + (int \<times> bool)) \<times> file_store" where
  "begin_cleanup_attempt key max_attempts now s =
    (case lookup_record s key of
       None \<Rightarrow> (Inl (not_found key), s)
     | Some before \<Rightarrow>
         if retired before \<or> r_claimed_work before \<noteq> WorkNone
         then (Inr (r_delete_attempts before, False), s)
         else if \<not> is_zero (r_next_attempt_at before) \<and> r_next_attempt_at before > now
         then (Inr (r_delete_attempts before, False), s)
         else
           (let r = (if r_delete_attempts before \<ge> max_attempts
                     then before\<lparr>r_status := StatusOrphaned,
                            r_last_error :=
                              ''cleanup retry budget exhausted; operator cleanup required'',
                            r_next_attempt_at := zero_time, r_updated_at := now\<rparr>
                     else before\<lparr>r_delete_attempts := r_delete_attempts before + 1,
                            r_updated_at := now\<rparr>)
            in case replace_record key before r s of
                 (Some e, s) \<Rightarrow> (Inl e, s)
               | (None, s) \<Rightarrow> (Inr (r_delete_attempts r, r_status r \<noteq> StatusOrphaned), s)))"

text \<open>
  \<open>MarkJITCreated\<close>: the new registration may already have completed a job, which a marker
  record left by \<open>RecordCompletion\<close> tells; the marker is consumed.
\<close>

definition register_jit :: "int \<Rightarrow> string \<Rightarrow> time \<Rightarrow> runner_record \<Rightarrow> runner_record" where
  "register_jit runner_id runner_name now r =
    r\<lparr>r_github_runner_id := runner_id, r_github_runner_owned := True,
      r_runner_name := runner_name, r_updated_at := now\<rparr>"

definition apply_marker :: "runner_record \<Rightarrow> runner_record \<Rightarrow> runner_record" where
  "apply_marker marker r =
    (let r = r\<lparr>r_status := StatusCompleted\<rparr>;
         r = (if r_job_id r = r_job_id marker then r\<lparr>r_job_completed := True\<rparr> else r)
     in r\<lparr>r_recheck_demand := (r_job_id r \<noteq> r_job_id marker \<and> \<not> r_job_completed r),
          r_defer_deletion := False, r_next_attempt_at := zero_time\<rparr>)"

definition spend_marker :: "time \<Rightarrow> runner_record \<Rightarrow> runner_record" where
  "spend_marker now marker =
    marker\<lparr>r_status := StatusDeleted, r_defer_deletion := False, r_updated_at := now\<rparr>"

text \<open>The marker found for a registration, when it is not spent.\<close>

definition live_marker :: "file_store \<Rightarrow> string \<Rightarrow> runner_record option" where
  "live_marker s marker_key =
    (case lookup_record s marker_key of
       None \<Rightarrow> None
     | Some marker \<Rightarrow> if r_status marker \<noteq> StatusDeleted then Some marker else None)"

definition mark_jit_created ::
    "string \<Rightarrow> int \<Rightarrow> string \<Rightarrow> time \<Rightarrow> file_store \<Rightarrow> go_error option \<times> file_store" where
  "mark_jit_created key runner_id runner_name now s =
    (case lookup_record s key of
       None \<Rightarrow> (Some (not_found key), s)
     | Some before \<Rightarrow>
         if retired before then (None, s)
         else
           (let before_dirty = fs_keys_dirty s;
                r = register_jit runner_id runner_name now before;
                marker_key = completion_marker_key (r_owner r) (r_repository r) runner_id;
                marker_before = live_marker s marker_key;
                (r, s1) =
                  (case marker_before of
                     None \<Rightarrow> (r, s)
                   | Some marker \<Rightarrow>
                       (apply_marker marker r,
                        mark_dirty marker_key
                          (put_record marker_key (spend_marker now marker) s)))
            in case save_locked (mark_dirty key (put_record key r s1)) of
                 (Some e, s2) \<Rightarrow>
                   (let s2 = put_record key (clone_record before) s2;
                        s2 = (case marker_before of None \<Rightarrow> s2
                              | Some marker \<Rightarrow> put_record marker_key (clone_record marker) s2)
                    in (Some e, s2\<lparr>fs_keys_dirty := before_dirty\<rparr>))
               | (None, s2) \<Rightarrow>
                   (None, s2\<lparr>fs_runner_keys :=
                       AList.update (runner_identity_key (r_owner r) (r_repository r) runner_id)
                         key (fs_runner_keys s2)\<rparr>)))"

section \<open>Creation and completion\<close>

definition create :: "runner_record \<Rightarrow> time \<Rightarrow> file_store \<Rightarrow> (go_error + bool) \<times> file_store" where
  "create record now s =
    (case lookup_record s (r_key record) of
       Some _ \<Rightarrow> (Inr False, s)
     | None \<Rightarrow>
         (let record = record\<lparr>r_status := StatusPending, r_created_at := now, r_updated_at := now\<rparr>;
              s1 = (mark_dirty (r_key record)
                      (put_record (r_key record) (clone_record record) s))\<lparr>fs_keys_dirty := True\<rparr>
          in case save_locked s1 of
               (Some e, s2) \<Rightarrow> (Inl e, (drop_record (r_key record) s2)\<lparr>fs_keys_dirty := True\<rparr>)
             | (None, s2) \<Rightarrow> (Inr True, s2)))"

type_synonym record_undo = "(string \<times> runner_record option) list"

definition remember :: "file_store \<Rightarrow> record_undo \<Rightarrow> string \<Rightarrow> record_undo" where
  "remember s before key =
    (if key \<in> fst ` set before then before
     else before @ [(key, map_option clone_record (lookup_record s key))])"

fun rollback :: "record_undo \<Rightarrow> file_store \<Rightarrow> file_store" where
  "rollback [] s = s"
| "rollback ((key, None) # rest) s = rollback rest (drop_record key s)"
| "rollback ((key, Some record) # rest) s = rollback rest (put_record key (clone_record record) s)"

definition completion_matches :: "runner_record \<Rightarrow> runner_record \<Rightarrow> bool" where
  "completion_matches record completion \<longleftrightarrow>
    r_status record \<noteq> StatusDeleted \<and> r_github_runner_owned record \<and>
    r_github_runner_id record = r_github_runner_id completion \<and>
    equal_fold (r_owner record) (r_owner completion) \<and>
    equal_fold (r_repository record) (r_repository completion)"

definition marker_of :: "runner_record \<Rightarrow> time \<Rightarrow> runner_record" where
  "marker_of completion now =
    (clone_record completion)\<lparr>r_key := record_marker_key completion,
      r_status := StatusCompleted, r_github_runner_owned := False, r_defer_deletion := True,
      r_claimed_work := WorkNone, r_instance_id := '''', r_droplet_id := 0,
      r_created_at := now, r_updated_at := now\<rparr>"

definition add_completion_marker ::
    "runner_record \<Rightarrow> time \<Rightarrow> record_undo \<Rightarrow> file_store \<Rightarrow> record_undo \<times> file_store" where
  "add_completion_marker completion now before s =
    (let marker = marker_of completion now
     in (remember s before (r_key marker),
         (mark_dirty (r_key marker) (put_record (r_key marker) marker s))\<lparr>fs_keys_dirty := True\<rparr>))"

definition complete_matched :: "runner_record \<Rightarrow> runner_record \<Rightarrow> time \<Rightarrow> runner_record" where
  "complete_matched record completion now =
    (let r = (if r_job_id record = r_job_id completion
              then record\<lparr>r_job_completed := True\<rparr> else record);
         r = r\<lparr>r_recheck_demand :=
                 (r_job_id r \<noteq> r_job_id completion \<and> \<not> r_job_completed r)\<rparr>;
         r = (if r_claimed_work r \<noteq> WorkDelete
              then r\<lparr>r_status := StatusCompleted, r_next_attempt_at := zero_time\<rparr> else r)
     in r\<lparr>r_defer_deletion := False, r_updated_at := now\<rparr>)"

text \<open>The results are the matched key and the stale identity; \<open>''''\<close> is the empty string.\<close>

definition reconcile_runner_completion ::
    "runner_record \<Rightarrow> time \<Rightarrow> record_undo \<Rightarrow> file_store \<Rightarrow>
     (string \<times> string) \<times> record_undo \<times> file_store" where
  "reconcile_runner_completion completion now before s =
    (let runner_id = r_github_runner_id completion in
     if runner_id = 0 then (('''', ''''), before, s) else
     let identity = runner_identity_key (r_owner completion) (r_repository completion) runner_id
     in case map_of (fs_runner_keys s) identity of
          Some key \<Rightarrow>
            (case (case lookup_record s key of
                     Some record \<Rightarrow> if completion_matches record completion then Some record else None
                   | None \<Rightarrow> None) of
               Some record \<Rightarrow>
                 ((key, ''''), remember s before key,
                  mark_dirty key (put_record key (complete_matched record completion now) s))
             | None \<Rightarrow>
                 (case add_completion_marker completion now before s of
                    (before, s) \<Rightarrow> (('''', identity), before, s)))
        | None \<Rightarrow>
            (case add_completion_marker completion now before s of
               (before, s) \<Rightarrow> (('''', ''''), before, s)))"

definition completion_tombstone :: "runner_record \<Rightarrow> time \<Rightarrow> runner_record" where
  "completion_tombstone completion now =
    completion\<lparr>r_github_runner_id := 0, r_status := StatusCompleted, r_job_completed := True,
      r_defer_deletion := True, r_claimed_work := WorkNone, r_instance_id := '''',
      r_droplet_id := 0, r_created_at := now, r_updated_at := now\<rparr>"

definition complete_event :: "runner_record \<Rightarrow> runner_record \<Rightarrow> time \<Rightarrow> runner_record" where
  "complete_event existing completion now =
    (let r = existing\<lparr>r_job_completed := True, r_recheck_demand := False, r_updated_at := now\<rparr>
     in if r_github_runner_id completion \<noteq> 0 \<or> retired r then r
        else r\<lparr>r_status := StatusCompleted, r_defer_deletion := True,
               r_next_attempt_at := r_next_attempt_at completion, r_updated_at := now\<rparr>)"

definition reconcile_event_completion ::
    "runner_record \<Rightarrow> string \<Rightarrow> time \<Rightarrow> record_undo \<Rightarrow> file_store \<Rightarrow> record_undo \<times> file_store" where
  "reconcile_event_completion completion matched_key now before s =
    (let key = r_key completion in
     if matched_key = key then (before, s)
     else case lookup_record s key of
       None \<Rightarrow>
         (remember s before key,
          (mark_dirty key
             (put_record key (clone_record (completion_tombstone completion now)) s))
            \<lparr>fs_keys_dirty := True\<rparr>)
     | Some existing \<Rightarrow>
         (remember s before key,
          mark_dirty key (put_record key (complete_event existing completion now) s)))"

definition record_completion ::
    "runner_record \<Rightarrow> time \<Rightarrow> file_store \<Rightarrow> go_error option \<times> file_store" where
  "record_completion completion now s =
    (let before_dirty = fs_keys_dirty s in
     case reconcile_runner_completion completion now [] s of ((matched_key, stale), before, s1) \<Rightarrow>
     (case reconcile_event_completion completion matched_key now before s1 of (before, s2) \<Rightarrow>
      (case save_locked s2 of
         (Some e, s3) \<Rightarrow> (Some e, (rollback before s3)\<lparr>fs_keys_dirty := before_dirty\<rparr>)
       | (None, s3) \<Rightarrow>
           (None, if stale \<noteq> ''''
                  then s3\<lparr>fs_runner_keys := AList.delete stale (fs_runner_keys s3)\<rparr> else s3))))"

section \<open>Queries\<close>

definition get :: "string \<Rightarrow> file_store \<Rightarrow> runner_record \<times> bool" where
  "get key s = (case lookup_record s key of None \<Rightarrow> (zero_record, False) | Some r \<Rightarrow> (clone_record r, True))"

definition owns_runner :: "string \<Rightarrow> string \<Rightarrow> int \<Rightarrow> file_store \<Rightarrow> bool" where
  "owns_runner owner repository runner_id s =
    (case map_of (fs_runner_keys s) (runner_identity_key owner repository runner_id) of
       None \<Rightarrow> False
     | Some key \<Rightarrow>
         (case lookup_record s key of
            None \<Rightarrow> False
          | Some r \<Rightarrow> r_status r \<noteq> StatusDeleted \<and> r_github_runner_owned r \<and>
                      r_github_runner_id r = runner_id))"

definition set_max_live_runners :: "int \<Rightarrow> file_store \<Rightarrow> go_error option \<times> file_store" where
  "set_max_live_runners limit s =
    (if limit \<le> 0 then (Some (ErrText ''maximum live runners must be positive''), s)
     else (None, s\<lparr>fs_max_live_runners := limit\<rparr>))"

definition list_where :: "(runner_record \<Rightarrow> bool) \<Rightarrow> file_store \<Rightarrow> runner_record list" where
  "list_where p s = map (\<lambda>(k, r). clone_record r) (filter (\<lambda>(k, r). p r) (fs_records s))"

definition list_provisioned :: "file_store \<Rightarrow> runner_record list" where
  "list_provisioned = list_where (\<lambda>r. r_status r = StatusProvisioned)"

definition list_orphaned :: "file_store \<Rightarrow> runner_record list" where
  "list_orphaned = list_where (\<lambda>r. r_status r = StatusOrphaned)"

definition known_instance_ids :: "file_store \<Rightarrow> string list" where
  "known_instance_ids s =
    remdups (map (\<lambda>(k, r). r_instance_id r)
      (filter (\<lambda>(k, r). r_instance_id r \<noteq> '''' \<and> r_status r \<noteq> StatusDeleted \<and>
                       r_status r \<noteq> StatusOrphaned) (fs_records s)))"

definition is_expired :: "time \<Rightarrow> time \<Rightarrow> runner_record \<Rightarrow> bool" where
  "is_expired cutoff now r =
    (if r_claimed_work r \<noteq> WorkNone then False else
     let stale_provisioned = (r_status r = StatusProvisioned \<and> \<not> is_zero (r_provisioned_at r) \<and>
                              r_provisioned_at r < cutoff);
         retry_due = (is_zero (r_next_attempt_at r) \<or> \<not> (r_next_attempt_at r > now));
         stale_terminal = (retry_due \<and>
                           (r_status r = StatusFailed \<or> r_status r = StatusCompleted) \<and>
                           r_created_at r < cutoff);
         failed_completion_race = (retry_due \<and> r_status r = StatusCompleted \<and>
                                   \<not> r_defer_deletion r \<and> r_instance_id r = '''' \<and>
                                   r_last_error r \<noteq> '''');
         failed_provision = (retry_due \<and> r_status r = StatusFailed \<and> r_instance_id r = '''');
         deferred_cancellation_due = (r_status r = StatusCompleted \<and> r_defer_deletion r \<and> retry_due)
     in stale_provisioned \<or> stale_terminal \<or> failed_completion_race \<or> failed_provision \<or>
        deferred_cancellation_due)"

text \<open>
  The library sort is not stable; the order of equal creation times is that of the map,
  which is open anyway.
\<close>

definition list_expired :: "time \<Rightarrow> time \<Rightarrow> file_store \<Rightarrow> runner_record list" where
  "list_expired cutoff now s = sort_key r_created_at (list_where (is_expired cutoff now) s)"

section \<open>Sweeps\<close>

definition swept_orphan :: "string \<Rightarrow> time \<Rightarrow> runner_record \<Rightarrow> bool" where
  "swept_orphan provider cutoff r =
    (let instance_created_at = (if is_zero (r_provisioned_at r) then r_created_at r
                                else r_provisioned_at r)
     in \<not> (r_status r \<noteq> StatusOrphaned \<or> r_provider r \<noteq> provider \<or> r_instance_id r = '''' \<or>
           \<not> (instance_created_at < cutoff)))"

fun release_swept_loop ::
    "records \<Rightarrow> string \<Rightarrow> time \<Rightarrow> time \<Rightarrow> records \<Rightarrow> file_store \<Rightarrow> records \<times> file_store" where
  "release_swept_loop [] provider cutoff now before s = (before, s)"
| "release_swept_loop ((key, record) # rest) provider cutoff now before s =
    (if \<not> swept_orphan provider cutoff record
     then release_swept_loop rest provider cutoff now before s
     else release_swept_loop rest provider cutoff now
            (AList.update key (clone_record record) before)
            (mark_dirty key
               (put_record key (record\<lparr>r_instance_id := '''', r_updated_at := now\<rparr>) s)))"

fun restore_all :: "records \<Rightarrow> file_store \<Rightarrow> file_store" where
  "restore_all [] s = s"
| "restore_all ((key, record) # rest) s = restore_all rest (put_record key record s)"

definition release_swept_orphans ::
    "string \<Rightarrow> time \<Rightarrow> time \<Rightarrow> file_store \<Rightarrow> (go_error + nat) \<times> file_store" where
  "release_swept_orphans provider cutoff now s =
    (case release_swept_loop (fs_records s) provider cutoff now [] s of (before, s1) \<Rightarrow>
       if before = [] then (Inr 0, s1)
       else case save_locked s1 of
              (Some e, s2) \<Rightarrow> (Inl e, restore_all before s2)
            | (None, s2) \<Rightarrow> (Inr (length before), s2))"

definition prunable :: "time \<Rightarrow> runner_record \<Rightarrow> bool" where
  "prunable cutoff r =
    (let prunable_orphan = (r_status r = StatusOrphaned \<and> r_instance_id r = '''' \<and>
                            r_github_runner_id r = 0)
     in (r_status r = StatusDeleted \<or> prunable_orphan) \<and> r_updated_at r < cutoff)"

fun prune_loop :: "records \<Rightarrow> time \<Rightarrow> records \<Rightarrow> file_store \<Rightarrow> records \<times> file_store" where
  "prune_loop [] cutoff removed s = (removed, s)"
| "prune_loop ((key, record) # rest) cutoff removed s =
    (if prunable cutoff record
     then prune_loop rest cutoff (AList.update key record removed)
            (mark_dirty key (drop_record key s))
     else prune_loop rest cutoff removed s)"

definition prune_deleted :: "time \<Rightarrow> file_store \<Rightarrow> (go_error + nat) \<times> file_store" where
  "prune_deleted now s =
    (let cutoff = now - fs_deleted_retention s in
     case prune_loop (fs_records s) cutoff [] s of (removed, s1) \<Rightarrow>
       if removed = [] then (Inr 0, s1)
       else case save_locked (s1\<lparr>fs_keys_dirty := True\<rparr>) of
              (Some e, s2) \<Rightarrow> (Inl e, (restore_all removed s2)\<lparr>fs_keys_dirty := True\<rparr>)
            | (None, s2) \<Rightarrow> (Inr (length removed), s2))"

section \<open>Claiming work\<close>

definition ordered_keys :: "file_store \<Rightarrow> string list \<times> file_store" where
  "ordered_keys s =
    (if fs_keys_dirty s
     then (let ks = sort (keys_of (fs_records s))
           in (ks, s\<lparr>fs_ordered_keys := ks, fs_keys_dirty := False\<rparr>))
     else (fs_ordered_keys s, s))"

definition is_live :: "runner_record \<Rightarrow> bool" where
  "is_live r =
    (if r_status r = StatusDeleted \<or> (r_status r = StatusOrphaned \<and> r_instance_id r = '''')
     then False
     else r_instance_id r \<noteq> '''' \<or> (r_github_runner_owned r \<and> r_github_runner_id r \<noteq> 0) \<or>
          r_claimed_work r = WorkProvision \<or> r_status r = StatusProvisioning)"

definition live_runner_count :: "file_store \<Rightarrow> nat" where
  "live_runner_count s = count_where is_live (fs_records s)"

definition provision_exhausted :: "int \<Rightarrow> runner_record \<Rightarrow> bool" where
  "provision_exhausted max_attempts r \<longleftrightarrow>
    r_status r = StatusPending \<and> r_attempts r \<ge> max_attempts"

definition deletion_exhausted :: "int \<Rightarrow> runner_record \<Rightarrow> bool" where
  "deletion_exhausted max_attempts r \<longleftrightarrow>
    r_status r = StatusCompleted \<and> \<not> r_defer_deletion r \<and> r_instance_id r \<noteq> '''' \<and>
    r_delete_attempts r \<ge> max_attempts"

text \<open>The switch of \<open>ClaimNext\<close>: the record to claim, or none.\<close>

definition claim_record ::
    "int \<Rightarrow> int \<Rightarrow> int \<Rightarrow> runner_record \<Rightarrow> (runner_record \<times> work_kind) option" where
  "claim_record live max_live max_attempts r =
    (let reserved_slot = (r_instance_id r \<noteq> '''' \<or>
                          (r_github_runner_owned r \<and> r_github_runner_id r \<noteq> 0));
         can_provision = (live < max_live \<or> (live = max_live \<and> reserved_slot))
     in if r_claimed_work r = WorkNone \<and> r_status r = StatusPending \<and>
           r_attempts r < max_attempts \<and> can_provision
        then Some (r\<lparr>r_status := StatusProvisioning, r_attempts := r_attempts r + 1\<rparr>, WorkProvision)
        else if r_claimed_work r = WorkNone \<and> r_status r = StatusCompleted \<and>
                \<not> r_defer_deletion r \<and> r_instance_id r \<noteq> '''' \<and> r_delete_attempts r < max_attempts
        then Some (r\<lparr>r_status := StatusDeleting, r_delete_attempts := r_delete_attempts r + 1\<rparr>,
                   WorkDelete)
        else None)"

fun claim_loop ::
    "string list \<Rightarrow> int \<Rightarrow> time \<Rightarrow> int \<Rightarrow> file_store \<Rightarrow>
     (go_error + (runner_record \<times> work_kind) option) \<times> file_store" where
  "claim_loop [] live now max_attempts s = (Inr None, s)"
| "claim_loop (key # keys) live now max_attempts s =
    (let record = (case lookup_record s key of None \<Rightarrow> zero_record | Some r \<Rightarrow> r) in
     if r_next_attempt_at record > now then claim_loop keys live now max_attempts s
     else if provision_exhausted max_attempts record then
       (case replace_record key record
               (record\<lparr>r_status := StatusFailed,
                 r_last_error := ''provisioning retry budget exhausted'', r_updated_at := now\<rparr>) s of
          (Some e, s) \<Rightarrow> (Inl e, s)
        | (None, s) \<Rightarrow> claim_loop keys live now max_attempts s)
     else if deletion_exhausted max_attempts record then
       (case replace_record key record
               (record\<lparr>r_status := StatusOrphaned,
                 r_last_error := ''deletion retry budget exhausted; operator cleanup required'',
                 r_updated_at := now\<rparr>) s of
          (Some e, s) \<Rightarrow> (Inl e, s)
        | (None, s) \<Rightarrow> claim_loop keys live now max_attempts s)
     else
       (case claim_record live (fs_max_live_runners s) max_attempts record of
          None \<Rightarrow> claim_loop keys live now max_attempts s
        | Some (r, kind) \<Rightarrow>
            (let r = r\<lparr>r_updated_at := now, r_next_attempt_at := zero_time, r_claimed_work := kind\<rparr>
             in case replace_record key record r s of
                  (Some e, s) \<Rightarrow> (Inl e, s)
                | (None, s) \<Rightarrow> (Inr (Some (clone_record r, kind)), s))))"

definition claim_next ::
    "go_error option \<Rightarrow> time \<Rightarrow> int \<Rightarrow> file_store \<Rightarrow>
     (go_error + (runner_record \<times> work_kind) option) \<times> file_store" where
  "claim_next ctx_err now max_attempts s =
    (case ctx_err of
       Some e \<Rightarrow> (Inl e, s)
     | None \<Rightarrow>
         (case ordered_keys s of
            (keys, s) \<Rightarrow> claim_loop keys (int (live_runner_count s)) now max_attempts s))"

end
