(* ===== verification/State_Durability.thy ===== *)
theory State_Durability
  imports State_Store
begin

text \<open>
  The durable layer is correct: what a controller would read back from the disk is what the
  store holds in memory whenever no operation is in progress. The interface is the locale
  \<open>durable_store\<close>; \<open>saveLocked\<close> on the journal and the snapshot implements it.
\<close>

section \<open>Applying changes\<close>

fun last_change :: "changes \<Rightarrow> string \<Rightarrow> runner_record option option" where
  "last_change [] k = None"
| "last_change ((k', v) # cs) k =
     (case last_change cs k of Some w \<Rightarrow> Some w | None \<Rightarrow> if k = k' then Some v else None)"

lemma map_of_apply_changes:
  "map_of (apply_changes cs rs) k =
     (case last_change cs k of Some v \<Rightarrow> v | None \<Rightarrow> map_of rs k)"
  by (induction cs rs rule: apply_changes.induct) (auto split: option.splits)

lemma apply_changes_append: "apply_changes (cs @ ds) rs = apply_changes ds (apply_changes cs rs)"
  by (induction cs rs rule: apply_changes.induct) auto

lemma wf_apply_changes [simp]: "wf_map rs \<Longrightarrow> wf_map (apply_changes cs rs)"
  by (induction cs rs rule: apply_changes.induct) auto

text \<open>Replaying changes over a state that already contains them changes nothing.\<close>

lemma apply_changes_idem:
  "map_of rs' = map_of (apply_changes cs rs) \<Longrightarrow> map_of (apply_changes cs rs') = map_of rs'"
  by (rule ext) (auto simp: map_of_apply_changes split: option.splits)

lemma apply_changes_cong:
  "map_of rs = map_of rs' \<Longrightarrow> map_of (apply_changes cs rs) = map_of (apply_changes cs rs')"
  by (rule ext) (auto simp: map_of_apply_changes split: option.splits)

lemma last_pending:
  "last_change (pending_changes ks rs ps) k = Some v \<Longrightarrow> v = map_of rs k"
  by (induction ks) (auto split: option.splits if_splits)

lemma no_pending:
  "last_change (pending_changes ks rs ps) k = None \<Longrightarrow> k \<in> set ks \<Longrightarrow> map_of rs k = map_of ps k"
  by (induction ks) (auto split: option.splits if_splits)

definition dirty_covers :: "file_store \<Rightarrow> bool" where
  "dirty_covers s \<longleftrightarrow>
     (\<forall>k. k \<notin> set (fs_dirty_keys s) \<longrightarrow> lookup_record s k = map_of (fs_persisted s) k)"

lemma dirty_coversD:
  "dirty_covers s \<Longrightarrow> k \<notin> set (fs_dirty_keys s) \<Longrightarrow> lookup_record s k = map_of (fs_persisted s) k"
  by (simp add: dirty_covers_def)

lemma pending_changes_sound:
  assumes "dirty_covers s"
  shows "map_of (apply_changes (pending_changes (fs_dirty_keys s) (fs_records s) (fs_persisted s))
           (fs_persisted s)) = map_of (fs_records s)"
proof (rule ext)
  fix k
  let ?c = "pending_changes (fs_dirty_keys s) (fs_records s) (fs_persisted s)"
  show "map_of (apply_changes ?c (fs_persisted s)) k = map_of (fs_records s) k"
  proof (cases "last_change ?c k")
    case None
    have "map_of (fs_persisted s) k = map_of (fs_records s) k"
      using no_pending [OF None] dirty_coversD [OF assms, of k]
      by (cases "k \<in> set (fs_dirty_keys s)") simp_all
    with None show ?thesis by (simp add: map_of_apply_changes)
  next
    case (Some v)
    with last_pending [OF Some] show ?thesis by (simp add: map_of_apply_changes)
  qed
qed

section \<open>What a restart reads\<close>

text \<open>\<open>loadSnapshot\<close> then \<open>loadJournal\<close>, every system call succeeding.\<close>

definition reload :: "disk \<Rightarrow> records option" where
  "reload d =
    (case load_snapshot load_ok d of
       Inl _ \<Rightarrow> None
     | Inr (_, rs) \<Rightarrow>
         (case load_journal load_ok d rs of (Inr (rs, _, _), _) \<Rightarrow> Some rs | _ \<Rightarrow> None))"

fun line_changes :: "journal_line \<Rightarrow> changes" where
  "line_changes (JEntry ch n) = ch"
| "line_changes (JBlank n) = []"
| "line_changes (JBad n) = []"

fun is_bad :: "journal_line \<Rightarrow> bool" where
  "is_bad (JBad n) = True"
| "is_bad _ = False"

abbreviation journal_changes :: "journal_line list \<Rightarrow> changes" where
  "journal_changes ls \<equiv> concat (map line_changes ls)"

fun snapshot_records :: "snapshot_file \<Rightarrow> records option" where
  "snapshot_records SnapMissing = Some []"
| "snapshot_records SnapEmpty = Some []"
| "snapshot_records SnapBad = None"
| "snapshot_records (SnapRecords rs) = Some rs"

lemma replay_lines_good:
  "list_all (\<lambda>l. \<not> is_bad l) ls \<Longrightarrow>
   \<exists>n'. replay_lines i ls rs n = Inr (apply_changes (journal_changes ls) rs, n')"
  by (induction i ls rs n rule: replay_lines.induct) (auto simp: apply_changes_append)

lemma replay_lines_bad:
  "\<exists>l \<in> set ls. is_bad l \<Longrightarrow> \<exists>e. replay_lines i ls rs n = Inl e"
  by (induction i ls rs n rule: replay_lines.induct) auto

lemma load_snapshot_ok:
  "load_snapshot load_ok d =
     (case snapshot_records (d_snapshot d) of
        None \<Rightarrow> Inl (ErrWrap ''decode state file: '' json_error)
      | Some rs \<Rightarrow> Inr (d_snapshot d = SnapMissing, rs))"
  by (cases "d_snapshot d") (auto simp: load_snapshot_def)

fun tail_changes :: "journal_line option \<Rightarrow> changes" where
  "tail_changes None = []"
| "tail_changes (Some l) = line_changes l"

definition disk_wf :: "disk \<Rightarrow> bool" where
  "disk_wf d \<longleftrightarrow> list_all (\<lambda>l. \<not> is_bad l) (d_lines d) \<and>
     (\<not> d_journal_exists d \<longrightarrow> d_lines d = [] \<and> d_tail d = None)"

lemma reload_eq:
  assumes "disk_wf d" and "snapshot_records (d_snapshot d) = Some rs"
  shows "reload d =
    Some (apply_changes (journal_changes (d_lines d) @ tail_changes (d_tail d)) rs)"
proof -
  have good: "list_all (\<lambda>l. \<not> is_bad l) (d_lines d)"
    using assms(1) by (simp add: disk_wf_def)
  obtain n where "replay_lines 0 (d_lines d) rs 0 =
      Inr (apply_changes (journal_changes (d_lines d)) rs, n)"
    using replay_lines_good [OF good] by blast
  moreover have "\<not> d_journal_exists d \<Longrightarrow> d_lines d = [] \<and> d_tail d = None"
    using assms(1) by (simp add: disk_wf_def)
  ultimately show ?thesis
    using assms(2)
    by (auto simp: reload_def load_snapshot_ok load_journal_def Let_def
        repair_journal_tail_def append_journal_delimiter_def apply_changes_append
        split: option.splits journal_line.splits)
qed

lemma reload_bad_line:
  assumes "d_journal_exists d" and "\<exists>l \<in> set (d_lines d). is_bad l"
  shows "reload d = None"
proof (cases "snapshot_records (d_snapshot d)")
  case None
  then show ?thesis by (simp add: reload_def load_snapshot_ok)
next
  case (Some rs)
  obtain e where "replay_lines 0 (d_lines d) rs 0 = Inl e"
    using replay_lines_bad [OF assms(2)] by blast
  with Some assms(1) show ?thesis
    by (simp add: reload_def load_snapshot_ok load_journal_def)
qed

text \<open>The disk holds exactly the map \<open>m\<close>, its journal ending in a newline.\<close>

definition disk_holds :: "disk \<Rightarrow> (string \<rightharpoonup> runner_record) \<Rightarrow> bool" where
  "disk_holds d m \<longleftrightarrow> disk_wf d \<and> d_tail d = None \<and>
     (\<exists>rs. snapshot_records (d_snapshot d) = Some rs \<and> wf_map rs \<and>
           map_of (apply_changes (journal_changes (d_lines d)) rs) = m)"

lemma disk_holds_reload:
  "disk_holds d m \<Longrightarrow> \<exists>rs. reload d = Some rs \<and> map_of rs = m"
  by (auto simp: disk_holds_def reload_eq)

lemma disk_holds_exists [simp]:
  "disk_holds d m \<Longrightarrow> disk_holds (d\<lparr>d_journal_exists := True\<rparr>) m"
  by (auto simp: disk_holds_def disk_wf_def)

lemma disk_holds_append:
  assumes "disk_holds d (map_of ps)" and "d_journal_exists d"
  shows "disk_holds (d\<lparr>d_lines := d_lines d @ [JEntry ch n], d_tail := None\<rparr>)
           (map_of (apply_changes ch ps))"
  using assms
  by (auto simp: disk_holds_def disk_wf_def apply_changes_append dest: apply_changes_cong)

text \<open>Replacing the snapshot under the old journal is harmless: replay is idempotent.\<close>

lemma disk_holds_snapshot:
  "disk_holds d (map_of rs) \<Longrightarrow> wf_map rs \<Longrightarrow> disk_holds (d\<lparr>d_snapshot := SnapRecords rs\<rparr>) (map_of rs)"
  using apply_changes_idem [OF sym] by (auto simp: disk_holds_def disk_wf_def)

lemma disk_holds_truncate:
  "wf_map rs \<Longrightarrow> disk_holds (truncate_journal (d\<lparr>d_snapshot := SnapRecords rs\<rparr>)) (map_of rs)"
  by (simp add: disk_holds_def disk_wf_def truncate_journal_def)

section \<open>The steps of a save\<close>

lemma errors_join_Some [simp]: "(errors_join (Some e # es) = None) = False"
  by (simp add: errors_join_def map_filter_simps Let_def)

lemma append_journal_writes:
  "append_journal io ch d = (None, d') \<Longrightarrow>
   d' = write_entry ch (io_size io) (io_size io + 1) (d\<lparr>d_journal_exists := True\<rparr>)"
  by (auto simp: append_journal_def Let_def split: option.splits if_splits prod.splits)

lemma append_journal_success:
  "append_journal io ch d = (None, d') \<Longrightarrow> d_tail d = None \<Longrightarrow>
   d' = d\<lparr>d_journal_exists := True, d_lines := d_lines d @ [JEntry ch (io_size io)],
          d_tail := None\<rparr>"
  by (drule append_journal_writes) (simp add: write_entry_def)

lemma append_journal_failure:
  "append_journal io ch d = (Some e, d') \<Longrightarrow> io_truncate io = None \<Longrightarrow>
   d' = d \<or> d' = d\<lparr>d_journal_exists := True\<rparr>"
  by (auto simp: append_journal_def Let_def rollback_journal_def
      split: option.splits if_splits prod.splits)

text \<open>The fields a save may change, erased.\<close>

definition core :: "file_store \<Rightarrow> file_store" where
  "core s = s\<lparr>fs_disk := empty_disk, fs_persisted := [], fs_dirty_keys := [],
     fs_journal_entries := 0, fs_journal_bytes := 0, fs_io := []\<rparr>"

lemma core_fields:
  assumes "core s = core t"
  shows "fs_records s = fs_records t" and "fs_runner_keys s = fs_runner_keys t"
    and "fs_closed s = fs_closed t" and "fs_locked s = fs_locked t"
    and "fs_deleted_retention s = fs_deleted_retention t"
    and "fs_ordered_keys s = fs_ordered_keys t" and "fs_keys_dirty s = fs_keys_dirty t"
    and "fs_max_live_runners s = fs_max_live_runners t"
  using assms by (auto simp: core_def dest: arg_cong [of _ _ fs_records]
    arg_cong [of _ _ fs_runner_keys] arg_cong [of _ _ fs_closed] arg_cong [of _ _ fs_locked]
    arg_cong [of _ _ fs_deleted_retention] arg_cong [of _ _ fs_ordered_keys]
    arg_cong [of _ _ fs_keys_dirty] arg_cong [of _ _ fs_max_live_runners])

lemma compact_locked_core: "core (snd (compact_locked io s)) = core s"
  by (simp add: compact_locked_def Let_def core_def split: option.split prod.split)

lemma compact_locked_persist:
  "fs_persisted (snd (compact_locked io s)) = fs_persisted s"
  "fs_dirty_keys (snd (compact_locked io s)) = fs_dirty_keys s"
  "fs_io (snd (compact_locked io s)) = fs_io s"
  by (simp_all add: compact_locked_def Let_def split: option.split prod.split)

lemma write_snapshot_cases:
  "write_snapshot io rs d = (err, d') \<Longrightarrow> d' = d \<or> d' = d\<lparr>d_snapshot := SnapRecords rs\<rparr>"
  by (auto simp: write_snapshot_def split: option.splits)

lemma write_snapshot_done:
  "write_snapshot io rs d = (None, d') \<Longrightarrow> d' = d\<lparr>d_snapshot := SnapRecords rs\<rparr>"
  by (auto simp: write_snapshot_def split: option.splits)

lemma compact_locked_holds:
  assumes "disk_holds (fs_disk s) (map_of (fs_records s))" and "wf_map (fs_records s)"
  shows "disk_holds (fs_disk (snd (compact_locked io s))) (map_of (fs_records s))"
proof (cases "write_snapshot io (fs_records s) (fs_disk s)")
  case (Pair err d)
  have d: "disk_holds d (map_of (fs_records s))"
    using write_snapshot_cases [OF Pair] assms disk_holds_snapshot by blast
  show ?thesis
  proof (cases err)
    case (Some e)
    with Pair d show ?thesis by (simp add: compact_locked_def Let_def)
  next
    case None
    with Pair have "d = (fs_disk s)\<lparr>d_snapshot := SnapRecords (fs_records s)\<rparr>"
      by (auto dest: write_snapshot_done)
    then have "disk_holds (truncate_journal d) (map_of (fs_records s))"
      using assms(2) by (simp add: disk_holds_truncate)
    with None Pair d show ?thesis
      by (simp add: compact_locked_def Let_def split: option.split)
  qed
qed

section \<open>Saving\<close>

text \<open>
  The invariant of the store at rest. The last conjunct excludes one double fault: a write to
  the journal that fails and whose repair by truncation fails as well.
\<close>

definition store_ok :: "file_store \<Rightarrow> bool" where
  "store_ok s \<longleftrightarrow> wf_map (fs_records s) \<and> wf_map (fs_persisted s) \<and> dirty_covers s \<and>
     disk_holds (fs_disk s) (map_of (fs_persisted s)) \<and>
     list_all (\<lambda>io. io_truncate io = None) (fs_io s)"

definition save_outcome :: "file_store \<Rightarrow> go_error option \<Rightarrow> file_store \<Rightarrow> bool" where
  "save_outcome s err s' \<longleftrightarrow> core s' = core s \<and> wf_map (fs_persisted s') \<and>
     list_all (\<lambda>io. io_truncate io = None) (fs_io s') \<and>
     disk_holds (fs_disk s') (map_of (fs_persisted s')) \<and>
     (if err = None
      then map_of (fs_persisted s') = map_of (fs_records s)
      else fs_persisted s' = fs_persisted s \<and> fs_dirty_keys s' = fs_dirty_keys s)"

lemma next_io_cases:
  assumes "next_io s = (io, t)" and "list_all (\<lambda>io. io_truncate io = None) (fs_io s)"
  shows "io_truncate io = None" and "\<exists>ios. t = s\<lparr>fs_io := ios\<rparr>"
    and "list_all (\<lambda>io. io_truncate io = None) (fs_io t)"
  using assms by (auto simp: next_io_def split: list.splits) (metis file_store.surjective
    file_store.update_convs(14))+

lemma save_commit:
  assumes ok: "store_ok s" and app: "append_journal io ch (fs_disk s) = (None, d)"
    and ch: "ch = pending_changes (fs_dirty_keys s) (fs_records s) (fs_persisted s)"
    and t: "t = s\<lparr>fs_disk := d, fs_persisted := apply_changes ch (fs_persisted s),
      fs_dirty_keys := [], fs_journal_entries := n, fs_journal_bytes := m\<rparr>"
  shows "save_outcome s None t" and "save_outcome s None (snd (compact_locked cio t))"
proof -
  have holds: "disk_holds (fs_disk s) (map_of (fs_persisted s))"
    and dirty: "dirty_covers s" and wf: "wf_map (fs_persisted s)" "wf_map (fs_records s)"
    and ios: "list_all (\<lambda>io. io_truncate io = None) (fs_io s)"
    using ok by (auto simp: store_ok_def)
  have eq: "map_of (apply_changes ch (fs_persisted s)) = map_of (fs_records s)"
    using pending_changes_sound [OF dirty] ch by simp
  have "d_tail (fs_disk s) = None" using holds by (simp add: disk_holds_def)
  from append_journal_success [OF app this] have "d = (fs_disk s\<lparr>d_journal_exists := True\<rparr>)
      \<lparr>d_lines := d_lines (fs_disk s\<lparr>d_journal_exists := True\<rparr>) @ [JEntry ch (io_size io)],
       d_tail := None\<rparr>" by simp
  then have hd: "disk_holds d (map_of (apply_changes ch (fs_persisted s)))"
    using disk_holds_append [OF disk_holds_exists [OF holds], of ch "io_size io"] by simp
  show "save_outcome s None t"
    using hd eq wf ios t by (simp add: save_outcome_def core_def)
  have "disk_holds (fs_disk t) (map_of (fs_records t))"
    using hd eq t by simp
  from compact_locked_holds [OF this, of cio] wf(2) t
  have "disk_holds (fs_disk (snd (compact_locked cio t))) (map_of (fs_persisted t))"
    using eq t by simp
  moreover have "core t = core s" using t by (simp add: core_def)
  ultimately show "save_outcome s None (snd (compact_locked cio t))"
    using eq wf ios t
    by (simp add: save_outcome_def compact_locked_core compact_locked_persist)
qed

lemma save_outcome_err:
  assumes "store_ok s" and "t = s\<lparr>fs_io := ios\<rparr>"
    and "list_all (\<lambda>io. io_truncate io = None) ios"
  shows "save_outcome s (Some e) t"
  using assms by (simp add: save_outcome_def store_ok_def core_def)

theorem save_locked_outcome:
  assumes ok: "store_ok s" and save: "save_locked s = (err, s')"
  shows "save_outcome s err s'"
proof (cases "fs_closed s")
  case True
  with save ok show ?thesis
    by (auto simp: save_locked_def save_outcome_def store_ok_def)
next
  case False
  obtain io t where io: "next_io s = (io, t)" by fastforce
  have tr: "io_truncate io = None" and ts: "\<exists>ios. t = s\<lparr>fs_io := ios\<rparr>"
    and ios: "list_all (\<lambda>io. io_truncate io = None) (fs_io t)"
    using next_io_cases [OF io] ok by (auto simp: store_ok_def)
  have okt: "store_ok t" and out: "\<And>err u. save_outcome t err u = save_outcome s err u"
    using ts ios ok by (auto simp: store_ok_def dirty_covers_def save_outcome_def core_def)
  let ?ch = "pending_changes (fs_dirty_keys t) (fs_records t) (fs_persisted t)"
  have err: "save_outcome t (Some e) t" for e
    using save_outcome_err [OF okt _ ios, of t e] by simp
  have "save_outcome t err s'"
  proof (cases "io_mkdir io")
    case (Some e)
    with save False io err show ?thesis by (auto simp: save_locked_def)
  next
    case mk: None
    show ?thesis
    proof (cases "?ch = []")
      case True
      have "map_of (fs_persisted t) = map_of (fs_records t)"
        using pending_changes_sound [of t] True okt by (simp add: store_ok_def)
      then have "save_outcome t None (t\<lparr>fs_dirty_keys := []\<rparr>)"
        using okt by (auto simp: save_outcome_def store_ok_def core_def)
      with save False io mk True show ?thesis by (auto simp: save_locked_def Let_def)
    next
      case ch: False
      show ?thesis
      proof (cases "io_marshal io")
        case (Some e)
        with save False io mk ch err show ?thesis by (auto simp: save_locked_def Let_def)
      next
        case ma: None
        obtain aerr d where app: "append_journal io ?ch (fs_disk t) = (aerr, d)" by fastforce
        show ?thesis
        proof (cases aerr)
          case (Some e)
          have "disk_holds d (map_of (fs_persisted t))"
            using append_journal_failure [OF app [unfolded Some] tr] okt
            by (auto simp: store_ok_def)
          then have "save_outcome t (Some e) (t\<lparr>fs_disk := d\<rparr>)"
            using okt by (simp add: save_outcome_def store_ok_def core_def)
          with save False io mk ch ma app Some show ?thesis
            by (auto simp: save_locked_def Let_def)
        next
          case None
          note commit = save_commit [OF okt app [unfolded None] refl refl]
          from save False io mk ch ma app None commit show ?thesis
            by (auto simp: save_locked_def Let_def split: if_splits)
        qed
      qed
    qed
  qed
  then show ?thesis by (simp add: out)
qed

section \<open>The interface of a durable store\<close>

text \<open>
  What the operations of the store rely on: \<open>edit\<close> changes one key and remembers that it did,
  \<open>revert\<close> puts a remembered key back, \<open>save\<close> makes the memory durable or leaves the durable
  state alone.
\<close>

locale durable_store =
  fixes save :: "'s \<Rightarrow> 'e option \<times> 's"
    and edit :: "'k \<Rightarrow> 'v option \<Rightarrow> 's \<Rightarrow> 's"
    and revert :: "'k \<Rightarrow> 'v option \<Rightarrow> 's \<Rightarrow> 's"
    and mem :: "'s \<Rightarrow> 'k \<Rightarrow> 'v option"
    and stored :: "'s \<Rightarrow> 'k \<Rightarrow> 'v option"
    and dirty :: "'s \<Rightarrow> 'k set"
    and ok :: "'s \<Rightarrow> bool"
  assumes mem_edit: "mem (edit k v s) = (mem s)(k := v)"
    and stored_edit: "stored (edit k v s) = stored s"
    and dirty_edit: "dirty (edit k v s) = insert k (dirty s)"
    and ok_edit: "ok s \<Longrightarrow> ok (edit k v s)"
    and mem_revert: "mem (revert k v s) = (mem s)(k := v)"
    and stored_revert: "stored (revert k v s) = stored s"
    and dirty_revert: "dirty (revert k v s) = dirty s"
    and ok_revert: "ok s \<Longrightarrow> k \<in> dirty s \<Longrightarrow> ok (revert k v s)"
    and save_done: "ok s \<Longrightarrow> save s = (None, s') \<Longrightarrow>
      ok s' \<and> mem s' = mem s \<and> stored s' = mem s"
    and save_failed: "ok s \<Longrightarrow> save s = (Some e, s') \<Longrightarrow>
      ok s' \<and> mem s' = mem s \<and> stored s' = stored s \<and> dirty s' = dirty s"
begin

lemma edits_fold:
  "mem (fold (\<lambda>(k, v). edit k v) es s) = fold (\<lambda>(k, v) m. m(k := v)) es (mem s)"
  "stored (fold (\<lambda>(k, v). edit k v) es s) = stored s"
  "dirty (fold (\<lambda>(k, v). edit k v) es s) = fst ` set es \<union> dirty s"
  "ok s \<Longrightarrow> ok (fold (\<lambda>(k, v). edit k v) es s)"
  by (induction es arbitrary: s) (auto simp: mem_edit stored_edit dirty_edit ok_edit)

lemma reverts_fold:
  "mem (fold (\<lambda>(k, v). revert k v) es s) = fold (\<lambda>(k, v) m. m(k := v)) es (mem s)"
  "stored (fold (\<lambda>(k, v). revert k v) es s) = stored s"
  "ok s \<Longrightarrow> fst ` set es \<subseteq> dirty s \<Longrightarrow> ok (fold (\<lambda>(k, v). revert k v) es s)"
  by (induction es arbitrary: s)
     (auto simp: mem_revert stored_revert dirty_revert ok_revert)

lemma fold_upd_undo:
  assumes "\<And>k v. (k, v) \<in> set es \<Longrightarrow> v = m k" and "\<And>k. k \<notin> fst ` set es \<Longrightarrow> m' k = m k"
  shows "fold (\<lambda>(k, v) m. m(k := v)) es m' = m"
  using assms
proof (induction es arbitrary: m')
  case Nil
  then show ?case by (simp add: fun_eq_iff)
next
  case (Cons e es)
  obtain k v where e: "e = (k, v)" by fastforce
  have "fold (\<lambda>(k, v) m. m(k := v)) es (m'(k := v)) = m"
  proof (rule Cons.IH)
    show "\<And>k v. (k, v) \<in> set es \<Longrightarrow> v = m k" using Cons.prems(1) by simp
    show "(m'(k := v)) j = m j" if "j \<notin> fst ` set es" for j
      using Cons.prems(1) [of k v] Cons.prems(2) [of j] that e by auto
  qed
  with e show ?case by (simp del: fun_upd_apply)
qed

text \<open>A transaction: edits, a save, and on failure the old values put back.\<close>

lemma txn_commit:
  assumes "ok s" and "save (fold (\<lambda>(k, v). edit k v) es s) = (None, s')"
  shows "ok s' \<and> mem s' = fold (\<lambda>(k, v) m. m(k := v)) es (mem s) \<and> stored s' = mem s'"
  using save_done [OF edits_fold(4) [OF assms(1)] assms(2)] by (simp add: edits_fold)

lemma txn_abort:
  assumes ok: "ok s" and clean: "stored s = mem s"
    and save: "save (fold (\<lambda>(k, v). edit k v) es s) = (Some e, s')"
    and undo: "\<And>k v. (k, v) \<in> set us \<Longrightarrow> v = mem s k"
    and keys: "fst ` set es = fst ` set us"
  shows "ok (fold (\<lambda>(k, v). revert k v) us s') \<and>
    mem (fold (\<lambda>(k, v). revert k v) us s') = mem s \<and>
    stored (fold (\<lambda>(k, v). revert k v) us s') = mem s"
proof -
  have s': "ok s'" "mem s' = fold (\<lambda>(k, v) m. m(k := v)) es (mem s)" "stored s' = mem s"
    "dirty s' = fst ` set es \<union> dirty s"
    using save_failed [OF edits_fold(4) [OF ok] save] clean by (simp_all add: edits_fold)
  have frame: "fold (\<lambda>(k, v) m. m(k := v)) es m k = m k" if "k \<notin> fst ` set es"
    for k and m :: "'k \<Rightarrow> 'v option"
    using that by (induction es arbitrary: m) auto
  have "fold (\<lambda>(k, v) m. m(k := v)) us (mem s') = mem s"
    by (rule fold_upd_undo) (use undo frame keys s'(2) in auto)
  then show ?thesis
    using reverts_fold [where es = us and s = s'] s' keys by auto
qed

end

text \<open>Writing or removing one record, with and without the dirty mark.\<close>

definition set_record :: "string \<Rightarrow> runner_record option \<Rightarrow> file_store \<Rightarrow> file_store" where
  "set_record k v s = (case v of None \<Rightarrow> drop_record k s | Some r \<Rightarrow> put_record k r s)"

definition edit_record :: "string \<Rightarrow> runner_record option \<Rightarrow> file_store \<Rightarrow> file_store" where
  "edit_record k v s = mark_dirty k (set_record k v s)"

lemmas edit_defs = edit_record_def set_record_def mark_dirty_def put_record_def drop_record_def

interpretation ds: durable_store save_locked edit_record set_record
  "\<lambda>s. map_of (fs_records s)" "\<lambda>s. map_of (fs_persisted s)" "\<lambda>s. set (fs_dirty_keys s)" store_ok
proof (unfold_locales, goal_cases)
  case (9 s s')
  show ?case
    using save_locked_outcome [OF 9] 9(1)
    by (auto simp: save_outcome_def store_ok_def dirty_covers_def dest!: core_fields(1))
next
  case (10 s e s')
  show ?case
    using save_locked_outcome [OF 10] 10(1)
    by (auto simp: save_outcome_def store_ok_def dirty_covers_def dest!: core_fields(1))
qed (auto simp: edit_defs store_ok_def dirty_covers_def split: option.split)

end
