(* ===== verification/Store_Lifecycle.thy ===== *)
theory Store_Lifecycle
  imports State_Durability
begin

text \<open>
  What every operation of the store keeps of a record and of the whole store. The methods
  that go through \<open>update\<close> share the contract of the locale \<open>lifecycle_mutator\<close>; the rest are
  proved against the same relation between the store before and after.
\<close>

section \<open>Record invariant and record evolution\<close>

text \<open>
  The claim held on a record agrees with its status; an accepted deletion names the current
  instance; a completed job is never rechecked for demand.
\<close>

definition claim_consistent :: "runner_record \<Rightarrow> bool" where
  "claim_consistent r \<longleftrightarrow>
    (case r_status r of
       StatusProvisioning \<Rightarrow> r_claimed_work r = WorkProvision
     | StatusDeleting \<Rightarrow> r_claimed_work r = WorkDelete
     | StatusCompleted \<Rightarrow> True
     | StatusOrphaned \<Rightarrow> True
     | StatusDeleted \<Rightarrow> True
     | _ \<Rightarrow> r_claimed_work r = WorkNone)"

definition acceptance_bound :: "runner_record \<Rightarrow> bool" where
  "acceptance_bound r \<longleftrightarrow>
    r_deletion_accepted_id r = '''' \<or> r_instance_id r = '''' \<or>
    r_deletion_accepted_id r = r_instance_id r"

definition record_inv :: "runner_record \<Rightarrow> bool" where
  "record_inv r \<longleftrightarrow> claim_consistent r \<and> acceptance_bound r \<and>
     \<not> (r_recheck_demand r \<and> r_job_completed r) \<and>
     r_attempts r \<ge> 0 \<and> r_delete_attempts r \<ge> 0 \<and> r_status r \<noteq> StatusUnset \<and>
     r_droplet_id r = 0"

lemmas record_inv_defs = record_inv_def claim_consistent_def acceptance_bound_def

text \<open>The job a record stands for.\<close>

definition same_job :: "runner_record \<Rightarrow> runner_record \<Rightarrow> bool" where
  "same_job r r' \<longleftrightarrow> r_key r' = r_key r \<and> r_delivery_id r' = r_delivery_id r \<and>
     r_job_id r' = r_job_id r \<and> r_owner r' = r_owner r \<and> r_repository r' = r_repository r \<and>
     r_labels r' = r_labels r \<and> r_provider r' = r_provider r \<and> r_created_at r' = r_created_at r"

text \<open>
  One operation on one record: the job stays, a completed job stays completed, a deleted
  record stays deleted and an orphan leaves that status only to be deleted or completed.
\<close>

definition record_evolves :: "runner_record \<Rightarrow> runner_record \<Rightarrow> bool" where
  "record_evolves r r' \<longleftrightarrow> same_job r r' \<and>
     (r_job_completed r \<longrightarrow> r_job_completed r') \<and>
     (r_status r = StatusDeleted \<longrightarrow> r_status r' = StatusDeleted) \<and>
     (r_status r = StatusOrphaned \<longrightarrow>
        r_status r' = StatusOrphaned \<or> r_status r' = StatusDeleted \<or> r_status r' = StatusCompleted)"

lemmas evolve_defs = record_evolves_def same_job_def

lemma record_evolves_refl [simp]: "record_evolves r r"
  by (simp add: evolve_defs)

text \<open>The stamp \<open>UpdatedAt\<close> that every update sets is irrelevant to all of this.\<close>

lemma stamp_simps [simp]:
  "record_inv (r\<lparr>r_updated_at := t\<rparr>) = record_inv r"
  "is_live (r\<lparr>r_updated_at := t\<rparr>) = is_live r"
  "record_evolves r0 (r\<lparr>r_updated_at := t\<rparr>) = record_evolves r0 r"
  by (cases "r_status r"; simp add: record_inv_defs is_live_def evolve_defs)+

section \<open>The contract of the update methods\<close>

definition clean_ok :: "file_store \<Rightarrow> bool" where
  "clean_ok s \<longleftrightarrow> store_ok s \<and> map_of (fs_persisted s) = map_of (fs_records s)"

text \<open>What no save and no edit of records touches.\<close>

definition same_frame :: "file_store \<Rightarrow> file_store \<Rightarrow> bool" where
  "same_frame s t \<longleftrightarrow> fs_runner_keys t = fs_runner_keys s \<and> fs_closed t = fs_closed s \<and>
     fs_deleted_retention t = fs_deleted_retention s \<and>
     fs_max_live_runners t = fs_max_live_runners s \<and>
     fs_ordered_keys t = fs_ordered_keys s \<and> fs_keys_dirty t = fs_keys_dirty s"

lemma same_frame_refl [simp]: "same_frame s s"
  by (simp add: same_frame_def)

lemma same_frame_trans: "same_frame s t \<Longrightarrow> same_frame t u \<Longrightarrow> same_frame s u"
  by (simp add: same_frame_def)

lemma save_same_frame:
  assumes "store_ok s" and "save_locked s = (err, s')"
  shows "same_frame s s'"
  using save_locked_outcome [OF assms] core_fields [of s' s]
  by (auto simp: save_outcome_def same_frame_def)

lemma replace_record_spec:
  assumes ok: "clean_ok s" and old: "lookup_record s k = Some before"
    and run: "replace_record k before r s = (err, s')"
  shows "clean_ok s'" and "same_frame s s'"
    and "map_of (fs_records s') =
      (if err = None then (map_of (fs_records s))(k \<mapsto> r) else map_of (fs_records s))"
proof -
  let ?t = "fold (\<lambda>(k, v). edit_record k v) [(k, Some r)] s"
  have t: "mark_dirty k (put_record k r s) = ?t" by (simp add: edit_defs)
  obtain e u where save: "save_locked ?t = (e, u)" by fastforce
  have okt: "store_ok ?t" using ok ds.ok_edit by (simp add: clean_ok_def)
  have fr: "same_frame s ?t" by (simp add: edit_defs same_frame_def)
  have fu: "same_frame s u" using same_frame_trans [OF fr save_same_frame [OF okt save]] .
  have "clean_ok s' \<and> same_frame s s' \<and> map_of (fs_records s') =
      (if err = None then (map_of (fs_records s))(k \<mapsto> r) else map_of (fs_records s))"
  proof (cases e)
    case None
    with run save t have "err = None" "s' = u" by (auto simp: replace_record_def)
    with ds.txn_commit [OF _ save [unfolded None]] ok fu show ?thesis
      by (auto simp: clean_ok_def)
  next
    case (Some x)
    with run save t have e: "err = Some x"
      and s': "s' = fold (\<lambda>(k, v). set_record k v) [(k, Some before)] u"
      by (auto simp: replace_record_def set_record_def)
    have "same_frame u s'" by (simp add: s' set_record_def put_record_def same_frame_def)
    with ds.txn_abort [OF _ _ save [unfolded Some], of "[(k, Some before)]"] ok old fu e s'
    show ?thesis by (auto simp: clean_ok_def intro: same_frame_trans)
  qed
  then show "clean_ok s'" and "same_frame s s'"
    and "map_of (fs_records s') =
      (if err = None then (map_of (fs_records s))(k \<mapsto> r) else map_of (fs_records s))"
    by simp_all
qed

text \<open>How an operation may change the records, except under the keys \<open>X\<close>.\<close>

definition is_marker_key :: "string \<Rightarrow> bool" where
  "is_marker_key k \<longleftrightarrow> has_prefix k completion_marker_prefix"

definition store_evolves_but :: "(string \<Rightarrow> bool) \<Rightarrow> file_store \<Rightarrow> file_store \<Rightarrow> bool" where
  "store_evolves_but X s s' \<longleftrightarrow>
    (\<forall>k. \<not> X k \<longrightarrow>
      (case (lookup_record s k, lookup_record s' k) of
         (None, None) \<Rightarrow> True
       | (None, Some r') \<Rightarrow> r_status r' = StatusPending \<or> r_status r' = StatusCompleted
       | (Some r, None) \<Rightarrow> retired r
       | (Some r, Some r') \<Rightarrow> record_evolves r r'))"

abbreviation store_evolves :: "file_store \<Rightarrow> file_store \<Rightarrow> bool" where
  "store_evolves \<equiv> store_evolves_but (\<lambda>k. False)"

lemma store_evolves_butI: "store_evolves s s' \<Longrightarrow> store_evolves_but X s s'"
  by (simp add: store_evolves_but_def)

definition records_inv :: "file_store \<Rightarrow> bool" where
  "records_inv s \<longleftrightarrow> (\<forall>k r. lookup_record s k = Some r \<longrightarrow> record_inv r \<and> r_key r = k)"

lemma records_invD: "records_inv s \<Longrightarrow> lookup_record s k = Some r \<Longrightarrow> record_inv r \<and> r_key r = k"
  by (simp add: records_inv_def)

lemma store_evolves_same: "map_of (fs_records s') = map_of (fs_records s) \<Longrightarrow> store_evolves s s'"
  by (simp add: store_evolves_but_def split: option.split)

lemma store_evolves_put:
  "map_of (fs_records s') = (map_of (fs_records s))(k \<mapsto> r') \<Longrightarrow>
   lookup_record s k = Some r \<Longrightarrow> record_evolves r r' \<Longrightarrow> store_evolves s s'"
  by (simp add: store_evolves_but_def split: option.split)

text \<open>The whole invariant of the store between operations.\<close>

definition store_inv :: "file_store \<Rightarrow> bool" where
  "store_inv s \<longleftrightarrow> clean_ok s \<and> records_inv s"

lemma live_count_cong:
  "clean_ok s \<Longrightarrow> clean_ok s' \<Longrightarrow> map_of (fs_records s') = map_of (fs_records s) \<Longrightarrow>
   live_runner_count s' = live_runner_count s"
  unfolding live_runner_count_def
  by (rule count_where_map_of_eq) (auto simp: clean_ok_def store_ok_def)

lemma live_count_put:
  assumes "clean_ok s" and "clean_ok s'" and "lookup_record s k = Some r"
    and "map_of (fs_records s') = (map_of (fs_records s))(k \<mapsto> r')"
  shows "live_runner_count s' + (if is_live r then 1 else 0) =
    live_runner_count s + (if is_live r' then 1 else 0)"
proof -
  have wf: "wf_map (fs_records s)" "wf_map (fs_records s')"
    using assms(1,2) by (auto simp: clean_ok_def store_ok_def)
  have "count_where is_live (fs_records s') = count_where is_live (AList.update k r' (fs_records s))"
    using assms(4) by (intro count_where_map_of_eq) (simp_all add: wf)
  then show ?thesis
    using count_where_update_old [OF wf(1) assms(3), of is_live r']
    by (simp add: live_runner_count_def)
qed

text \<open>One replaced record: invariant, evolution and admission.\<close>

lemma replace_record_step:
  assumes inv: "store_inv s" and old: "lookup_record s k = Some r"
    and run: "replace_record k r r' s = (err, s')"
    and new: "record_inv r'" "record_evolves r r'"
  shows "store_inv s'" and "store_evolves s s'" and "same_frame s s'"
    and "(is_live r' \<Longrightarrow> is_live r) \<Longrightarrow> live_runner_count s' \<le> live_runner_count s"
    and "err \<noteq> None \<Longrightarrow> map_of (fs_records s') = map_of (fs_records s)"
proof -
  have ok: "clean_ok s" and recs: "records_inv s" using inv by (auto simp: store_inv_def)
  note spec = replace_record_spec [OF ok old run]
  have "records_inv s'"
    using recs new old spec(3)
    by (auto simp: records_inv_def evolve_defs split: if_splits)
  with spec(1) show "store_inv s'" by (simp add: store_inv_def)
  show "store_evolves s s'"
    using spec(3) old new(2) by (cases err) (auto intro: store_evolves_same store_evolves_put)
  show "same_frame s s'" by (rule spec(2))
  show "err \<noteq> None \<Longrightarrow> map_of (fs_records s') = map_of (fs_records s)" using spec(3) by auto
  show "live_runner_count s' \<le> live_runner_count s" if "is_live r' \<Longrightarrow> is_live r"
  proof (cases err)
    case None
    with live_count_put [OF ok spec(1) old, of r'] spec(3) that show ?thesis
      by (auto split: if_splits)
  next
    case (Some e)
    with live_count_cong [OF ok spec(1)] spec(3) show ?thesis by simp
  qed
qed

locale lifecycle_mutator =
  fixes mutate :: "runner_record \<Rightarrow> runner_record"
  assumes evolves: "record_evolves r (mutate r)"
    and keeps_inv: "record_inv r \<Longrightarrow> record_inv (mutate r)"
begin

lemma update_cases:
  assumes "store_inv s" and "update_record k mutate now s = (err, s')"
  obtains (absent) "lookup_record s k = None" and "s' = s" and "err = Some (not_found k)"
  | (present) r where "lookup_record s k = Some r"
      and "replace_record k r ((mutate r)\<lparr>r_updated_at := now\<rparr>) s = (err, s')"
      and "record_inv ((mutate r)\<lparr>r_updated_at := now\<rparr>)"
      and "record_evolves r ((mutate r)\<lparr>r_updated_at := now\<rparr>)"
  using assms keeps_inv evolves
  by (cases "lookup_record s k") (auto simp: update_record_def store_inv_def records_inv_def)

lemma update_step:
  assumes "store_inv s" and "update_record k mutate now s = (err, s')"
  shows "store_inv s' \<and> store_evolves s s' \<and> same_frame s s' \<and>
    (err \<noteq> None \<longrightarrow> map_of (fs_records s') = map_of (fs_records s))"
  using assms
proof (cases rule: update_cases)
  case absent
  with assms(1) show ?thesis by (simp add: store_evolves_same)
next
  case (present r)
  note step = replace_record_step [OF assms(1) present]
  from step(1,2,3,5) show ?thesis by simp
qed

end

text \<open>A mutator that never makes a record count against the admission ceiling.\<close>

locale nonadmitting_mutator = lifecycle_mutator +
  assumes keeps_dead: "is_live (mutate r) \<Longrightarrow> record_inv r \<Longrightarrow> is_live r"
begin

lemma update_live_le:
  assumes "store_inv s" and "update_record k mutate now s = (err, s')"
  shows "live_runner_count s' \<le> live_runner_count s"
  using assms
proof (cases rule: update_cases)
  case absent
  then show ?thesis by simp
next
  case (present r)
  have "record_inv r" using assms(1) present(1) by (simp add: store_inv_def records_inv_def)
  with replace_record_step(4) [OF assms(1) present] keeps_dead show ?thesis by simp
qed

end

section \<open>The update methods\<close>

text \<open>One constructor per method of \<open>FileStore\<close> that is a call of \<open>update\<close> and nothing else.\<close>

datatype update_op =
    UReleaseClaim work_kind
  | UDeferRateLimitedWork work_kind string time int
  | UDeferProvisioningDemand string time
  | UClearJIT
  | UClearProviderMissing
  | UClearGitHubMissing
  | URecordRunnerSeen
  | UClearRunnerMissing
  | UDeferReconciliation string time int bool bool
  | UDeferRateLimitedCleanup string time int bool
  | UDeferOrphanCleanup string time
  | UMarkProvisionFailed string time int
  | UMarkCompleted
  | UScheduleDeletion
  | UDeferDeletionConfirmation string time
  | UMarkDeleted
  | UFinishDeletedRunner bool
  | UDeferReassignmentDemand string time
  | UMarkDeleteFailed string time int
  | UMarkOrphaned string
  | UReleaseAbsentOrphan string
  | URequeueMissingRunner int

fun mutator :: "time \<Rightarrow> update_op \<Rightarrow> runner_record \<Rightarrow> runner_record" where
  "mutator now (UReleaseClaim kind) = release_claim_mut kind"
| "mutator now (UDeferRateLimitedWork kind m t n) = defer_rate_limited_work_mut kind m t n"
| "mutator now (UDeferProvisioningDemand m t) = defer_provisioning_demand_mut m t"
| "mutator now UClearJIT = clear_jit_mut"
| "mutator now UClearProviderMissing = clear_provider_missing_mut"
| "mutator now UClearGitHubMissing = clear_github_missing_mut"
| "mutator now URecordRunnerSeen = record_runner_seen_mut now"
| "mutator now UClearRunnerMissing = clear_runner_missing_mut now"
| "mutator now (UDeferReconciliation m t n cf ct) = defer_reconciliation_mut m t n cf ct"
| "mutator now (UDeferRateLimitedCleanup m t n ct) = defer_rate_limited_cleanup_mut m t n ct"
| "mutator now (UDeferOrphanCleanup m t) = defer_orphan_cleanup_mut m t"
| "mutator now (UMarkProvisionFailed m t n) = mark_provision_failed_mut m t n"
| "mutator now UMarkCompleted = mark_completed_mut"
| "mutator now UScheduleDeletion = schedule_deletion_mut"
| "mutator now (UDeferDeletionConfirmation m t) = defer_deletion_confirmation_mut m t"
| "mutator now UMarkDeleted = mark_deleted_mut"
| "mutator now (UFinishDeletedRunner q) = (\<lambda>r. fst (finish_deleted_runner_mut q r))"
| "mutator now (UDeferReassignmentDemand m t) = defer_reassignment_demand_mut m t"
| "mutator now (UMarkDeleteFailed m t n) = mark_delete_failed_mut m t n"
| "mutator now (UMarkOrphaned m) = mark_orphaned_mut m"
| "mutator now (UReleaseAbsentOrphan i) = release_absent_orphan_mut i"
| "mutator now (URequeueMissingRunner n) = requeue_missing_runner_mut n"

lemma mutator_evolves: "record_evolves r (mutator now op r)"
  by (cases op) (auto simp: mut_defs evolve_defs Let_def split: work_kind.split)

lemma mutator_inv: "record_inv r \<Longrightarrow> record_inv (mutator now op r)"
  by (cases op; cases "r_status r"; cases "r_claimed_work r")
     (auto simp: mut_defs Let_def record_inv_defs split: work_kind.splits)

lemma mutator_live: "is_live (mutator now op r) \<Longrightarrow> record_inv r \<Longrightarrow> is_live r"
  by (cases op; cases "r_status r"; cases "r_claimed_work r")
     (auto simp: mut_defs Let_def record_inv_defs is_live_def split: work_kind.splits if_splits)

interpretation um: nonadmitting_mutator "mutator now op" for now op
  by unfold_locales (auto intro: mutator_evolves mutator_inv mutator_live)

end
