(* ===== verification/Store_Operations.thy ===== *)
theory Store_Operations
  imports Store_Lifecycle
begin

text \<open>
  The methods of the store with guards or effects of their own, against the same invariant and
  evolution: marking a runner provisioned or registered, observing absences, cleanup attempts,
  creation, completion, claiming and sweeping.
\<close>

section \<open>Provisioned runners\<close>

lemma mark_provisioned_evolves: "record_evolves r (mark_provisioned_mut now i n nm r)"
  by (auto simp: mark_provisioned_mut_def evolve_defs Let_def)

lemma mark_provisioned_inv: "record_inv r \<Longrightarrow> record_inv (mark_provisioned_mut now i n nm r)"
  by (cases "r_status r") (auto simp: mark_provisioned_mut_def Let_def record_inv_defs)

interpretation mp: lifecycle_mutator "mark_provisioned_mut now i n nm" for now i n nm
  by unfold_locales (auto intro: mark_provisioned_evolves mark_provisioned_inv)

text \<open>The index of runner identities is no part of the invariant.\<close>

lemma runner_keys_irrelevant [simp]:
  "store_inv (s\<lparr>fs_runner_keys := m\<rparr>) = store_inv s"
  "store_evolves s0 (s\<lparr>fs_runner_keys := m\<rparr>) = store_evolves s0 s"
  "live_runner_count (s\<lparr>fs_runner_keys := m\<rparr>) = live_runner_count s"
  by (simp_all add: store_inv_def clean_ok_def store_ok_def dirty_covers_def records_inv_def
      store_evolves_but_def live_runner_count_def)

lemma keys_dirty_irrelevant [simp]:
  "store_inv (s\<lparr>fs_keys_dirty := b\<rparr>) = store_inv s"
  "store_evolves s0 (s\<lparr>fs_keys_dirty := b\<rparr>) = store_evolves s0 s"
  "store_evolves (s\<lparr>fs_keys_dirty := b\<rparr>) s0 = store_evolves s s0"
  "live_runner_count (s\<lparr>fs_keys_dirty := b\<rparr>) = live_runner_count s"
  "store_ok (s\<lparr>fs_keys_dirty := b\<rparr>) = store_ok s"
  "clean_ok (s\<lparr>fs_keys_dirty := b\<rparr>) = clean_ok s"
  by (simp_all add: store_inv_def clean_ok_def store_ok_def dirty_covers_def records_inv_def
      store_evolves_but_def live_runner_count_def)

lemma mark_provisioned_update:
  assumes "mark_provisioned k i n nm now s = (err, s')"
  obtains s1 m where "update_record k (mark_provisioned_mut now i n nm) now s = (err, s1)"
    and "s' = s1 \<or> s' = s1\<lparr>fs_runner_keys := m\<rparr>"
  using assms
  by (auto simp: mark_provisioned_def Let_def split: prod.splits option.splits if_splits)

lemma mark_provisioned_step:
  assumes inv: "store_inv s" and run: "mark_provisioned k i n nm now s = (err, s')"
  shows "store_inv s' \<and> store_evolves s s' \<and>
    (err \<noteq> None \<longrightarrow> map_of (fs_records s') = map_of (fs_records s))"
proof -
  obtain s1 m where up: "update_record k (mark_provisioned_mut now i n nm) now s = (err, s1)"
    and s': "s' = s1 \<or> s' = s1\<lparr>fs_runner_keys := m\<rparr>"
    using mark_provisioned_update [OF run] .
  from mp.update_step [OF inv up] s' show ?thesis by auto
qed

text \<open>Marking a record that already holds a slot does not change the number of live runners.\<close>

lemma mark_provisioned_live:
  assumes inv: "store_inv s" and run: "mark_provisioned k i n nm now s = (err, s')"
    and held: "\<And>r. lookup_record s k = Some r \<Longrightarrow> is_live r \<or> retired r"
  shows "live_runner_count s' \<le> live_runner_count s"
proof -
  obtain s1 m where up: "update_record k (mark_provisioned_mut now i n nm) now s = (err, s1)"
    and s': "s' = s1 \<or> s' = s1\<lparr>fs_runner_keys := m\<rparr>"
    using mark_provisioned_update [OF run] .
  from inv up have "live_runner_count s1 \<le> live_runner_count s"
  proof (cases rule: mp.update_cases)
    case absent
    then show ?thesis by simp
  next
    case (present r)
    have "is_live r" if "is_live (mark_provisioned_mut now i n nm r)"
      using held [OF present(1)] that
      by (cases "retired r") (auto simp: mark_provisioned_mut_def)
    with replace_record_step(4) [OF inv present] show ?thesis by simp
  qed
  with s' show ?thesis by auto
qed

section \<open>Observations, acceptance and cleanup attempts\<close>

lemma mark_deletion_accepted_cases:
  assumes "mark_deletion_accepted k i now s = (err, s')"
  obtains (refused) "s' = s" and "err \<noteq> None"
  | (accepted) r where "lookup_record s k = Some r" and "r_instance_id r = i" and "i \<noteq> ''''"
      and "r_status r = StatusDeleting" and "r_claimed_work r = WorkDelete"
      and "replace_record k r (r\<lparr>r_deletion_accepted_id := i, r_updated_at := now\<rparr>) s = (err, s')"
proof (cases "lookup_record s k")
  case None
  with assms refused show ?thesis by (auto simp: mark_deletion_accepted_def)
next
  case (Some r)
  show ?thesis
  proof (cases "i = '''' \<or> r_instance_id r \<noteq> i \<or> r_status r \<noteq> StatusDeleting \<or>
      r_claimed_work r \<noteq> WorkDelete")
    case True
    with Some assms refused show ?thesis by (auto simp: mark_deletion_accepted_def)
  next
    case False
    with Some assms accepted [of r] show ?thesis by (simp add: mark_deletion_accepted_def)
  qed
qed

lemma mark_deletion_accepted_step:
  assumes inv: "store_inv s" and run: "mark_deletion_accepted k i now s = (err, s')"
  shows "store_inv s' \<and> store_evolves s s' \<and> live_runner_count s' \<le> live_runner_count s \<and>
    (err \<noteq> None \<longrightarrow> map_of (fs_records s') = map_of (fs_records s))"
  using run
proof (cases rule: mark_deletion_accepted_cases)
  case refused
  with inv show ?thesis by (simp add: store_evolves_same)
next
  case (accepted r)
  have "record_inv r" using records_invD inv accepted(1) by (auto simp: store_inv_def)
  then have "record_inv (r\<lparr>r_deletion_accepted_id := i, r_updated_at := now\<rparr>)"
    using accepted(2,4,5) by (simp add: record_inv_defs)
  moreover have "is_live (r\<lparr>r_deletion_accepted_id := i, r_updated_at := now\<rparr>) = is_live r"
    by (simp add: is_live_def)
  moreover have "record_evolves r (r\<lparr>r_deletion_accepted_id := i, r_updated_at := now\<rparr>)"
    by (simp add: evolve_defs)
  ultimately show ?thesis
    using replace_record_step [OF inv accepted(1,6)] by auto
qed

lemma observe_runner_missing_step:
  assumes inv: "store_inv s" and run: "observe_runner_missing k now settle n s = (res, s')"
  shows "store_inv s' \<and> store_evolves s s' \<and> live_runner_count s' \<le> live_runner_count s"
proof -
  consider "s' = s" | r where "lookup_record s k = Some r" "r_status r = StatusProvisioned"
    using run by (cases "lookup_record s k") (auto simp: observe_runner_missing_def split: if_splits)
  then show ?thesis
  proof cases
    case 1
    with inv show ?thesis by (simp add: store_evolves_same)
  next
    case (2 r)
    let ?r = "(if is_zero (r_missing_since r) then r\<lparr>r_missing_since := now, r_missing_checks := 1\<rparr>
       else r\<lparr>r_missing_checks := r_missing_checks r + 1\<rparr>)\<lparr>r_updated_at := now\<rparr>"
    obtain err t where rep: "replace_record k r ?r s = (err, t)" by fastforce
    with run 2 have "t = s'"
      by (cases err) (simp_all add: observe_runner_missing_def)
    moreover have "record_inv r" using records_invD inv 2(1) by (auto simp: store_inv_def)
    then have "record_inv ?r" and "record_evolves r ?r" and "is_live ?r = is_live r"
      using 2(2) by (auto simp: record_inv_defs evolve_defs is_live_def)
    ultimately show ?thesis
      using replace_record_step [OF inv 2(1) rep] by simp
  qed
qed

lemma observe_github_runner_missing_step:
  assumes inv: "store_inv s" and run: "observe_github_runner_missing k now settle n s = (res, s')"
  shows "store_inv s' \<and> store_evolves s s' \<and> live_runner_count s' \<le> live_runner_count s"
proof -
  consider "s' = s" | r where "lookup_record s k = Some r" "r_status r = StatusProvisioned"
    using run by (cases "lookup_record s k") (auto simp: observe_github_runner_missing_def split: if_splits)
  then show ?thesis
  proof cases
    case 1
    with inv show ?thesis by (simp add: store_evolves_same)
  next
    case (2 r)
    let ?r = "(if is_zero (r_github_missing_since r) then r\<lparr>r_github_missing_since := now, r_github_missing_checks := 1\<rparr>
       else r\<lparr>r_github_missing_checks := r_github_missing_checks r + 1\<rparr>)\<lparr>r_updated_at := now\<rparr>"
    obtain err t where rep: "replace_record k r ?r s = (err, t)" by fastforce
    with run 2 have "t = s'"
      by (cases err) (simp_all add: observe_github_runner_missing_def)
    moreover have "record_inv r" using records_invD inv 2(1) by (auto simp: store_inv_def)
    then have "record_inv ?r" and "record_evolves r ?r" and "is_live ?r = is_live r"
      using 2(2) by (auto simp: record_inv_defs evolve_defs is_live_def)
    ultimately show ?thesis
      using replace_record_step [OF inv 2(1) rep] by simp
  qed
qed

lemma begin_cleanup_attempt_step:
  assumes inv: "store_inv s" and run: "begin_cleanup_attempt k n now s = (res, s')"
  shows "store_inv s' \<and> store_evolves s s' \<and> live_runner_count s' \<le> live_runner_count s"
proof -
  consider "s' = s" | r where "lookup_record s k = Some r" "\<not> retired r"
    "r_claimed_work r = WorkNone" "\<not> (\<not> is_zero (r_next_attempt_at r) \<and> r_next_attempt_at r > now)"
    using run by (cases "lookup_record s k") (auto simp: begin_cleanup_attempt_def split: if_splits)
  then show ?thesis
  proof cases
    case 1
    with inv show ?thesis by (simp add: store_evolves_same)
  next
    case (2 r)
    let ?o = "r\<lparr>r_status := StatusOrphaned,
        r_last_error := ''cleanup retry budget exhausted; operator cleanup required'',
        r_next_attempt_at := zero_time, r_updated_at := now\<rparr>"
    let ?d = "r\<lparr>r_delete_attempts := r_delete_attempts r + 1, r_updated_at := now\<rparr>"
    let ?r = "if r_delete_attempts r \<ge> n then ?o else ?d"
    obtain err t where rep: "replace_record k r ?r s = (err, t)" by fastforce
    with run 2 have t: "t = s'"
      by (cases err; cases "r_delete_attempts r \<ge> n") (auto simp: begin_cleanup_attempt_def Let_def)
    have inv_r: "record_inv r" using records_invD inv 2(1) by (auto simp: store_inv_def)
    have "record_inv ?o" using inv_r by (simp add: record_inv_defs)
    moreover have "record_inv ?d" using inv_r by (cases "r_status r") (simp_all add: record_inv_defs)
    moreover have "record_evolves r ?o" "record_evolves r ?d" using 2(2) by (simp_all add: evolve_defs)
    moreover have "is_live ?o \<Longrightarrow> is_live r" "is_live ?d \<Longrightarrow> is_live r"
      using 2(2) by (auto simp: is_live_def split: if_splits)
    ultimately have "record_inv ?r" "record_evolves r ?r" "is_live ?r \<Longrightarrow> is_live r"
      by (auto split: if_splits)
    with replace_record_step [OF inv 2(1) rep] t show ?thesis by blast
  qed
qed

section \<open>Creation\<close>

text \<open>
  What the webhook hands to \<open>Create\<close> and \<open>RecordCompletion\<close>: a record with a job and perhaps a
  runner, none of whose lifecycle fields is set.
\<close>

definition fresh_request :: "runner_record \<Rightarrow> bool" where
  "fresh_request r \<longleftrightarrow> \<not> is_marker_key (r_key r) \<and> r_claimed_work r = WorkNone \<and>
     r_instance_id r = [] \<and> r_deletion_accepted_id r = [] \<and> \<not> r_github_runner_owned r \<and>
     \<not> r_recheck_demand r \<and> r_attempts r = 0 \<and> r_delete_attempts r = 0 \<and>
     r_droplet_id r = 0"

lemma txn_frame:
  assumes "clean_ok s" and "save_locked (fold (\<lambda>(k, v). edit_record k v) es s) = (err, s')"
  shows "same_frame s s'"
proof -
  have "same_frame s (fold (\<lambda>(k, v). edit_record k v) es s)"
  proof (induction es arbitrary: s)
    case (Cons e es)
    have "same_frame s (edit_record (fst e) (snd e) s)"
      by (simp add: edit_defs same_frame_def split: option.split)
    with Cons show ?case by (auto simp: case_prod_unfold intro: same_frame_trans)
  qed simp
  moreover have "store_ok (fold (\<lambda>(k, v). edit_record k v) es s)"
    using assms(1) ds.edits_fold(4) by (simp add: clean_ok_def)
  ultimately show ?thesis using save_same_frame [OF _ assms(2)] by (blast intro: same_frame_trans)
qed

text \<open>A committed transaction, from the interface of the durable store.\<close>

lemma txn_commit_clean:
  assumes "clean_ok s" and "save_locked (fold (\<lambda>(k, v). edit_record k v) es s) = (None, s')"
  shows "clean_ok s'" and "map_of (fs_records s') =
    fold (\<lambda>(k, v) m. m(k := v)) es (map_of (fs_records s))"
  using ds.txn_commit [OF _ assms(2)] assms(1) by (auto simp: clean_ok_def)

lemma txn_abort_clean:
  assumes "clean_ok s" and "save_locked (fold (\<lambda>(k, v). edit_record k v) es s) = (Some e, s')"
    and "\<And>k v. (k, v) \<in> set us \<Longrightarrow> v = lookup_record s k" and "fst ` set es = fst ` set us"
  shows "clean_ok (fold (\<lambda>(k, v). set_record k v) us s')"
    and "map_of (fs_records (fold (\<lambda>(k, v). set_record k v) us s')) = map_of (fs_records s)"
  using ds.txn_abort [OF _ _ assms(2,3,4)] assms(1) by (auto simp: clean_ok_def)

lemma create_cases:
  assumes run: "create r now s = (res, s')" and ok: "clean_ok s"
  obtains (duplicate) r0 where "lookup_record s (r_key r) = Some r0" and "res = Inr False" and "s' = s"
  | (created) "lookup_record s (r_key r) = None" and "res = Inr True" and "clean_ok s'"
      and "map_of (fs_records s') = (map_of (fs_records s))(r_key r \<mapsto>
        r\<lparr>r_status := StatusPending, r_created_at := now, r_updated_at := now\<rparr>)"
      and "fs_keys_dirty s'"
  | (failed) e where "lookup_record s (r_key r) = None" and "res = Inl e" and "clean_ok s'"
      and "map_of (fs_records s') = map_of (fs_records s)" and "fs_keys_dirty s'"
proof (cases "lookup_record s (r_key r)")
  case (Some r0)
  with run have "res = Inr False" "s' = s" by (auto simp: create_def)
  with Some show ?thesis by (rule duplicate)
next
  case None
  let ?r = "r\<lparr>r_status := StatusPending, r_created_at := now, r_updated_at := now\<rparr>"
  let ?s = "s\<lparr>fs_keys_dirty := True\<rparr>" and ?es = "[(r_key r, Some ?r)]"
  let ?t = "fold (\<lambda>(k, v). edit_record k v) ?es ?s"
  have ok': "clean_ok ?s" using ok by simp
  obtain err u where save: "save_locked ?t = (err, u)" by fastforce
  have t: "(mark_dirty (r_key r) (put_record (r_key r) ?r s))\<lparr>fs_keys_dirty := True\<rparr> = ?t"
    by (simp add: edit_defs)
  show ?thesis
  proof (cases err)
    case e: None
    from run None save e t have "res = Inr True" "s' = u" by (auto simp: create_def Let_def)
    moreover have "fs_keys_dirty u"
      using txn_frame [OF ok' save] by (simp add: same_frame_def)
    ultimately show ?thesis
      using None txn_commit_clean [OF ok' save [unfolded e]] by (intro created) simp_all
  next
    case (Some e)
    let ?us = "[(r_key r, None)]"
    from run None save Some t have "res = Inl e"
      and s': "s' = (fold (\<lambda>(k, v). set_record k v) ?us u)\<lparr>fs_keys_dirty := True\<rparr>"
      by (auto simp: create_def Let_def set_record_def)
    moreover have "\<And>k v. (k, v) \<in> set ?us \<Longrightarrow> v = lookup_record ?s k" using None by simp
    ultimately show ?thesis
      using None txn_abort_clean [OF ok' save [unfolded Some], of ?us] by (intro failed) simp_all
  qed
qed

lemma create_step:
  assumes inv: "store_inv s" and fresh: "fresh_request r" and run: "create r now s = (res, s')"
  shows "store_inv s' \<and> store_evolves s s' \<and> live_runner_count s' = live_runner_count s"
proof -
  have ok: "clean_ok s" and recs: "records_inv s" using inv by (auto simp: store_inv_def)
  from run ok show ?thesis
  proof (cases rule: create_cases)
    case duplicate
    with inv show ?thesis by (simp add: store_evolves_same)
  next
    case failed
    with recs live_count_cong [OF ok] show ?thesis
      by (simp add: store_inv_def records_inv_def store_evolves_same)
  next
    case created
    let ?r = "r\<lparr>r_status := StatusPending, r_created_at := now, r_updated_at := now\<rparr>"
    have "record_inv ?r" "\<not> is_live ?r" using fresh
      by (auto simp: fresh_request_def record_inv_defs is_live_def)
    moreover have "live_runner_count s' = count_where is_live (AList.update (r_key r) ?r (fs_records s))"
      unfolding live_runner_count_def using created ok
      by (intro count_where_map_of_eq) (auto simp: clean_ok_def store_ok_def)
    ultimately show ?thesis
      using created recs count_where_update_new [OF created(1), of is_live ?r]
      by (auto simp: store_inv_def records_inv_def store_evolves_but_def live_runner_count_def
          split: option.split if_splits)
  qed
qed

end
