(* ===== verification/Store_Completion.thy ===== *)
theory Store_Completion
  imports Store_Operations
begin

text \<open>
  Registration of JIT runners and completion events: the two operations that touch more than
  one record. A completion is bound to the record whose registration GitHub names, not to the
  job key of the event.
\<close>

section \<open>Registration\<close>

definition jit_result :: "int \<Rightarrow> string \<Rightarrow> time \<Rightarrow> runner_record option \<Rightarrow> runner_record \<Rightarrow> runner_record" where
  "jit_result runner_id runner_name now marker r =
    (case marker of
       None \<Rightarrow> register_jit runner_id runner_name now r
     | Some m \<Rightarrow> apply_marker m (register_jit runner_id runner_name now r))"

definition jit_edits ::
    "string \<Rightarrow> string \<Rightarrow> time \<Rightarrow> runner_record option \<Rightarrow> runner_record \<Rightarrow>
     (string \<times> runner_record option) list" where
  "jit_edits key marker_key now marker r =
    (case marker of None \<Rightarrow> [] | Some m \<Rightarrow> [(marker_key, Some (spend_marker now m))]) @
    [(key, Some r)]"

lemma jit_result_keeps:
  "r_owner (jit_result i n now m r) = r_owner r"
  "r_repository (jit_result i n now m r) = r_repository r"
  "r_key (jit_result i n now m r) = r_key r"
  by (simp_all add: jit_result_def register_jit_def apply_marker_def Let_def split: option.split)

lemma jit_result_evolves: "\<not> retired r \<Longrightarrow> record_evolves r (jit_result i n now m r)"
  by (simp add: jit_result_def register_jit_def apply_marker_def Let_def evolve_defs
      split: option.split)

lemma jit_result_inv: "record_inv r \<Longrightarrow> record_inv (jit_result i n now m r)"
  by (cases "r_status r")
     (auto simp: jit_result_def register_jit_def apply_marker_def Let_def record_inv_defs
      split: option.splits)

lemma spend_marker_inv: "record_inv m \<Longrightarrow> record_inv (spend_marker now m)"
  by (simp add: spend_marker_def record_inv_defs)

lemma mark_jit_created_cases:
  assumes run: "mark_jit_created key i n now s = (err, s')" and ok: "clean_ok s"
  obtains (absent) "lookup_record s key = None" and "err = Some (not_found key)" and "s' = s"
  | (retired) r where "lookup_record s key = Some r" and "retired r" and "err = None" and "s' = s"
  | (registered) r m where "lookup_record s key = Some r" and "\<not> retired r" and "err = None"
      and "m = live_marker s (completion_marker_key (r_owner r) (r_repository r) i)"
      and "clean_ok s'"
      and "map_of (fs_records s') = fold (\<lambda>(k, v) m. m(k := v))
        (jit_edits key (completion_marker_key (r_owner r) (r_repository r) i) now m
          (jit_result i n now m r)) (map_of (fs_records s))"
      and "fs_runner_keys s' =
        AList.update (runner_identity_key (r_owner r) (r_repository r) i) key (fs_runner_keys s)"
      and "fs_ordered_keys s' = fs_ordered_keys s" and "fs_keys_dirty s' = fs_keys_dirty s"
  | (failed) e where "err = Some e" and "clean_ok s'"
      and "map_of (fs_records s') = map_of (fs_records s)" and "same_frame s s'"
proof (cases "lookup_record s key")
  case None
  with run have "err = Some (not_found key)" "s' = s" by (auto simp: mark_jit_created_def)
  with None show ?thesis by (rule absent)
next
  case (Some r)
  show ?thesis
  proof (cases "retired r")
    case True
    with Some run have "err = None" "s' = s" by (auto simp: mark_jit_created_def)
    with Some True show ?thesis by (rule retired)
  next
    case False
    let ?mk = "completion_marker_key (r_owner r) (r_repository r) i"
    define m where "m = live_marker s ?mk"
    let ?r = "jit_result i n now m r" and ?es = "jit_edits key ?mk now m (jit_result i n now m r)"
    let ?t = "fold (\<lambda>(k, v). edit_record k v) ?es s"
    let ?us = "(key, Some r) # (case m of None \<Rightarrow> [] | Some x \<Rightarrow> [(?mk, Some x)])"
    have own: "r_owner (register_jit i n now r) = r_owner r"
      "r_repository (register_jit i n now r) = r_repository r"
      by (simp_all add: register_jit_def)
    have own': "r_owner (apply_marker x (register_jit i n now r)) = r_owner r"
      "r_repository (apply_marker x (register_jit i n now r)) = r_repository r" for x
      by (simp_all add: register_jit_def apply_marker_def Let_def)
    obtain e u where save: "save_locked ?t = (e, u)" by fastforce
    show ?thesis
    proof (cases e)
      case None
      have "err = None" and s': "s' = u\<lparr>fs_runner_keys := AList.update
          (runner_identity_key (r_owner r) (r_repository r) i) key (fs_runner_keys u)\<rparr>"
        using run save None Some False
        by (cases m; simp add: mark_jit_created_def Let_def own own' jit_edits_def jit_result_def
            edit_record_def set_record_def flip: m_def)+
      moreover have "fs_runner_keys u = fs_runner_keys s" "fs_ordered_keys u = fs_ordered_keys s"
        "fs_keys_dirty u = fs_keys_dirty s"
        using txn_frame [OF ok save] by (simp_all add: same_frame_def)
      moreover have "clean_ok (u\<lparr>fs_runner_keys := x\<rparr>) = clean_ok u" for x
        by (simp add: clean_ok_def store_ok_def dirty_covers_def)
      ultimately show ?thesis
        using registered [OF Some False _ m_def] txn_commit_clean [OF ok save [unfolded None]]
        by simp
    next
      case (Some x)
      have err: "err = Some x" and s': "s' = (fold (\<lambda>(k, v). set_record k v) ?us u)
          \<lparr>fs_keys_dirty := fs_keys_dirty s\<rparr>"
        using run save \<open>lookup_record s key = Some r\<close> False Some
        by (cases m; simp add: mark_jit_created_def Let_def own own' jit_edits_def jit_result_def
            edit_record_def set_record_def flip: m_def)+
      have undo: "\<And>k v. (k, v) \<in> set ?us \<Longrightarrow> v = lookup_record s k"
        using \<open>lookup_record s key = Some r\<close>
        by (auto simp: m_def live_marker_def split: option.splits if_splits)
      have keys: "fst ` set ?es = fst ` set ?us"
        by (cases m) (auto simp: jit_edits_def)
      have "same_frame s s'"
        using txn_frame [OF ok save] unfolding s'
        by (cases m) (simp_all add: same_frame_def set_record_def put_record_def)
      with txn_abort_clean [OF ok save [unfolded Some] undo keys] s' err show ?thesis
        by (intro failed) simp_all
    qed
  qed
qed

lemma jit_edit_step:
  assumes inv: "store_inv s" and r: "lookup_record s key = Some r" "\<not> retired r"
    and mk: "mk = completion_marker_key (r_owner r) (r_repository r) i"
    and m: "m = live_marker s mk"
    and ok: "clean_ok s'" and upd: "map_of (fs_records s') = fold (\<lambda>(k, v) m. m(k := v))
      (jit_edits key mk now m (jit_result i n now m r)) (map_of (fs_records s))"
  shows "store_inv s'" and "store_evolves s s'"
proof -
  have recs: "records_inv s" using inv by (simp add: store_inv_def)
  have r_inv: "record_inv (jit_result i n now m r)" "r_key (jit_result i n now m r) = key"
    using records_invD [OF recs r(1)] jit_result_inv by (simp_all add: jit_result_keeps)
  have m_inv: "record_inv (spend_marker now x)" "r_key (spend_marker now x) = mk" if "m = Some x" for x
    using that m records_invD [OF recs, of mk x] spend_marker_inv
    by (auto simp: live_marker_def spend_marker_def split: option.splits if_splits)
  show "store_inv s'"
    using ok recs r_inv m_inv upd
    by (cases m) (auto simp: store_inv_def records_inv_def jit_edits_def split: if_splits)
  have "lookup_record s mk = Some x \<and> record_evolves x (spend_marker now x)" if "m = Some x" for x
    using that m
    by (auto simp: live_marker_def spend_marker_def evolve_defs split: option.splits if_splits)
  then show "store_evolves s s'"
    using upd r(1) jit_result_evolves [OF r(2)]
    by (cases m) (auto simp: store_evolves_but_def jit_edits_def split: option.split)
qed

lemma mark_jit_created_step:
  assumes inv: "store_inv s" and run: "mark_jit_created key i n now s = (err, s')"
  shows "store_inv s' \<and> store_evolves s s' \<and>
    (err \<noteq> None \<longrightarrow> map_of (fs_records s') = map_of (fs_records s))"
proof -
  have ok: "clean_ok s" and recs: "records_inv s" using inv by (auto simp: store_inv_def)
  from run ok show ?thesis
  proof (cases rule: mark_jit_created_cases)
    case (registered r m)
    from jit_edit_step [OF inv registered(1,2) refl registered(4,5,6)] registered(3)
    show ?thesis by simp
  next
    case failed
    with recs show ?thesis by (simp add: store_inv_def records_inv_def store_evolves_same)
  qed (use inv in \<open>auto simp: store_evolves_same\<close>)
qed

section \<open>Completion events\<close>

text \<open>The edits of \<open>RecordCompletion\<close>: one for the runner, one for the job of the event.\<close>

definition runner_target :: "runner_record \<Rightarrow> file_store \<Rightarrow> (string \<times> runner_record) option" where
  "runner_target completion s =
    (if r_github_runner_id completion = 0 then None
     else case map_of (fs_runner_keys s) (record_identity completion) of
       None \<Rightarrow> None
     | Some key \<Rightarrow>
         (case lookup_record s key of
            Some record \<Rightarrow> if completion_matches record completion then Some (key, record) else None
          | None \<Rightarrow> None))"

definition runner_edit :: "runner_record \<Rightarrow> time \<Rightarrow> file_store \<Rightarrow> (string \<times> runner_record option) list" where
  "runner_edit completion now s =
    (if r_github_runner_id completion = 0 then []
     else case runner_target completion s of
       Some (key, record) \<Rightarrow> [(key, Some (complete_matched record completion now))]
     | None \<Rightarrow> [(record_marker_key completion, Some (marker_of completion now))])"

definition event_edit :: "runner_record \<Rightarrow> time \<Rightarrow> file_store \<Rightarrow> (string \<times> runner_record option) list" where
  "event_edit completion now s =
    (if (case runner_target completion s of Some (key, _) \<Rightarrow> key | None \<Rightarrow> '''') = r_key completion
     then []
     else case lookup_record s (r_key completion) of
       None \<Rightarrow> [(r_key completion, Some (completion_tombstone completion now))]
     | Some existing \<Rightarrow> [(r_key completion, Some (complete_event existing completion now))])"

lemma runner_target_Some:
  "runner_target c s = Some (key, r) \<Longrightarrow>
   r_github_runner_id c \<noteq> 0 \<and> lookup_record s key = Some r \<and> completion_matches r c"
  by (auto simp: runner_target_def split: if_splits option.splits)

text \<open>The edits that add a key to the map.\<close>

definition adds_marker :: "runner_record \<Rightarrow> file_store \<Rightarrow> bool" where
  "adds_marker c s \<longleftrightarrow> r_github_runner_id c \<noteq> 0 \<and> runner_target c s = None"

definition adds_tombstone :: "runner_record \<Rightarrow> file_store \<Rightarrow> bool" where
  "adds_tombstone c s \<longleftrightarrow>
    (case runner_target c s of Some (key, _) \<Rightarrow> key | None \<Rightarrow> []) \<noteq> r_key c \<and>
    lookup_record s (r_key c) = None"

lemma map_clone_record [simp]: "map_option clone_record x = x"
  by (cases x) simp_all

lemma reconcile_runner_completion_edits:
  assumes "reconcile_runner_completion c now [] s = ((mkey, stale), before, s1)"
  shows "mkey = (case runner_target c s of Some (key, _) \<Rightarrow> key | None \<Rightarrow> '''')"
    and "s1 = (fold (\<lambda>(k, v). edit_record k v) (runner_edit c now s) s)
      \<lparr>fs_keys_dirty := fs_keys_dirty s \<or> adds_marker c s\<rparr>"
    and "before = map (\<lambda>(k, v). (k, lookup_record s k)) (runner_edit c now s)"
proof -
  have mk: "record_marker_key c =
      completion_marker_key (r_owner c) (r_repository c) (r_github_runner_id c)"
    by (simp add: record_marker_key_def)
  have "mkey = (case runner_target c s of Some (key, _) \<Rightarrow> key | None \<Rightarrow> '''') \<and>
    s1 = (fold (\<lambda>(k, v). edit_record k v) (runner_edit c now s) s)
      \<lparr>fs_keys_dirty := fs_keys_dirty s \<or> adds_marker c s\<rparr> \<and>
    before = map (\<lambda>(k, v). (k, lookup_record s k)) (runner_edit c now s)"
  proof (cases "r_github_runner_id c = 0")
    case True
    with assms show ?thesis
      by (auto simp: reconcile_runner_completion_def runner_target_def runner_edit_def
          adds_marker_def)
  next
    case False
    show ?thesis
    proof (cases "runner_target c s")
      case None
      with assms False show ?thesis
        by (auto simp: reconcile_runner_completion_def runner_target_def runner_edit_def
            add_completion_marker_def marker_of_def remember_def edit_defs record_identity_def
            mark_dirty_def Let_def adds_marker_def split: option.splits if_splits)
    next
      case (Some p)
      obtain key r where p: "p = (key, r)" by fastforce
      from Some have "map_of (fs_runner_keys s) (record_identity c) = Some key"
        "lookup_record s key = Some r" "completion_matches r c"
        by (auto simp: p runner_target_def split: if_splits option.splits)
      with assms False Some p show ?thesis
        by (auto simp: reconcile_runner_completion_def runner_edit_def remember_def edit_defs
            record_identity_def Let_def adds_marker_def)
    qed
  qed
  then show "mkey = (case runner_target c s of Some (key, _) \<Rightarrow> key | None \<Rightarrow> '''')"
    and "s1 = (fold (\<lambda>(k, v). edit_record k v) (runner_edit c now s) s)
      \<lparr>fs_keys_dirty := fs_keys_dirty s \<or> adds_marker c s\<rparr>"
    and "before = map (\<lambda>(k, v). (k, lookup_record s k)) (runner_edit c now s)"
    by simp_all
qed

definition completion_edits :: "runner_record \<Rightarrow> time \<Rightarrow> file_store \<Rightarrow> (string \<times> runner_record option) list" where
  "completion_edits completion now s = runner_edit completion now s @ event_edit completion now s"

lemma marker_key_is_marker [simp]: "is_marker_key (record_marker_key c)"
  by (simp add: record_marker_key_def completion_marker_key_def is_marker_key_def)

lemma fold_upd_frame:
  "k \<notin> fst ` set es \<Longrightarrow> fold (\<lambda>(k, v) m. m(k := v)) es m k = m k"
  by (induction es arbitrary: m) auto

lemma lookup_after_edits:
  "k \<notin> fst ` set es \<Longrightarrow>
   lookup_record (fold (\<lambda>(k, v). edit_record k v) es s) k = lookup_record s k"
  by (simp add: ds.edits_fold(1) fold_upd_frame)

lemma rollback_eq: "rollback us s = fold (\<lambda>(k, v). set_record k v) us s"
  by (induction us s rule: rollback.induct) (auto simp: set_record_def)

lemma event_key_new:
  assumes "\<not> is_marker_key (r_key c)"
    and "(case runner_target c s of Some (key, _) \<Rightarrow> key | None \<Rightarrow> []) \<noteq> r_key c"
  shows "r_key c \<notin> fst ` set (runner_edit c now s)"
  using assms by (auto simp: runner_edit_def split: option.splits if_splits)

lemma reconcile_event_completion_edits:
  assumes key: "\<not> is_marker_key (r_key c)"
    and s1: "s1 = (fold (\<lambda>(k, v). edit_record k v) (runner_edit c now s) s)\<lparr>fs_keys_dirty := b\<rparr>"
    and run: "reconcile_event_completion c
      (case runner_target c s of Some (key, _) \<Rightarrow> key | None \<Rightarrow> []) now
      (map (\<lambda>(k, v). (k, lookup_record s k)) (runner_edit c now s)) s1 = (before, s2)"
  shows "before = map (\<lambda>(k, v). (k, lookup_record s k)) (completion_edits c now s)"
    and "s2 = (fold (\<lambda>(k, v). edit_record k v) (completion_edits c now s) s)
      \<lparr>fs_keys_dirty := b \<or> adds_tombstone c s\<rparr>"
proof -
  let ?mk = "case runner_target c s of Some (key, _) \<Rightarrow> key | None \<Rightarrow> []"
  have "before = map (\<lambda>(k, v). (k, lookup_record s k)) (completion_edits c now s) \<and>
    s2 = (fold (\<lambda>(k, v). edit_record k v) (completion_edits c now s) s)
      \<lparr>fs_keys_dirty := b \<or> adds_tombstone c s\<rparr>"
  proof (cases "?mk = r_key c")
    case True
    with run s1 show ?thesis
      by (auto simp: reconcile_event_completion_def completion_edits_def event_edit_def
          adds_tombstone_def)
  next
    case False
    note new = event_key_new [OF key False]
    have look: "lookup_record s1 (r_key c) = lookup_record s (r_key c)"
      using lookup_after_edits [OF new] by (simp add: s1)
    have fresh: "r_key c \<notin> fst ` set (map (\<lambda>(k, v). (k, lookup_record s k)) (runner_edit c now s))"
      using new by force
    have dirty: "edit_record k v (t\<lparr>fs_keys_dirty := b\<rparr>) = (edit_record k v t)\<lparr>fs_keys_dirty := b\<rparr>"
      for k v t by (simp add: edit_defs split: option.split)
    show ?thesis
    proof (cases "lookup_record s (r_key c)")
      case None
      with run False fresh look have "before = map (\<lambda>(k, v). (k, lookup_record s k))
          (runner_edit c now s) @ [(r_key c, None)]"
        and "s2 = (edit_record (r_key c) (Some (completion_tombstone c now)) s1)
          \<lparr>fs_keys_dirty := True\<rparr>"
        by (auto simp: reconcile_event_completion_def Let_def remember_def edit_record_def set_record_def)
      with None False show ?thesis
        by (auto simp: completion_edits_def event_edit_def adds_tombstone_def s1 dirty)
    next
      case (Some x)
      with run False fresh look have "before = map (\<lambda>(k, v). (k, lookup_record s k))
          (runner_edit c now s) @ [(r_key c, Some x)]"
        and "s2 = edit_record (r_key c) (Some (complete_event x c now)) s1"
        by (auto simp: reconcile_event_completion_def Let_def remember_def edit_record_def set_record_def)
      with Some False show ?thesis
        by (auto simp: completion_edits_def event_edit_def adds_tombstone_def s1 dirty)
    qed
  qed
  then show "before = map (\<lambda>(k, v). (k, lookup_record s k)) (completion_edits c now s)"
    and "s2 = (fold (\<lambda>(k, v). edit_record k v) (completion_edits c now s) s)
      \<lparr>fs_keys_dirty := b \<or> adds_tombstone c s\<rparr>" by simp_all
qed

lemma edits_keys_dirty:
  "fold (\<lambda>(k, v). edit_record k v) es (s\<lparr>fs_keys_dirty := b\<rparr>) =
   (fold (\<lambda>(k, v). edit_record k v) es s)\<lparr>fs_keys_dirty := b\<rparr>"
proof (induction es arbitrary: s)
  case (Cons e es)
  have "edit_record k v (s\<lparr>fs_keys_dirty := b\<rparr>) = (edit_record k v s)\<lparr>fs_keys_dirty := b\<rparr>" for k v
    by (simp add: edit_defs split: option.split)
  with Cons show ?case by (simp add: case_prod_unfold)
qed simp

lemma same_frame_reverts: "same_frame u (fold (\<lambda>(k, v). set_record k v) us u)"
proof (induction us arbitrary: u)
  case (Cons e us)
  have "same_frame u (set_record (fst e) (snd e) u)"
    by (simp add: edit_defs same_frame_def split: option.split)
  with Cons show ?case by (auto simp: case_prod_unfold intro: same_frame_trans)
qed simp

lemma record_completion_cases:
  assumes run: "record_completion c now s = (err, s')" and ok: "clean_ok s"
    and key: "\<not> is_marker_key (r_key c)"
  obtains (recorded) "err = None" and "clean_ok s'"
      and "map_of (fs_records s') =
        fold (\<lambda>(k, v) m. m(k := v)) (completion_edits c now s) (map_of (fs_records s))"
      and "fs_ordered_keys s' = fs_ordered_keys s"
      and "fs_keys_dirty s' \<longleftrightarrow> fs_keys_dirty s \<or> adds_marker c s \<or> adds_tombstone c s"
  | (failed) e where "err = Some e" and "clean_ok s'"
      and "map_of (fs_records s') = map_of (fs_records s)" and "same_frame s s'"
proof -
  obtain mkey stale before1 s1 where
    r1: "reconcile_runner_completion c now [] s = ((mkey, stale), before1, s1)"
    using prod_cases4 by (metis surj_pair)
  note e1 = reconcile_runner_completion_edits [OF r1]
  obtain before s2 where r2: "reconcile_event_completion c mkey now before1 s1 = (before, s2)"
    by fastforce
  note e2 = reconcile_event_completion_edits [OF key e1(2) r2 [unfolded e1(1,3)]]
  let ?es = "completion_edits c now s"
  define d where "d \<longleftrightarrow> fs_keys_dirty s \<or> adds_marker c s \<or> adds_tombstone c s"
  have s2: "s2 = (fold (\<lambda>(k, v). edit_record k v) ?es s)\<lparr>fs_keys_dirty := d\<rparr>"
    using e2(2) by (simp add: d_def disj_assoc)
  let ?s = "s\<lparr>fs_keys_dirty := d\<rparr>"
  have s2': "s2 = fold (\<lambda>(k, v). edit_record k v) ?es ?s"
    by (simp add: s2 edits_keys_dirty)
  obtain e u where save: "save_locked s2 = (e, u)" by fastforce
  have ok': "clean_ok ?s" using ok by simp
  show ?thesis
  proof (cases e)
    case None
    with run r1 r2 save have "err = None" and s': "s' = u\<lparr>fs_runner_keys :=
        if stale \<noteq> [] then AList.delete stale (fs_runner_keys u) else fs_runner_keys u\<rparr>"
      by (simp_all add: record_completion_def Let_def split: if_splits)
    moreover have "clean_ok (u\<lparr>fs_runner_keys := x\<rparr>) = clean_ok u" for x
      by (simp add: clean_ok_def store_ok_def dirty_covers_def)
    moreover have "same_frame ?s u" by (rule txn_frame [OF ok' save [unfolded s2']])
    ultimately show ?thesis
      using txn_commit_clean [OF ok' save [unfolded None s2']]
      by (intro recorded) (simp_all add: d_def same_frame_def)
  next
    case (Some x)
    with run r1 r2 save have err: "err = Some x"
      and s': "s' = (fold (\<lambda>(k, v). set_record k v) before u)\<lparr>fs_keys_dirty := fs_keys_dirty s\<rparr>"
      by (auto simp: record_completion_def Let_def rollback_eq)
    have undo: "\<And>k v. (k, v) \<in> set before \<Longrightarrow> v = lookup_record ?s k"
      using e2(1) by auto
    have keys: "fst ` set ?es = fst ` set before"
      using e2(1) by force
    have "same_frame s s'"
      using txn_frame [OF ok' save [unfolded s2']] same_frame_reverts [of u before]
      by (simp add: s' same_frame_def)
    then show ?thesis
      using txn_abort_clean [OF ok' save [unfolded Some s2'] undo keys] s' err
      by (intro failed) simp_all
  qed
qed

text \<open>What the edits put into the map.\<close>

lemma complete_matched_inv: "record_inv r \<Longrightarrow> record_inv (complete_matched r c now)"
  by (cases "r_status r") (auto simp: complete_matched_def Let_def record_inv_defs)

lemma complete_matched_evolves:
  "r_status r \<noteq> StatusDeleted \<Longrightarrow> record_evolves r (complete_matched r c now)"
  by (auto simp: complete_matched_def Let_def evolve_defs)

lemma complete_event_inv: "record_inv r \<Longrightarrow> record_inv (complete_event r c now)"
  by (cases "r_status r") (auto simp: complete_event_def Let_def record_inv_defs)

lemma complete_event_evolves: "record_evolves r (complete_event r c now)"
  by (auto simp: complete_event_def Let_def evolve_defs)

lemma fresh_completion_inv:
  "fresh_request c \<Longrightarrow> record_inv (marker_of c now) \<and> record_inv (completion_tombstone c now) \<and>
   \<not> is_live (marker_of c now) \<and> \<not> is_live (completion_tombstone c now)"
  by (auto simp: fresh_request_def marker_of_def completion_tombstone_def record_inv_defs is_live_def)

lemma completion_edits_cases:
  assumes "(k, v) \<in> set (completion_edits c now s)"
  obtains (matched) r where "lookup_record s k = Some r" and "completion_matches r c"
      and "runner_target c s = Some (k, r)" and "v = Some (complete_matched r c now)"
  | (marker) "k = record_marker_key c" and "v = Some (marker_of c now)"
  | (event) r where "k = r_key c" and "lookup_record s k = Some r"
      and "v = Some (complete_event r c now)"
  | (tombstone) "k = r_key c" and "lookup_record s k = None"
      and "v = Some (completion_tombstone c now)"
  using assms runner_target_Some
  by (auto simp: completion_edits_def runner_edit_def event_edit_def split: if_splits option.splits)

lemma completion_edits_distinct:
  assumes "\<not> is_marker_key (r_key c)"
  shows "distinct (map fst (completion_edits c now s))"
proof -
  have "record_marker_key c \<noteq> r_key c" using assms marker_key_is_marker by metis
  then show ?thesis
    by (auto simp: completion_edits_def runner_edit_def event_edit_def split: option.split)
qed

lemma fold_upd_lookup:
  "distinct (map fst es) \<Longrightarrow> fold (\<lambda>(k, v) m. m(k := v)) es m k =
    (case map_of es k of Some v \<Rightarrow> v | None \<Rightarrow> m k)"
proof (induction es arbitrary: m)
  case (Cons e es)
  obtain a b where e: "e = (a, b)" by fastforce
  show ?case
  proof (cases "k = a")
    case True
    with Cons.prems e have "k \<notin> fst ` set es" by simp
    with True e show ?thesis by (simp add: fold_upd_frame del: fun_upd_apply) simp
  next
    case False
    with Cons e show ?thesis by (simp split: option.split)
  qed
qed simp

lemma record_completion_lookup:
  assumes "\<not> is_marker_key (r_key c)" and "map_of (fs_records s') =
      fold (\<lambda>(k, v) m. m(k := v)) (completion_edits c now s) (map_of (fs_records s))"
  shows "lookup_record s' k = (case map_of (completion_edits c now s) k of
    Some v \<Rightarrow> v | None \<Rightarrow> lookup_record s k)"
  using fold_upd_lookup [OF completion_edits_distinct [OF assms(1)]] assms(2) by simp

text \<open>The marker of a runner, written anew by another completion event of that runner.\<close>

definition marker_replaced :: "runner_record \<Rightarrow> time \<Rightarrow> file_store \<Rightarrow> string \<Rightarrow> bool" where
  "marker_replaced c now s' k \<longleftrightarrow>
     k = record_marker_key c \<and> lookup_record s' k = Some (marker_of c now)"

lemma record_completion_step:
  assumes inv: "store_inv s" and fresh: "fresh_request c"
    and run: "record_completion c now s = (err, s')"
  shows "store_inv s' \<and> store_evolves_but (marker_replaced c now s') s s' \<and>
    (err \<noteq> None \<longrightarrow> map_of (fs_records s') = map_of (fs_records s))"
proof -
  have ok: "clean_ok s" and recs: "records_inv s" using inv by (auto simp: store_inv_def)
  have key: "\<not> is_marker_key (r_key c)" using fresh by (simp add: fresh_request_def)
  from run ok key show ?thesis
  proof (cases rule: record_completion_cases)
    case failed
    with recs show ?thesis
      by (simp add: store_inv_def records_inv_def store_evolves_butI store_evolves_same)
  next
    case recorded
    note look = record_completion_lookup [OF key recorded(3)]
    have step: "(\<exists>r'. v = Some r' \<and> record_inv r' \<and> r_key r' = k) \<and>
        (k = record_marker_key c \<and> v = Some (marker_of c now) \<or>
        (case (lookup_record s k, v) of (None, None) \<Rightarrow> True
         | (None, Some r') \<Rightarrow> r_status r' = StatusPending \<or> r_status r' = StatusCompleted
         | (Some r, None) \<Rightarrow> retired r | (Some r, Some r') \<Rightarrow> record_evolves r r'))"
      if "(k, v) \<in> set (completion_edits c now s)" for k v
      using that
    proof (cases rule: completion_edits_cases)
      case (matched r)
      then have "r_status r \<noteq> StatusDeleted" by (simp add: completion_matches_def)
      from complete_matched_evolves [OF this, of c now] complete_matched_inv [of r c now] matched
        records_invD [OF recs matched(1)]
      show ?thesis by (auto simp: evolve_defs)
    next
      case marker
      with fresh_completion_inv [OF fresh, of now] show ?thesis by (simp add: marker_of_def)
    next
      case (event r)
      with complete_event_evolves [of r c now] complete_event_inv [of r c now]
        records_invD [OF recs event(2)]
      show ?thesis by (auto simp: evolve_defs)
    next
      case tombstone
      with fresh_completion_inv [OF fresh, of now]
      show ?thesis by (simp add: completion_tombstone_def)
    qed
    have "records_inv s'"
      using recs step
      by (auto simp: records_inv_def look dest!: map_of_SomeD split: option.splits)
    moreover have "store_evolves_but (marker_replaced c now s') s s'"
      unfolding store_evolves_but_def
    proof (intro allI impI)
      fix k assume k: "\<not> marker_replaced c now s' k"
      show "case (lookup_record s k, lookup_record s' k) of (None, None) \<Rightarrow> True
        | (None, Some r') \<Rightarrow> r_status r' = StatusPending \<or> r_status r' = StatusCompleted
        | (Some r, None) \<Rightarrow> retired r | (Some r, Some r') \<Rightarrow> record_evolves r r'"
      proof (cases "map_of (completion_edits c now s) k")
        case None
        then show ?thesis by (simp add: look split: option.split)
      next
        case (Some v)
        with step [OF map_of_SomeD [OF Some]] k show ?thesis
          by (auto simp: look marker_replaced_def)
      qed
    qed
    ultimately show ?thesis using recorded by (simp add: store_inv_def)
  qed
qed

text \<open>Admission: a set of edits that makes no record live does not raise the count.\<close>

lemma live_count_edits:
  assumes "clean_ok s" and "clean_ok s'" and "distinct (map fst es)"
    and "map_of (fs_records s') = fold (\<lambda>(k, v) m. m(k := v)) es (map_of (fs_records s))"
    and "\<And>k r'. (k, Some r') \<in> set es \<Longrightarrow> is_live r' \<Longrightarrow>
      \<exists>r. lookup_record s k = Some r \<and> is_live r"
  shows "live_runner_count s' \<le> live_runner_count s"
proof -
  have put: "\<exists>rs'. wf_map rs' \<and> map_of rs' = fold (\<lambda>(k, v) m. m(k := v)) es (map_of rs) \<and>
      count_where is_live rs' \<le> count_where is_live rs"
    if "wf_map rs" and "distinct (map fst es)" and "\<forall>(k, v) \<in> set es. \<forall>r'. v = Some r' \<longrightarrow> is_live r' \<longrightarrow>
      (\<exists>r. map_of rs k = Some r \<and> is_live r)" for rs
    using that
  proof (induction es arbitrary: rs)
    case Nil
    then show ?case by auto
  next
    case (Cons e es)
    obtain k v where e: "e = (k, v)" by fastforce
    have live: "\<And>r'. v = Some r' \<Longrightarrow> is_live r' \<Longrightarrow> \<exists>r. map_of rs k = Some r \<and> is_live r"
      using Cons.prems(3) e by auto
    let ?rs = "case v of None \<Rightarrow> AList.delete k rs | Some r' \<Rightarrow> AList.update k r' rs"
    have rs: "wf_map ?rs" "map_of ?rs = (map_of rs)(k := v)"
      using Cons.prems(1) by (simp_all split: option.split)
    have "\<forall>(k', v) \<in> set es. \<forall>r'. v = Some r' \<longrightarrow> is_live r' \<longrightarrow>
        (\<exists>r. map_of ?rs k' = Some r \<and> is_live r)"
      unfolding rs(2) using Cons.prems(2,3) e by force
    moreover have "wf_map ?rs" "distinct (map fst es)" using rs(1) Cons.prems(2) by simp_all
    ultimately obtain rs' where rs': "wf_map rs'"
      "map_of rs' = fold (\<lambda>(k, v) m. m(k := v)) es (map_of ?rs)"
      "count_where is_live rs' \<le> count_where is_live ?rs" using Cons.IH [of ?rs] by blast
    have "count_where is_live ?rs \<le> count_where is_live rs"
    proof (cases v)
      case None
      then show ?thesis by (simp add: count_where_delete_le)
    next
      case (Some r')
      show ?thesis
      proof (cases "map_of rs k")
        case None
        with live [OF Some] Some count_where_update_new [OF None, of is_live r']
        show ?thesis by auto
      next
        case (Some w)
        with live [OF \<open>v = Some r'\<close>] \<open>v = Some r'\<close> count_where_update_le [OF Cons.prems(1) Some]
        show ?thesis by auto
      qed
    qed
    with rs' e rs(2) show ?case by (intro exI [of _ rs']) (simp del: fun_upd_apply)
  qed
  have wf: "wf_map (fs_records s)"
    using assms(1) by (simp add: clean_ok_def store_ok_def)
  have edits: "\<forall>(k, v) \<in> set es. \<forall>r'. v = Some r' \<longrightarrow> is_live r' \<longrightarrow>
      (\<exists>r. map_of (fs_records s) k = Some r \<and> is_live r)"
    using assms(5) by blast
  from put [OF wf assms(3) edits] obtain rs' where rs': "wf_map rs'"
    "map_of rs' = map_of (fs_records s')" "count_where is_live rs' \<le> live_runner_count s"
    unfolding assms(4) live_runner_count_def by blast
  moreover have "count_where is_live (fs_records s') = count_where is_live rs'"
    using rs'(1,2) assms(2) by (intro count_where_map_of_eq) (auto simp: clean_ok_def store_ok_def)
  ultimately show ?thesis by (simp add: live_runner_count_def)
qed

lemma complete_matched_live:
  "completion_matches r c \<Longrightarrow> r_github_runner_id c \<noteq> 0 \<Longrightarrow>
   \<not> (r_status r = StatusOrphaned \<and> r_instance_id r = []) \<Longrightarrow> is_live r"
  by (auto simp: completion_matches_def is_live_def)

lemma complete_event_live: "is_live (complete_event r c now) \<Longrightarrow> is_live r"
  by (auto simp: complete_event_def Let_def is_live_def split: if_splits)

lemma record_completion_live:
  assumes inv: "store_inv s" and fresh: "fresh_request c"
    and run: "record_completion c now s = (err, s')"
    and orphan: "\<And>k r. runner_target c s = Some (k, r) \<Longrightarrow> r_status r = StatusOrphaned \<Longrightarrow>
      r_instance_id r \<noteq> []"
  shows "live_runner_count s' \<le> live_runner_count s"
proof -
  have ok: "clean_ok s" using inv by (simp add: store_inv_def)
  have key: "\<not> is_marker_key (r_key c)" using fresh by (simp add: fresh_request_def)
  from run ok key show ?thesis
  proof (cases rule: record_completion_cases)
    case failed
    with live_count_cong [OF ok] show ?thesis by simp
  next
    case recorded
    show ?thesis
    proof (rule live_count_edits [OF ok recorded(2) completion_edits_distinct [OF key] recorded(3)])
      fix k r' assume "(k, Some r') \<in> set (completion_edits c now s)" and "is_live r'"
      then show "\<exists>r. lookup_record s k = Some r \<and> is_live r"
      proof (cases rule: completion_edits_cases)
        case (matched r)
        with runner_target_Some [OF matched(3)] orphan [OF matched(3)] complete_matched_live
        show ?thesis by auto
      next
        case (event r)
        with complete_event_live \<open>is_live r'\<close> show ?thesis by auto
      qed (use fresh_completion_inv [OF fresh, of now] in auto)
    qed
  qed
qed

lemma jit_live:
  assumes "is_live (spend_marker now m)" shows False
  using assms by (simp add: spend_marker_def is_live_def)

lemma mark_jit_created_live:
  assumes inv: "store_inv s" and run: "mark_jit_created key i n now s = (err, s')"
    and held: "\<And>r. lookup_record s key = Some r \<Longrightarrow> is_live r \<or> retired r"
    and key: "\<not> is_marker_key key"
  shows "live_runner_count s' \<le> live_runner_count s"
proof -
  have ok: "clean_ok s" using inv by (simp add: store_inv_def)
  from run ok show ?thesis
  proof (cases rule: mark_jit_created_cases)
    case failed
    with live_count_cong [OF ok] show ?thesis by simp
  next
    case (registered r m)
    let ?mk = "completion_marker_key (r_owner r) (r_repository r) i"
    let ?es = "jit_edits key ?mk now m (jit_result i n now m r)"
    have "is_marker_key ?mk" by (simp add: is_marker_key_def completion_marker_key_def)
    with key have "distinct (map fst ?es)" by (cases m) (auto simp: jit_edits_def)
    moreover have "\<exists>r. lookup_record s k = Some r \<and> is_live r"
      if "(k, Some r') \<in> set ?es" and "is_live r'" for k r'
      using that held registered(1,2) jit_live by (cases m) (auto simp: jit_edits_def)
    ultimately show ?thesis
      using live_count_edits [OF ok registered(5) _ registered(6)] by blast
  qed simp_all
qed

end
