(* ===== verification/Store_Claims.thy ===== *)
theory Store_Claims
  imports Store_Completion
begin

text \<open>
  \<open>ClaimNext\<close>: the scan of the ordered keys settles exhausted records and hands out at most one
  claim. The scan is compared with a search for the first claimable record, and bounded by the
  admission ceiling. The cache of sorted keys that it scans belongs here too.
\<close>

section \<open>One scan\<close>

text \<open>What the scan may do to a record.\<close>

definition claim_evolves :: "runner_record \<Rightarrow> runner_record \<Rightarrow> bool" where
  "claim_evolves r r' \<longleftrightarrow> r' = r \<or>
     (same_job r r' \<and> r_job_completed r' = r_job_completed r \<and>
      r_instance_id r' = r_instance_id r \<and> r_github_runner_id r' = r_github_runner_id r \<and>
      r_github_runner_owned r' = r_github_runner_owned r \<and>
      (r_status r = StatusPending \<and>
         (r_status r' = StatusFailed \<or> r_status r' = StatusProvisioning) \<or>
       r_status r = StatusCompleted \<and> r_instance_id r \<noteq> [] \<and>
         (r_status r' = StatusOrphaned \<or> r_status r' = StatusDeleting)))"

lemma claim_evolves_refl [simp]: "claim_evolves r r"
  by (simp add: claim_evolves_def)

lemma claim_evolves_trans: "claim_evolves r t \<Longrightarrow> claim_evolves t u \<Longrightarrow> claim_evolves r u"
  by (auto simp: claim_evolves_def)

lemma claim_evolves_record: "claim_evolves r r' \<Longrightarrow> record_evolves r r'"
  by (auto simp: claim_evolves_def evolve_defs)

lemma claim_evolves_still:
  "claim_evolves r r' \<Longrightarrow> r_status r' = StatusPending \<or> r_status r' = StatusCompleted \<Longrightarrow> r' = r"
  by (auto simp: claim_evolves_def)

definition scan_evolves :: "file_store \<Rightarrow> file_store \<Rightarrow> bool" where
  "scan_evolves s s' \<longleftrightarrow> (\<forall>k. rel_option claim_evolves (lookup_record s k) (lookup_record s' k))"

lemma scan_evolves_refl [simp]: "scan_evolves s s"
  by (simp add: scan_evolves_def option.rel_refl)

lemma rel_claim_trans:
  "rel_option claim_evolves a b \<Longrightarrow> rel_option claim_evolves b c \<Longrightarrow> rel_option claim_evolves a c"
  by (cases a; cases b; cases c; auto intro: claim_evolves_trans)

lemma scan_evolves_trans: "scan_evolves s t \<Longrightarrow> scan_evolves t u \<Longrightarrow> scan_evolves s u"
  unfolding scan_evolves_def by (blast intro: rel_claim_trans)

lemma scan_evolves_same: "map_of (fs_records s') = map_of (fs_records s) \<Longrightarrow> scan_evolves s s'"
  by (simp add: scan_evolves_def option.rel_refl)

lemma scan_evolves_put:
  "map_of (fs_records s') = (map_of (fs_records s))(k \<mapsto> r') \<Longrightarrow>
   lookup_record s k = Some r \<Longrightarrow> claim_evolves r r' \<Longrightarrow> scan_evolves s s'"
  by (auto simp: scan_evolves_def intro: option.rel_refl)

lemma scan_evolves_SomeD:
  "scan_evolves s s' \<Longrightarrow> lookup_record s' k = Some r' \<Longrightarrow>
   \<exists>r. lookup_record s k = Some r \<and> claim_evolves r r'"
  unfolding scan_evolves_def by (drule spec [of _ k]) (auto simp: option_rel_Some2)

lemma scan_evolves_store: "scan_evolves s s' \<Longrightarrow> store_evolves s s'"
  unfolding scan_evolves_def store_evolves_but_def
  by (auto simp: claim_evolves_record split: option.split) (metis option.rel_distinct option.rel_inject(2) claim_evolves_record)+

text \<open>The exhausted records and their settlement.\<close>

definition settle_provision :: "time \<Rightarrow> runner_record \<Rightarrow> runner_record" where
  "settle_provision now r = r\<lparr>r_status := StatusFailed,
     r_last_error := ''provisioning retry budget exhausted'', r_updated_at := now\<rparr>"

definition settle_deletion :: "time \<Rightarrow> runner_record \<Rightarrow> runner_record" where
  "settle_deletion now r = r\<lparr>r_status := StatusOrphaned,
     r_last_error := ''deletion retry budget exhausted; operator cleanup required'',
     r_updated_at := now\<rparr>"

definition stamp_claim :: "time \<Rightarrow> runner_record \<times> work_kind \<Rightarrow> runner_record" where
  "stamp_claim now c = (fst c)\<lparr>r_updated_at := now, r_next_attempt_at := zero_time,
     r_claimed_work := snd c\<rparr>"

lemmas settle_defs = settle_provision_def settle_deletion_def stamp_claim_def
  provision_exhausted_def deletion_exhausted_def

lemma settle_provision_ok:
  assumes "provision_exhausted n r"
  shows "claim_evolves r (settle_provision now r)"
    and "record_inv r \<Longrightarrow> record_inv (settle_provision now r)"
    and "is_live (settle_provision now r) \<Longrightarrow> is_live r"
  using assms
  by (auto simp: settle_defs claim_evolves_def same_job_def record_inv_defs is_live_def
      split: if_splits)

lemma settle_deletion_ok:
  assumes "deletion_exhausted n r"
  shows "claim_evolves r (settle_deletion now r)"
    and "record_inv r \<Longrightarrow> record_inv (settle_deletion now r)"
    and "is_live (settle_deletion now r) \<Longrightarrow> is_live r"
  using assms
  by (auto simp: settle_defs claim_evolves_def same_job_def record_inv_defs is_live_def
      split: if_splits)

lemma claim_record_Some:
  assumes "claim_record live max_live n r = Some (r', kind)"
  obtains (provision) "kind = WorkProvision" and "r_claimed_work r = WorkNone"
      and "r_status r = StatusPending" and "r_attempts r < n"
      and "r' = r\<lparr>r_status := StatusProvisioning, r_attempts := r_attempts r + 1\<rparr>"
      and "live < max_live \<or> live = max_live \<and> is_live r"
  | (delete) "kind = WorkDelete" and "r_claimed_work r = WorkNone"
      and "r_status r = StatusCompleted" and "r_delete_attempts r < n"
      and "r' = r\<lparr>r_status := StatusDeleting, r_delete_attempts := r_delete_attempts r + 1\<rparr>"
      and "r_instance_id r \<noteq> []" and "\<not> r_defer_deletion r"
proof -
  let ?held = "r_instance_id r \<noteq> [] \<or> owned_jit r"
  let ?p = "r_claimed_work r = WorkNone \<and> r_status r = StatusPending \<and> r_attempts r < n \<and>
    (live < max_live \<or> (live = max_live \<and> ?held))"
  show ?thesis
  proof (cases ?p)
    case True
    then have "is_live r" if "?held" using that by (auto simp: is_live_def)
    with True assms show ?thesis by (intro provision) (auto simp: claim_record_def Let_def)
  next
    case False
    with assms show ?thesis
      by (intro delete) (auto simp: claim_record_def Let_def split: if_splits)
  qed
qed

lemma claim_record_ok:
  assumes "claim_record live max_live n r = Some c"
  shows "claim_evolves r (stamp_claim now c)"
    and "record_inv r \<Longrightarrow> record_inv (stamp_claim now c)"
    and "is_live (stamp_claim now c) \<Longrightarrow> is_live r \<or> live < max_live"
proof -
  obtain r' kind where c: "c = (r', kind)" by fastforce
  have "claim_evolves r (stamp_claim now c) \<and> (record_inv r \<longrightarrow> record_inv (stamp_claim now c)) \<and>
      (is_live (stamp_claim now c) \<longrightarrow> is_live r \<or> live < max_live)"
    using assms [unfolded c]
  proof (cases rule: claim_record_Some)
    case provision
    then show ?thesis
      by (auto simp: c settle_defs claim_evolves_def same_job_def record_inv_defs)
  next
    case delete
    then show ?thesis
      by (auto simp: c settle_defs claim_evolves_def same_job_def record_inv_defs is_live_def)
  qed
  then show "claim_evolves r (stamp_claim now c)"
    and "record_inv r \<Longrightarrow> record_inv (stamp_claim now c)"
    and "is_live (stamp_claim now c) \<Longrightarrow> is_live r \<or> live < max_live" by auto
qed

text \<open>The scan as a search: the first key whose record is due and can be claimed.\<close>

definition claim_of ::
    "int \<Rightarrow> int \<Rightarrow> time \<Rightarrow> int \<Rightarrow> runner_record option \<Rightarrow> (runner_record \<times> work_kind) option" where
  "claim_of live max_live now n v =
    (case v of None \<Rightarrow> None
     | Some r \<Rightarrow> if r_next_attempt_at r > now then None
                else map_option (\<lambda>c. (stamp_claim now c, snd c)) (claim_record live max_live n r))"

fun first_claim ::
    "string list \<Rightarrow> int \<Rightarrow> int \<Rightarrow> time \<Rightarrow> int \<Rightarrow> (string \<Rightarrow> runner_record option) \<Rightarrow>
     (runner_record \<times> work_kind) option" where
  "first_claim [] live max_live now n m = None"
| "first_claim (k # ks) live max_live now n m =
    (case claim_of live max_live now n (m k) of
       Some c \<Rightarrow> Some c
     | None \<Rightarrow> first_claim ks live max_live now n m)"

lemma first_claim_cong:
  "(\<And>k. claim_of live max_live now n (m' k) = claim_of live max_live now n (m k)) \<Longrightarrow>
   first_claim ks live max_live now n m' = first_claim ks live max_live now n m"
  by (induction ks) (auto split: option.split)

lemma claim_of_settled:
  "provision_exhausted n r \<Longrightarrow> claim_of live mx now n (Some r) = None \<and>
     claim_of live mx now n (Some (settle_provision now r)) = None"
  "deletion_exhausted n r \<Longrightarrow> claim_of live mx now n (Some r) = None \<and>
     claim_of live mx now n (Some (settle_deletion now r)) = None"
  by (auto simp: claim_of_def settle_defs claim_record_def Let_def)

text \<open>A due record out of attempts, and what the scan makes of it.\<close>

definition exhaustion_outcome :: "time \<Rightarrow> int \<Rightarrow> runner_record \<Rightarrow> runner_record \<Rightarrow> bool" where
  "exhaustion_outcome now n r r' \<longleftrightarrow> \<not> r_next_attempt_at r > now \<and>
     (provision_exhausted n r \<and> r' = settle_provision now r \<or>
      deletion_exhausted n r \<and> r' = settle_deletion now r)"

lemma exhaustion_outcome_once: "exhaustion_outcome now n r r' \<Longrightarrow> \<not> exhaustion_outcome now n r' r''"
  by (auto simp: exhaustion_outcome_def settle_defs)

text \<open>One key of the scan.\<close>

lemma claim_loop_cases:
  assumes inv: "store_inv s" and run: "claim_loop (key # keys) live now n s = (res, s')"
  obtains (skip) "claim_of live (fs_max_live_runners s) now n (lookup_record s key) = None"
      and "claim_loop keys live now n s = (res, s')"
  | (settled) r r' t where "lookup_record s key = Some r" and "replace_record key r r' s = (None, t)"
      and "claim_evolves r r'" and "record_inv r'" and "is_live r' \<Longrightarrow> is_live r"
      and "claim_loop keys live now n t = (res, s')"
      and "claim_of live (fs_max_live_runners s) now n (Some r) = None"
      and "claim_of live (fs_max_live_runners s) now n (Some r') = None"
      and "exhaustion_outcome now n r r'"
  | (failed) r r' e where "lookup_record s key = Some r" and "res = Inl e"
      and "replace_record key r r' s = (Some e, s')"
      and "claim_evolves r r'" and "record_inv r'"
  | (claimed) r c where "lookup_record s key = Some r" and "\<not> r_next_attempt_at r > now"
      and "claim_record live (fs_max_live_runners s) n r = Some c"
      and "replace_record key r (stamp_claim now c) s = (None, s')"
      and "res = Inr (Some (stamp_claim now c, snd c))"
proof (cases "lookup_record s key")
  case None
  then have "claim_loop keys live now n s = (res, s')"
    using run by (auto simp: zero_record_def settle_defs claim_record_def Let_def split: if_splits)
  with None show ?thesis by (intro skip) (simp_all add: claim_of_def)
next
  case (Some r)
  have inv_r: "record_inv r" using inv Some by (auto simp: store_inv_def dest: records_invD)
  show ?thesis
  proof (cases "r_next_attempt_at r > now")
    case True
    with Some run show ?thesis by (intro skip) (simp_all add: claim_of_def)
  next
    case due: False
    have settle: thesis if "claim_evolves r r'" "record_inv r'" "is_live r' \<Longrightarrow> is_live r"
      "claim_of live (fs_max_live_runners s) now n (Some r) = None"
      "claim_of live (fs_max_live_runners s) now n (Some r') = None"
      "(case replace_record key r r' s of (Some e, s) \<Rightarrow> (Inl e, s)
        | (None, s) \<Rightarrow> claim_loop keys live now n s) = (res, s')"
      "exhaustion_outcome now n r r'" for r'
    proof (cases "replace_record key r r' s")
      case (Pair err t)
      show ?thesis
      proof (cases err)
        case None
        with Pair that settled [OF Some _ that(1-3) _ that(4,5,7)] show ?thesis by simp
      next
        case (Some e)
        with Pair that(6) show ?thesis
          by (intro failed [OF \<open>lookup_record s key = Some r\<close> _ _ that(1,2)]) auto
      qed
    qed
    show ?thesis
    proof (cases "provision_exhausted n r")
      case True
      note set = settle_provision_ok [OF True, of now]
      show ?thesis
        by (rule settle [OF set(1) set(2) [OF inv_r] set(3)])
          (use Some run due True claim_of_settled(1) [OF True] in
            \<open>simp_all add: settle_provision_def exhaustion_outcome_def\<close>)
    next
      case np: False
      show ?thesis
      proof (cases "deletion_exhausted n r")
        case True
        note set = settle_deletion_ok [OF True, of now]
        show ?thesis
          by (rule settle [OF set(1) set(2) [OF inv_r] set(3)])
            (use Some run due np True claim_of_settled(2) [OF True] in
              \<open>simp_all add: settle_deletion_def exhaustion_outcome_def\<close>)
      next
        case nd: False
        show ?thesis
        proof (cases "claim_record live (fs_max_live_runners s) n r")
          case None
          with Some run due np nd show ?thesis by (intro skip) (simp_all add: claim_of_def)
        next
          case c: (Some c)
          note ok = claim_record_ok [OF c, of now]
          obtain r1 kind where c': "c = (r1, kind)" by fastforce
          obtain err t where rep: "replace_record key r (stamp_claim now c) s = (err, t)" by fastforce
          show ?thesis
          proof (cases err)
            case None
            with Some run due np nd c rep show ?thesis
              by (intro claimed [OF Some due c]) (simp_all add: c' stamp_claim_def Let_def)
          next
            case e: (Some e)
            with Some run due np nd c rep ok(1) ok(2) [OF inv_r] show ?thesis
              by (intro failed [OF Some _ _ ok(1) ok(2) [OF inv_r]])
                (simp_all add: c' stamp_claim_def Let_def)
          qed
        qed
      qed
    qed
  qed
qed

lemma claim_put_step:
  assumes inv: "store_inv s" and old: "lookup_record s key = Some r"
    and run: "replace_record key r r' s = (err, t)"
    and new: "claim_evolves r r'" "record_inv r'"
  shows "store_inv t" and "scan_evolves s t" and "same_frame s t"
    and "err = None \<Longrightarrow> map_of (fs_records t) = (map_of (fs_records s))(key \<mapsto> r')"
    and "(is_live r' \<Longrightarrow> is_live r) \<Longrightarrow> live_runner_count t \<le> live_runner_count s"
    and "live_runner_count t \<le> live_runner_count s + 1"
proof -
  note step = replace_record_step [OF inv old run new(2) claim_evolves_record [OF new(1)]]
  have ok: "clean_ok s" "clean_ok t" using inv step(1) by (auto simp: store_inv_def)
  note spec = replace_record_spec [OF ok(1) old run]
  show "store_inv t" "same_frame s t" by (rule step(1), rule step(3))
  show "scan_evolves s t"
    using spec(3) old new(1)
    by (cases err) (auto intro: scan_evolves_same scan_evolves_put)
  show "err = None \<Longrightarrow> map_of (fs_records t) = (map_of (fs_records s))(key \<mapsto> r')"
    using spec(3) by simp
  show "(is_live r' \<Longrightarrow> is_live r) \<Longrightarrow> live_runner_count t \<le> live_runner_count s"
    by (rule step(4))
  show "live_runner_count t \<le> live_runner_count s + 1"
  proof (cases err)
    case None
    with live_count_put [OF ok old, of r'] spec(3) show ?thesis by (auto split: if_splits)
  next
    case (Some e)
    with live_count_cong [OF ok] spec(3) show ?thesis by simp
  qed
qed

lemma claim_loop_spec:
  assumes "store_inv s" and "claim_loop keys live now n s = (res, s')"
    and "int (live_runner_count s) \<le> live"
  shows "store_inv s'" and "scan_evolves s s'" and "same_frame s s'"
    and "int (live_runner_count s') \<le> live \<or>
      live < fs_max_live_runners s \<and> int (live_runner_count s') \<le> live + 1"
    and "res = Inr v \<Longrightarrow>
      v = first_claim keys live (fs_max_live_runners s) now n (map_of (fs_records s))"
    and "res = Inr (Some (r', kind)) \<Longrightarrow> \<exists>key r c. key \<in> set keys \<and> lookup_record s key = Some r \<and>
      \<not> r_next_attempt_at r > now \<and> claim_record live (fs_max_live_runners s) n r = Some c \<and>
      r' = stamp_claim now c \<and> kind = snd c \<and> lookup_record s' key = Some r'"
proof -
  let ?first = "\<lambda>keys s. first_claim keys live (fs_max_live_runners s) now n (map_of (fs_records s))"
  have "store_inv s' \<and> scan_evolves s s' \<and> same_frame s s' \<and>
    (int (live_runner_count s') \<le> live \<or>
      live < fs_max_live_runners s \<and> int (live_runner_count s') \<le> live + 1) \<and>
    (\<forall>v. res = Inr v \<longrightarrow> v = ?first keys s) \<and>
    (res = Inr (Some (r', kind)) \<longrightarrow> (\<exists>key r c. key \<in> set keys \<and> lookup_record s key = Some r \<and>
      \<not> r_next_attempt_at r > now \<and> claim_record live (fs_max_live_runners s) n r = Some c \<and>
      r' = stamp_claim now c \<and> kind = snd c \<and> lookup_record s' key = Some r'))"
    using assms
  proof (induction keys arbitrary: s)
    case Nil
    then show ?case by auto
  next
    case (Cons key keys)
    from Cons.prems(1,2) show ?case
    proof (cases rule: claim_loop_cases)
      case skip
      with Cons.IH [OF Cons.prems(1) skip(2) Cons.prems(3)] show ?thesis by auto
    next
      case (settled r r1 t)
      note put = claim_put_step [OF Cons.prems(1) settled(1,2,3,4)]
      have live: "int (live_runner_count t) \<le> live"
        using put(5) settled(5) Cons.prems(3) by force
      have mx: "fs_max_live_runners t = fs_max_live_runners s"
        using put(3) by (simp add: same_frame_def)
      have "?first keys t = ?first keys s"
        unfolding mx using put(4) settled(1,7,8)
        by (intro first_claim_cong) simp
      with settled(1,7) have first: "?first keys t = ?first (key # keys) s" by simp
      note IH = Cons.IH [OF put(1) settled(6) live, unfolded first, unfolded mx]
      have "scan_evolves s s'" "same_frame s s'"
        using scan_evolves_trans [OF put(2)] same_frame_trans [OF put(3)] IH by blast+
      moreover have "\<exists>key r c. key \<in> set (key' # keys) \<and> lookup_record s key = Some r \<and>
          \<not> r_next_attempt_at r > now \<and> claim_record live (fs_max_live_runners s) n r = Some c \<and>
          r' = stamp_claim now c \<and> kind = snd c \<and> lookup_record s' key = Some r'"
        if res: "res = Inr (Some (r', kind))" for key'
      proof -
        from IH res obtain k r c where c: "k \<in> set keys" "lookup_record t k = Some r"
          "\<not> r_next_attempt_at r > now" "claim_record live (fs_max_live_runners s) n r = Some c"
          "r' = stamp_claim now c" "kind = snd c" "lookup_record s' k = Some r'" by blast
        obtain r0 where r0: "lookup_record s k = Some r0" "claim_evolves r0 r"
          using scan_evolves_SomeD [OF put(2) c(2)] by blast
        obtain c1 kd where "c = (c1, kd)" by fastforce
        with c(4) have "r_status r = StatusPending \<or> r_status r = StatusCompleted"
          by (auto elim: claim_record_Some)
        from claim_evolves_still [OF r0(2) this] r0(1) have "lookup_record s k = Some r" by simp
        with c show ?thesis by (intro exI [of _ k] exI [of _ r] exI [of _ c]) simp
      qed
      ultimately show ?thesis using IH by blast
    next
      case (failed r r1 e)
      note put = claim_put_step [OF Cons.prems(1) failed(1,3,4,5)]
      have "map_of (fs_records s') = map_of (fs_records s)" and "clean_ok s'" "clean_ok s"
        using replace_record_spec [OF _ failed(1,3)] Cons.prems(1) by (auto simp: store_inv_def)
      then have "live_runner_count s' = live_runner_count s" by (intro live_count_cong)
      with put(1,2,3) Cons.prems(3) failed(2) show ?thesis by simp
    next
      case (claimed r c)
      have inv_r: "record_inv r"
        using Cons.prems(1) claimed(1) by (auto simp: store_inv_def dest: records_invD)
      note ok = claim_record_ok [OF claimed(3), of now]
      note put = claim_put_step [OF Cons.prems(1) claimed(1,4) ok(1) ok(2) [OF inv_r]]
      have "int (live_runner_count s') \<le> live \<or>
          live < fs_max_live_runners s \<and> int (live_runner_count s') \<le> live + 1"
        using put(5,6) ok(3) Cons.prems(3) by fastforce
      moreover have "\<exists>key' r c. key' \<in> set (key # keys) \<and> lookup_record s key' = Some r \<and>
          \<not> r_next_attempt_at r > now \<and> claim_record live (fs_max_live_runners s) n r = Some c \<and>
          r' = stamp_claim now c \<and> kind = snd c \<and> lookup_record s' key' = Some r'"
        if "res = Inr (Some (r', kind))"
        using that claimed put(4) by (intro exI [of _ key] exI [of _ r] exI [of _ c]) simp
      ultimately show ?thesis using put(1-3) claimed by (simp add: claim_of_def)
    qed
  qed
  then show "store_inv s'" and "scan_evolves s s'" and "same_frame s s'"
    and "int (live_runner_count s') \<le> live \<or>
      live < fs_max_live_runners s \<and> int (live_runner_count s') \<le> live + 1"
    and "res = Inr v \<Longrightarrow> v = ?first keys s"
    and "res = Inr (Some (r', kind)) \<Longrightarrow> \<exists>key r c. key \<in> set keys \<and> lookup_record s key = Some r \<and>
      \<not> r_next_attempt_at r > now \<and> claim_record live (fs_max_live_runners s) n r = Some c \<and>
      r' = stamp_claim now c \<and> kind = snd c \<and> lookup_record s' key = Some r'"
    by blast+
qed

text \<open>A scan that fails has changed no record but those it found exhausted on its way.\<close>

lemma claim_loop_failed:
  assumes "store_inv s" and "claim_loop keys live now n s = (Inl e, s')"
  shows "lookup_record s' k = lookup_record s k \<or>
    (\<exists>r r'. lookup_record s k = Some r \<and> exhaustion_outcome now n r r' \<and> lookup_record s' k = Some r')"
  using assms
proof (induction keys arbitrary: s)
  case (Cons key keys)
  from Cons.prems show ?case
  proof (cases rule: claim_loop_cases)
    case skip
    with Cons.IH [OF Cons.prems(1) skip(2)] show ?thesis by simp
  next
    case (settled r r1 t)
    note put = claim_put_step [OF Cons.prems(1) settled(1,2,3,4)]
    have t: "lookup_record t k = (if k = key then Some r1 else lookup_record s k)"
      using put(4) by simp
    from Cons.IH [OF put(1) settled(6)] show ?thesis
      using t settled(1,9) exhaustion_outcome_once [OF settled(9)] by (cases "k = key") auto
  next
    case (failed r r1 e')
    have "clean_ok s" using Cons.prems(1) by (simp add: store_inv_def)
    from replace_record_spec(3) [OF this failed(1,3)] show ?thesis by simp
  next
    case claimed
    then show ?thesis by simp
  qed
qed simp

section \<open>The cache of sorted keys\<close>

text \<open>Unless the dirty flag is set, \<open>orderedKeys\<close> holds exactly the keys of the map, sorted.\<close>

definition cache_ok :: "file_store \<Rightarrow> bool" where
  "cache_ok s \<longleftrightarrow> fs_keys_dirty s \<or>
     sorted (fs_ordered_keys s) \<and> distinct (fs_ordered_keys s) \<and>
     set (fs_ordered_keys s) = dom (map_of (fs_records s))"

lemma cache_okI_dirty: "fs_keys_dirty s \<Longrightarrow> cache_ok s"
  by (simp add: cache_ok_def)

lemma cache_ok_frame:
  "cache_ok s \<Longrightarrow> fs_ordered_keys s' = fs_ordered_keys s \<Longrightarrow> fs_keys_dirty s' = fs_keys_dirty s \<Longrightarrow>
   dom (map_of (fs_records s')) = dom (map_of (fs_records s)) \<Longrightarrow> cache_ok s'"
  by (simp add: cache_ok_def)

lemma cache_ok_same_frame:
  "cache_ok s \<Longrightarrow> same_frame s s' \<Longrightarrow>
   dom (map_of (fs_records s')) = dom (map_of (fs_records s)) \<Longrightarrow> cache_ok s'"
  by (rule cache_ok_frame) (simp_all add: same_frame_def)

lemma scan_evolves_dom: "scan_evolves s s' \<Longrightarrow> dom (map_of (fs_records s')) = dom (map_of (fs_records s))"
  unfolding scan_evolves_def dom_def
  by (intro Collect_cong) (metis option.rel_distinct not_Some_eq)

lemma replace_record_cache:
  assumes "store_inv s" and "cache_ok s" and "lookup_record s k = Some r"
    and "replace_record k r r' s = (err, s')"
  shows "cache_ok s'"
proof -
  have "clean_ok s" using assms(1) by (simp add: store_inv_def)
  from replace_record_spec [OF this assms(3,4)] assms(3)
  show ?thesis by (intro cache_ok_same_frame [OF assms(2)]) (auto split: if_splits)
qed

lemma ordered_keys_irrelevant [simp]:
  "clean_ok (s\<lparr>fs_ordered_keys := ks\<rparr>) = clean_ok s"
  "store_inv (s\<lparr>fs_ordered_keys := ks\<rparr>) = store_inv s"
  by (simp_all add: store_inv_def clean_ok_def store_ok_def dirty_covers_def records_inv_def)

lemma sorted_key_list:
  fixes xs :: "string list"
  assumes "sorted xs" and "distinct xs" and "set xs = A" shows "xs = sorted_list_of_set A"
  using assms sorted_list_of_set.idem_if_sorted_distinct by metis

lemma ordered_keys_spec:
  assumes "clean_ok s" and "cache_ok s" and "ordered_keys s = (ks, t)"
  shows "ks = sorted_list_of_set (dom (map_of (fs_records s)))"
    and "cache_ok t" and "\<not> fs_keys_dirty t"
    and "fs_records t = fs_records s" and "fs_max_live_runners t = fs_max_live_runners s"
    and "fs_runner_keys t = fs_runner_keys s" and "fs_closed t = fs_closed s"
    and "store_inv t = store_inv s" and "clean_ok t"
proof -
  have wf: "distinct (keys_of (fs_records s))"
    using assms(1) by (simp add: clean_ok_def store_ok_def keys_of_def)
  have keys: "set (keys_of (fs_records s)) = dom (map_of (fs_records s))"
    by (simp add: keys_of_def dom_map_of_conv_image_fst)
  have sort: "sort (keys_of (fs_records s)) = sorted_list_of_set (dom (map_of (fs_records s)))"
    using wf keys by (metis sorted_list_of_set.idem_if_sorted_distinct sorted_list_of_set_sort_remdups
        distinct_remdups_id)
  show "ks = sorted_list_of_set (dom (map_of (fs_records s)))"
  proof (cases "fs_keys_dirty s")
    case True
    with assms(3) sort show ?thesis by (auto simp: ordered_keys_def Let_def)
  next
    case False
    then have "ks = fs_ordered_keys s" using assms(3) by (auto simp: ordered_keys_def)
    moreover have "fs_ordered_keys s = sorted_list_of_set (dom (map_of (fs_records s)))"
      using assms(2) False by (intro sorted_key_list) (simp_all add: cache_ok_def)
    ultimately show ?thesis by simp
  qed
  have "\<exists>o' d. t = s\<lparr>fs_ordered_keys := o', fs_keys_dirty := d\<rparr> \<and> cache_ok t \<and> \<not> fs_keys_dirty t"
  proof (cases "fs_keys_dirty s")
    case True
    then have "t = s\<lparr>fs_ordered_keys := sort (keys_of (fs_records s)), fs_keys_dirty := False\<rparr>"
      using assms(3) by (auto simp: ordered_keys_def Let_def)
    with wf keys show ?thesis by (auto simp: cache_ok_def)
  next
    case False
    then have "t = s\<lparr>fs_ordered_keys := fs_ordered_keys s, fs_keys_dirty := False\<rparr>"
      using assms(3) by (auto simp: ordered_keys_def)
    moreover from this False assms(2) have "cache_ok t" "\<not> fs_keys_dirty t"
      by (simp_all add: cache_ok_def)
    ultimately show ?thesis by blast
  qed
  then obtain o' d where t: "t = s\<lparr>fs_ordered_keys := o', fs_keys_dirty := d\<rparr>"
    and ct: "cache_ok t" "\<not> fs_keys_dirty t" by blast
  show "cache_ok t" and "\<not> fs_keys_dirty t" by (rule ct)+
  show "fs_records t = fs_records s" "fs_max_live_runners t = fs_max_live_runners s"
    "fs_runner_keys t = fs_runner_keys s" "fs_closed t = fs_closed s"
    "store_inv t = store_inv s" "clean_ok t"
    using assms(1) by (simp_all add: t)
qed

section \<open>Claiming\<close>

text \<open>
  \<open>ClaimNext\<close> in one statement: when no error occurs the answer is the first claimable record
  in key order, with the number of live runners at the start of the scan.
\<close>

lemma claim_next_spec:
  assumes inv: "store_inv s" and cache: "cache_ok s"
    and run: "claim_next ctx_err now n s = (res, s')"
  shows "store_inv s'" and "cache_ok s'" and "scan_evolves s s'"
    and "int (live_runner_count s') \<le> max (int (live_runner_count s)) (fs_max_live_runners s)"
    and "res = Inr v \<Longrightarrow> v = first_claim (sorted_list_of_set (dom (map_of (fs_records s))))
      (int (live_runner_count s)) (fs_max_live_runners s) now n (map_of (fs_records s))"
    and "res = Inr (Some (r', kind)) \<Longrightarrow> \<exists>key r c. lookup_record s key = Some r \<and>
      \<not> r_next_attempt_at r > now \<and> claim_record (int (live_runner_count s))
        (fs_max_live_runners s) n r = Some c \<and>
      r' = stamp_claim now c \<and> kind = snd c \<and> lookup_record s' key = Some r'"
proof -
  obtain ks t where keys: "ordered_keys s = (ks, t)" by fastforce
  have "clean_ok s" using inv by (simp add: store_inv_def)
  note ok = ordered_keys_spec [OF this cache keys]
  have "store_inv s' \<and> cache_ok s' \<and> scan_evolves s s' \<and>
    int (live_runner_count s') \<le> max (int (live_runner_count s)) (fs_max_live_runners s) \<and>
    (\<forall>v. res = Inr v \<longrightarrow> v = first_claim (sorted_list_of_set (dom (map_of (fs_records s))))
      (int (live_runner_count s)) (fs_max_live_runners s) now n (map_of (fs_records s))) \<and>
    (res = Inr (Some (r', kind)) \<longrightarrow> (\<exists>key r c. lookup_record s key = Some r \<and>
      \<not> r_next_attempt_at r > now \<and> claim_record (int (live_runner_count s))
        (fs_max_live_runners s) n r = Some c \<and>
      r' = stamp_claim now c \<and> kind = snd c \<and> lookup_record s' key = Some r'))"
  proof (cases ctx_err)
    case (Some e)
    with run inv cache show ?thesis by (auto simp: claim_next_def)
  next
    case None
    have live: "live_runner_count t = live_runner_count s" using ok(4) by (simp add: live_runner_count_def)
    with None run keys have loop:
      "claim_loop ks (int (live_runner_count s)) now n t = (res, s')"
      by (simp add: claim_next_def)
    have inv_t: "store_inv t" using ok(8) inv by simp
    note spec = claim_loop_spec [OF inv_t loop, unfolded live, OF order_refl, unfolded ok(4,5)]
    have ev: "scan_evolves s s'" using spec(2) ok(4) by (simp add: scan_evolves_def)
    have "cache_ok s'"
      using cache_ok_same_frame [OF ok(2) spec(3) scan_evolves_dom [OF spec(2)]] .
    with spec(1,4) spec(5) spec(6) ev show ?thesis unfolding ok(1) by fastforce
  qed
  then show "store_inv s'" "cache_ok s'" "scan_evolves s s'"
    "int (live_runner_count s') \<le> max (int (live_runner_count s)) (fs_max_live_runners s)"
    "res = Inr v \<Longrightarrow> v = first_claim (sorted_list_of_set (dom (map_of (fs_records s))))
      (int (live_runner_count s)) (fs_max_live_runners s) now n (map_of (fs_records s))"
    "res = Inr (Some (r', kind)) \<Longrightarrow> \<exists>key r c. lookup_record s key = Some r \<and>
      \<not> r_next_attempt_at r > now \<and> claim_record (int (live_runner_count s))
        (fs_max_live_runners s) n r = Some c \<and>
      r' = stamp_claim now c \<and> kind = snd c \<and> lookup_record s' key = Some r'"
    by blast+
qed

end
