(* ===== verification/Store_Sweeps.thy ===== *)
theory Store_Sweeps
  imports Store_Completion
begin

text \<open>
  The two operations that change many records in one save, \<open>ReleaseSweptOrphans\<close> and
  \<open>PruneDeleted\<close>. Both pick the records that satisfy a test, change or remove each, save once
  and put everything back when the save fails: the locale \<open>sweep\<close>.
\<close>

section \<open>The loops as edits\<close>

definition sweep_edits ::
    "(runner_record \<Rightarrow> bool) \<Rightarrow> (runner_record \<Rightarrow> runner_record option) \<Rightarrow> records \<Rightarrow>
     (string \<times> runner_record option) list" where
  "sweep_edits pick act rs = map (\<lambda>(k, r). (k, act r)) (filter (\<lambda>(k, r). pick r) rs)"

definition swept_undo :: "records \<Rightarrow> (string \<times> runner_record option) list" where
  "swept_undo rs = map (\<lambda>(k, r). (k, Some r)) rs"

lemma update_new_key: "k \<notin> fst ` set m \<Longrightarrow> AList.update k v m = m @ [(k, v)]"
  by (induction m) auto

lemma restore_all_eq: "restore_all rs s = fold (\<lambda>(k, v). set_record k v) (swept_undo rs) s"
  by (induction rs s rule: restore_all.induct) (auto simp: swept_undo_def set_record_def)

lemma release_swept_loop_eq:
  assumes "wf_map (before @ rs)"
  shows "release_swept_loop rs p cutoff now before s =
    (before @ filter (\<lambda>(k, r). swept_orphan p cutoff r) rs,
     fold (\<lambda>(k, v). edit_record k v)
       (sweep_edits (swept_orphan p cutoff)
         (\<lambda>r. Some (r\<lparr>r_instance_id := '''', r_updated_at := now\<rparr>)) rs) s)"
  using assms
  by (induction rs p cutoff now before s rule: release_swept_loop.induct)
     (auto simp: sweep_edits_def edit_record_def set_record_def update_new_key)

lemma prune_loop_eq:
  assumes "wf_map (removed @ rs)"
  shows "prune_loop rs cutoff removed s =
    (removed @ filter (\<lambda>(k, r). prunable cutoff r) rs,
     fold (\<lambda>(k, v). edit_record k v) (sweep_edits (prunable cutoff) (\<lambda>r. None) rs) s)"
  using assms
  by (induction rs cutoff removed s rule: prune_loop.induct)
     (auto simp: sweep_edits_def edit_record_def set_record_def update_new_key)

section \<open>The contract of a sweep\<close>

locale sweep =
  fixes pick :: "runner_record \<Rightarrow> bool" and act :: "runner_record \<Rightarrow> runner_record option"
  assumes act_step: "pick r \<Longrightarrow> act r = Some r' \<Longrightarrow>
      record_evolves r r' \<and> (record_inv r \<longrightarrow> record_inv r') \<and> (is_live r' \<longrightarrow> is_live r)"
    and act_drop: "pick r \<Longrightarrow> act r = None \<Longrightarrow> retired r"
begin

abbreviation "edits s \<equiv> sweep_edits pick act (fs_records s)"
abbreviation "picked s \<equiv> filter (\<lambda>(k, r). pick r) (fs_records s)"

lemma edit_member:
  assumes "store_inv s" and "(k, v) \<in> set (edits s)"
  obtains r where "lookup_record s k = Some r" and "pick r" and "v = act r"
  using assms by (auto simp: sweep_edits_def store_inv_def clean_ok_def store_ok_def)

lemma edits_distinct: "store_inv s \<Longrightarrow> distinct (map fst (edits s))"
  by (auto simp: sweep_edits_def store_inv_def clean_ok_def store_ok_def comp_def case_prod_unfold
      distinct_map_filter)

lemma edits_lookup:
  assumes "store_inv s"
  shows "fold (\<lambda>(k, v) m. m(k := v)) (edits s) (map_of (fs_records s)) k =
    (case lookup_record s k of None \<Rightarrow> None | Some r \<Rightarrow> if pick r then act r else Some r)"
proof (cases "map_of (edits s) k")
  case None
  have "\<not> pick r" if "lookup_record s k = Some r" for r
    using None that
    by (force simp: sweep_edits_def map_of_eq_None_iff image_iff dest: map_of_SomeD)
  with None show ?thesis
    by (simp add: fold_upd_lookup [OF edits_distinct [OF assms]] split: option.split)
next
  case (Some v)
  obtain r where "lookup_record s k = Some r" "pick r" "v = act r"
    using edit_member [OF assms map_of_SomeD [OF Some]] .
  with Some show ?thesis by (simp add: fold_upd_lookup [OF edits_distinct [OF assms]])
qed

lemma sweep_commit:
  assumes inv: "store_inv s"
    and save: "save_locked (fold (\<lambda>(k, v). edit_record k v) (edits s) (s\<lparr>fs_keys_dirty := b\<rparr>)) = (None, t)"
  shows "store_inv t" and "store_evolves s t" and "live_runner_count t \<le> live_runner_count s"
    and "lookup_record t k =
      (case lookup_record s k of None \<Rightarrow> None | Some r \<Rightarrow> if pick r then act r else Some r)"
proof -
  have ok: "clean_ok (s\<lparr>fs_keys_dirty := b\<rparr>)" and recs: "records_inv s"
    using inv by (simp_all add: store_inv_def)
  note commit = txn_commit_clean [OF ok save]
  have look: "lookup_record t k =
      (case lookup_record s k of None \<Rightarrow> None | Some r \<Rightarrow> if pick r then act r else Some r)" for k
    using commit(2) edits_lookup [OF inv] by simp
  then show "lookup_record t k =
      (case lookup_record s k of None \<Rightarrow> None | Some r \<Rightarrow> if pick r then act r else Some r)" .
  have "records_inv t"
    unfolding records_inv_def look
    by (auto split: option.splits if_splits dest!: records_invD [OF recs])
      (auto dest: act_step simp: evolve_defs)
  with commit(1) show "store_inv t" by (simp add: store_inv_def)
  show "store_evolves s t"
    unfolding store_evolves_but_def look by (auto split: option.split dest: act_step act_drop)
  show "live_runner_count t \<le> live_runner_count s"
  proof (rule live_count_edits [OF _ commit(1) edits_distinct [OF inv]])
    show "clean_ok s" using inv by (simp add: store_inv_def)
    show "map_of (fs_records t) = fold (\<lambda>(k, v) m. m(k := v)) (edits s) (map_of (fs_records s))"
      using commit(2) by simp
    show "\<exists>r. lookup_record s k = Some r \<and> is_live r"
      if new: "(k, Some r') \<in> set (edits s)" "is_live r'" for k r'
    proof -
      obtain r where "lookup_record s k = Some r" "pick r" "Some r' = act r"
        using edit_member [OF inv new(1)] .
      with act_step [of r r'] new(2) show ?thesis by auto
    qed
  qed
qed

lemma sweep_abort:
  assumes inv: "store_inv s"
    and save: "save_locked (fold (\<lambda>(k, v). edit_record k v) (edits s) (s\<lparr>fs_keys_dirty := b\<rparr>)) = (Some e, t)"
    and u: "u = fold (\<lambda>(k, v). set_record k v) (swept_undo (picked s)) t"
  shows "clean_ok u" and "map_of (fs_records u) = map_of (fs_records s)"
proof -
  have ok: "clean_ok (s\<lparr>fs_keys_dirty := b\<rparr>)" using inv by (simp add: store_inv_def)
  have "\<And>k v. (k, v) \<in> set (swept_undo (picked s)) \<Longrightarrow> v = lookup_record s k"
    using inv by (auto simp: swept_undo_def store_inv_def clean_ok_def store_ok_def)
  moreover have "fst ` set (edits s) = fst ` set (swept_undo (picked s))"
    by (force simp: sweep_edits_def swept_undo_def)
  ultimately show "clean_ok u" and "map_of (fs_records u) = map_of (fs_records s)"
    using txn_abort_clean [OF ok save, of "swept_undo (picked s)"] u by simp_all
qed

end

text \<open>The two instances.\<close>

definition forget_instance :: "time \<Rightarrow> runner_record \<Rightarrow> runner_record" where
  "forget_instance now r = r\<lparr>r_instance_id := '''', r_updated_at := now\<rparr>"

interpretation ro: sweep "swept_orphan p cutoff" "\<lambda>r. Some (forget_instance now r)" for p cutoff now
  by unfold_locales
    (auto simp: swept_orphan_def Let_def forget_instance_def evolve_defs record_inv_defs is_live_def
      split: if_splits)

interpretation pd: sweep "prunable cutoff" "\<lambda>r. None" for cutoff
  by unfold_locales (auto simp: prunable_def Let_def)

lemma release_swept_orphans_eq:
  assumes "store_inv s"
  shows "release_swept_orphans p cutoff now s =
    (let picked = filter (\<lambda>(k, r). swept_orphan p cutoff r) (fs_records s);
         t = fold (\<lambda>(k, v). edit_record k v)
           (sweep_edits (swept_orphan p cutoff) (\<lambda>r. Some (forget_instance now r)) (fs_records s)) s
     in if picked = [] then (Inr 0, s)
        else case save_locked t of
          (Some e, u) \<Rightarrow> (Inl e, fold (\<lambda>(k, v). set_record k v) (swept_undo picked) u)
        | (None, u) \<Rightarrow> (Inr (length picked), u))"
proof -
  have wf: "wf_map ([] @ fs_records s)"
    using assms by (simp add: store_inv_def clean_ok_def store_ok_def)
  have "filter (\<lambda>(k, r). swept_orphan p cutoff r) rs = [] \<Longrightarrow>
      sweep_edits (swept_orphan p cutoff) (\<lambda>r. Some (forget_instance now r)) rs = []" for rs
    by (simp add: sweep_edits_def)
  then show ?thesis
    unfolding release_swept_orphans_def release_swept_loop_eq [OF wf]
    by (auto simp: Let_def restore_all_eq forget_instance_def split: option.split prod.split)
qed

lemma prune_deleted_eq:
  assumes "store_inv s"
  shows "prune_deleted now s =
    (let cutoff = now - fs_deleted_retention s;
         picked = filter (\<lambda>(k, r). prunable cutoff r) (fs_records s);
         t = fold (\<lambda>(k, v). edit_record k v) (sweep_edits (prunable cutoff) (\<lambda>r. None) (fs_records s))
           (s\<lparr>fs_keys_dirty := True\<rparr>)
     in if picked = [] then (Inr 0, s)
        else case save_locked t of
          (Some e, u) \<Rightarrow>
            (Inl e, (fold (\<lambda>(k, v). set_record k v) (swept_undo picked) u)\<lparr>fs_keys_dirty := True\<rparr>)
        | (None, u) \<Rightarrow> (Inr (length picked), u))"
proof -
  have wf: "wf_map ([] @ fs_records s)"
    using assms by (simp add: store_inv_def clean_ok_def store_ok_def)
  have "filter (\<lambda>(k, r). prunable c r) rs = [] \<Longrightarrow> sweep_edits (prunable c) (\<lambda>r. None) rs = []"
    for c rs by (simp add: sweep_edits_def)
  then show ?thesis
    unfolding prune_deleted_def Let_def prune_loop_eq [OF wf]
    by (auto simp: Let_def restore_all_eq edits_keys_dirty split: option.split prod.split)
qed

lemma same_state:
  "store_inv s \<Longrightarrow> clean_ok u \<Longrightarrow> map_of (fs_records u) = map_of (fs_records s) \<Longrightarrow>
   store_inv u \<and> store_evolves s u \<and> live_runner_count u \<le> live_runner_count s"
  using live_count_cong [of s u]
  by (auto simp: store_inv_def records_inv_def store_evolves_same)

lemma release_swept_orphans_step:
  assumes inv: "store_inv s" and run: "release_swept_orphans p cutoff now s = (res, s')"
  shows "store_inv s'" and "store_evolves s s'" and "live_runner_count s' \<le> live_runner_count s"
    and "res = Inl e \<Longrightarrow> map_of (fs_records s') = map_of (fs_records s)"
    and "res = Inr n \<Longrightarrow> lookup_record s' k =
      map_option (\<lambda>r. if swept_orphan p cutoff r then forget_instance now r else r) (lookup_record s k)"
    and "same_frame s s'"
proof -
  let ?picked = "filter (\<lambda>(k, r). swept_orphan p cutoff r) (fs_records s)"
  have "store_inv s' \<and> store_evolves s s' \<and> live_runner_count s' \<le> live_runner_count s \<and>
    (\<forall>e. res = Inl e \<longrightarrow> map_of (fs_records s') = map_of (fs_records s)) \<and>
    (\<forall>n. res = Inr n \<longrightarrow> lookup_record s' k =
      map_option (\<lambda>r. if swept_orphan p cutoff r then forget_instance now r else r)
        (lookup_record s k)) \<and> same_frame s s'"
  proof (cases "?picked = []")
    case True
    with run inv have s': "s' = s" "res = Inr 0" by (auto simp: release_swept_orphans_eq Let_def)
    have "\<not> swept_orphan p cutoff r" if "lookup_record s k = Some r" for r
      using True map_of_SomeD [OF that] by (auto simp: filter_empty_conv)
    with s' inv show ?thesis
      by (cases "lookup_record s k") (auto simp: store_evolves_same)
  next
    case False
    let ?t = "fold (\<lambda>(k, v). edit_record k v)
      (sweep_edits (swept_orphan p cutoff) (\<lambda>r. Some (forget_instance now r)) (fs_records s))
      (s\<lparr>fs_keys_dirty := fs_keys_dirty s\<rparr>)"
    obtain err u where save: "save_locked ?t = (err, u)" by fastforce
    have ok: "clean_ok (s\<lparr>fs_keys_dirty := fs_keys_dirty s\<rparr>)" using inv by (simp add: store_inv_def)
    have fr: "same_frame s u" using txn_frame [OF ok save] by simp
    show ?thesis
    proof (cases err)
      case None
      with run inv False save have s': "s' = u" "res = Inr (length ?picked)"
        by (auto simp: release_swept_orphans_eq Let_def)
      note commit = ro.sweep_commit [OF inv save [unfolded None]]
      from commit(1-3) commit(4) [of k] s' fr show ?thesis by (auto split: option.split)
    next
      case (Some e)
      with run inv False save have s': "s' = fold (\<lambda>(k, v). set_record k v) (swept_undo ?picked) u"
        "res = Inl e" by (auto simp: release_swept_orphans_eq Let_def)
      note abort = ro.sweep_abort [OF inv save [unfolded Some] s'(1)]
      have "same_frame s s'" using fr same_frame_reverts same_frame_trans s'(1) by blast
      with same_state [OF inv abort] abort(2) s'(2) show ?thesis by simp
    qed
  qed
  then show "store_inv s'" and "store_evolves s s'" and "live_runner_count s' \<le> live_runner_count s"
    and "res = Inl e \<Longrightarrow> map_of (fs_records s') = map_of (fs_records s)"
    and "res = Inr n \<Longrightarrow> lookup_record s' k =
      map_option (\<lambda>r. if swept_orphan p cutoff r then forget_instance now r else r) (lookup_record s k)"
    and "same_frame s s'"
    by blast+
qed

lemma prune_deleted_step:
  assumes inv: "store_inv s" and run: "prune_deleted now s = (res, s')"
  shows "store_inv s'" and "store_evolves s s'" and "live_runner_count s' \<le> live_runner_count s"
    and "res = Inl e \<Longrightarrow> map_of (fs_records s') = map_of (fs_records s)"
    and "res = Inr n \<Longrightarrow> lookup_record s' k =
      (case lookup_record s k of None \<Rightarrow> None
       | Some r \<Rightarrow> if prunable (now - fs_deleted_retention s) r then None else Some r)"
    and "s' = s \<or> fs_keys_dirty s'"
proof -
  let ?c = "now - fs_deleted_retention s"
  let ?picked = "filter (\<lambda>(k, r). prunable ?c r) (fs_records s)"
  have "store_inv s' \<and> store_evolves s s' \<and> live_runner_count s' \<le> live_runner_count s \<and>
    (\<forall>e. res = Inl e \<longrightarrow> map_of (fs_records s') = map_of (fs_records s)) \<and>
    (\<forall>n. res = Inr n \<longrightarrow> lookup_record s' k = (case lookup_record s k of None \<Rightarrow> None
       | Some r \<Rightarrow> if prunable ?c r then None else Some r)) \<and> (s' = s \<or> fs_keys_dirty s')"
  proof (cases "?picked = []")
    case True
    with run inv have s': "s' = s" "res = Inr 0" by (auto simp: prune_deleted_eq Let_def)
    have "\<not> prunable ?c r" if "lookup_record s k = Some r" for r
      using True map_of_SomeD [OF that] by (auto simp: filter_empty_conv)
    with s' inv show ?thesis
      by (cases "lookup_record s k") (auto simp: store_evolves_same)
  next
    case False
    let ?t = "fold (\<lambda>(k, v). edit_record k v) (sweep_edits (prunable ?c) (\<lambda>r. None) (fs_records s))
      (s\<lparr>fs_keys_dirty := True\<rparr>)"
    obtain err u where save: "save_locked ?t = (err, u)" by fastforce
    have ok: "clean_ok (s\<lparr>fs_keys_dirty := True\<rparr>)" using inv by (simp add: store_inv_def)
    have fr: "fs_keys_dirty u" using txn_frame [OF ok save] by (simp add: same_frame_def)
    show ?thesis
    proof (cases err)
      case None
      with run inv False save have s': "s' = u" "res = Inr (length ?picked)"
        by (auto simp: prune_deleted_eq Let_def)
      note commit = pd.sweep_commit [OF inv save [unfolded None]]
      from commit(1-3) commit(4) [of k] s' fr show ?thesis by (auto split: option.split)
    next
      case (Some e)
      with run inv False save have
        s': "s' = (fold (\<lambda>(k, v). set_record k v) (swept_undo ?picked) u)\<lparr>fs_keys_dirty := True\<rparr>"
        "res = Inl e" by (auto simp: prune_deleted_eq Let_def)
      note abort = pd.sweep_abort [OF inv save [unfolded Some] refl]
      from same_state [OF inv abort] abort(2) s' show ?thesis by simp
    qed
  qed
  then show "store_inv s'" and "store_evolves s s'" and "live_runner_count s' \<le> live_runner_count s"
    and "res = Inl e \<Longrightarrow> map_of (fs_records s') = map_of (fs_records s)"
    and "res = Inr n \<Longrightarrow> lookup_record s' k =
      (case lookup_record s k of None \<Rightarrow> None
       | Some r \<Rightarrow> if prunable (now - fs_deleted_retention s) r then None else Some r)"
    and "s' = s \<or> fs_keys_dirty s'"
    by blast+
qed

end
