(* ===== verification/Store_Runs.thy ===== *)
theory Store_Runs
  imports Store_Claims Store_Sweeps
begin

text \<open>
  All operations of the store together: one constructor per mutating method, runs as lists of
  operations, and the invariant over every run. Each operation is given the clock reading it
  makes; the outcomes of its system calls come from the store's own list.
\<close>

section \<open>Operations\<close>

datatype store_op =
    OpUpdate string update_op
  | OpMarkProvisioned string string int string
  | OpMarkDeletionAccepted string string
  | OpObserveRunnerMissing string duration int
  | OpObserveGitHubMissing string duration int
  | OpBeginCleanupAttempt string int
  | OpMarkJITCreated string int string
  | OpCreate runner_record
  | OpRecordCompletion runner_record
  | OpClaimNext "go_error option" int
  | OpReleaseSweptOrphans string time
  | OpPruneDeleted
  | OpSetMaxLiveRunners int

text \<open>The error of an operation with a result.\<close>

fun failure :: "go_error + 'a \<Rightarrow> go_error option" where
  "failure (Inl e) = Some e"
| "failure (Inr a) = None"

fun exec_op :: "time \<Rightarrow> store_op \<Rightarrow> file_store \<Rightarrow> go_error option \<times> file_store" where
  "exec_op now (OpUpdate k u) s = update_record k (mutator now u) now s"
| "exec_op now (OpMarkProvisioned k i n nm) s = mark_provisioned k i n nm now s"
| "exec_op now (OpMarkDeletionAccepted k i) s = mark_deletion_accepted k i now s"
| "exec_op now (OpObserveRunnerMissing k d n) s =
     map_prod failure id (observe_runner_missing k now d n s)"
| "exec_op now (OpObserveGitHubMissing k d n) s =
     map_prod failure id (observe_github_runner_missing k now d n s)"
| "exec_op now (OpBeginCleanupAttempt k n) s =
     map_prod failure id (begin_cleanup_attempt k n now s)"
| "exec_op now (OpMarkJITCreated k i nm) s = mark_jit_created k i nm now s"
| "exec_op now (OpCreate r) s = map_prod failure id (create r now s)"
| "exec_op now (OpRecordCompletion r) s = record_completion r now s"
| "exec_op now (OpClaimNext c n) s = map_prod failure id (claim_next c now n s)"
| "exec_op now (OpReleaseSweptOrphans p t) s =
     map_prod failure id (release_swept_orphans p t now s)"
| "exec_op now OpPruneDeleted s = map_prod failure id (prune_deleted now s)"
| "exec_op now (OpSetMaxLiveRunners l) s = set_max_live_runners l s"

lemma failure_run: "map_prod failure id p = (err, s') \<Longrightarrow> \<exists>res. p = (res, s') \<and> err = failure res"
  by (cases p) simp

text \<open>\<open>FinishDeletedRunner\<close> is the update of its mutator, its extra result apart.\<close>

lemma finish_deleted_runner_exec:
  "map_prod failure id (finish_deleted_runner k q now s) = exec_op now (OpUpdate k (UFinishDeletedRunner q)) s"
  by (simp add: finish_deleted_runner_def Let_def split: prod.split option.split)

text \<open>What the callers guarantee: new records carry a request and nothing else.\<close>

fun op_wf :: "store_op \<Rightarrow> bool" where
  "op_wf (OpCreate r) = fresh_request r"
| "op_wf (OpRecordCompletion r) = fresh_request r"
| "op_wf (OpMarkJITCreated k i nm) = (\<not> is_marker_key k)"
| "op_wf _ = True"

section \<open>One operation\<close>

lemma update_record_cache:
  assumes "store_inv s" and "cache_ok s" and "update_record k f now s = (err, s')"
  shows "cache_ok s'"
proof (cases "lookup_record s k")
  case None
  with assms show ?thesis by (auto simp: update_record_def)
next
  case (Some r)
  with assms(3) replace_record_cache [OF assms(1,2) Some] show ?thesis
    by (simp add: update_record_def)
qed

lemma result_cache:
  assumes "store_inv s" and "cache_ok s" and "lookup_record s k = Some r"
    and "(case replace_record k r r' s of (Some e, s) \<Rightarrow> (Inl e, s) | (None, s) \<Rightarrow> (Inr a, s)) = (res, s')"
  shows "cache_ok s'"
  using assms(4) replace_record_cache [OF assms(1-3), of r']
  by (auto split: prod.splits option.splits)

lemma mark_jit_created_cache:
  assumes "store_inv s" and "cache_ok s" and run: "mark_jit_created k i n now s = (err, s')"
  shows "cache_ok s'"
proof -
  have ok: "clean_ok s" using assms(1) by (simp add: store_inv_def)
  from run ok show ?thesis
  proof (cases rule: mark_jit_created_cases)
    case (registered r m)
    let ?mk = "completion_marker_key (r_owner r) (r_repository r) i"
    have "dom (map_of (fs_records s')) = dom (map_of (fs_records s))"
      using registered(1,4,6)
      by (cases m) (auto simp: jit_edits_def live_marker_def split: option.splits if_splits)
    with registered show ?thesis by (intro cache_ok_frame [OF assms(2)]) auto
  next
    case failed
    then show ?thesis by (intro cache_ok_same_frame [OF assms(2)]) auto
  qed (use assms(2) in auto)
qed

lemma record_completion_cache:
  assumes "store_inv s" and "cache_ok s" and key: "\<not> is_marker_key (r_key c)"
    and run: "record_completion c now s = (err, s')"
  shows "cache_ok s'"
proof -
  have ok: "clean_ok s" using assms(1) by (simp add: store_inv_def)
  from run ok key show ?thesis
  proof (cases rule: record_completion_cases)
    case recorded
    show ?thesis
    proof (cases "adds_marker c s \<or> adds_tombstone c s")
      case True
      with recorded(5) show ?thesis by (intro cache_okI_dirty) simp
    next
      case False
      have "lookup_record s k \<noteq> None \<and> v \<noteq> None"
        if "(k, v) \<in> set (completion_edits c now s)" for k v
        using that False runner_target_Some
        by (auto simp: completion_edits_def runner_edit_def event_edit_def adds_marker_def
            adds_tombstone_def split: if_splits option.splits)
      then have edit: "lookup_record s k \<noteq> None \<and> v \<noteq> None"
        if "map_of (completion_edits c now s) k = Some v" for k v
        using map_of_SomeD [OF that] by blast
      have "(lookup_record s' k = None) = (lookup_record s k = None)" for k
        using edit [of k]
        by (cases "map_of (completion_edits c now s) k")
          (auto simp: record_completion_lookup [OF key recorded(3)])
      then have "dom (map_of (fs_records s')) = dom (map_of (fs_records s))"
        unfolding dom_def by simp
      with False recorded show ?thesis by (intro cache_ok_frame [OF assms(2)]) auto
    qed
  next
    case failed
    then show ?thesis by (intro cache_ok_same_frame [OF assms(2)]) auto
  qed
qed

lemma set_max_live_runners_step:
  "set_max_live_runners l s = (err, s') \<Longrightarrow>
   store_inv s' = store_inv s \<and> cache_ok s' = cache_ok s \<and> fs_records s' = fs_records s"
  by (auto simp: set_max_live_runners_def store_inv_def clean_ok_def store_ok_def dirty_covers_def
      records_inv_def cache_ok_def split: if_splits)

text \<open>
  Every operation, failed or not, keeps the invariant and evolves each record, save for a
  completion marker that a further completion of its runner writes anew.
\<close>

definition op_replaces_marker :: "store_op \<Rightarrow> time \<Rightarrow> file_store \<Rightarrow> string \<Rightarrow> bool" where
  "op_replaces_marker op now s' k \<longleftrightarrow>
     (case op of OpRecordCompletion c \<Rightarrow> marker_replaced c now s' k | _ \<Rightarrow> False)"

lemma op_replaces_marker_key: "op_replaces_marker op now s' k \<Longrightarrow> is_marker_key k"
  by (auto simp: op_replaces_marker_def marker_replaced_def split: store_op.splits)

lemma exec_op_evolves:
  assumes inv: "store_inv s" and cache: "cache_ok s" and wf: "op_wf op"
    and run: "exec_op now op s = (err, s')"
  shows "store_inv s' \<and> cache_ok s' \<and> (store_evolves s s' \<or>
    (\<exists>c. op = OpRecordCompletion c \<and> store_evolves_but (marker_replaced c now s') s s'))"
proof (cases op)
  case (OpUpdate k u)
  with um.update_step [OF inv] update_record_cache [OF inv cache] run show ?thesis by auto
next
  case (OpMarkProvisioned k i n nm)
  with run have mp: "mark_provisioned k i n nm now s = (err, s')" by simp
  from mark_provisioned_update [OF mp] obtain s1 m where
    up: "update_record k (mark_provisioned_mut now i n nm) now s = (err, s1)"
    and s': "s' = s1 \<or> s' = s1\<lparr>fs_runner_keys := m\<rparr>" .
  have "cache_ok s1" by (rule update_record_cache [OF inv cache up])
  with s' mark_provisioned_step [OF inv mp] show ?thesis by (auto simp: cache_ok_def)
next
  case (OpMarkDeletionAccepted k i)
  with run have mp: "mark_deletion_accepted k i now s = (err, s')" by simp
  then have "cache_ok s'"
    by (cases rule: mark_deletion_accepted_cases) (use inv cache replace_record_cache in auto)
  with mark_deletion_accepted_step [OF inv mp] show ?thesis by simp
next
  case (OpObserveRunnerMissing k d n)
  with run obtain res where mp: "observe_runner_missing k now d n s = (res, s')"
    by (auto dest: failure_run)
  then have "cache_ok s'"
    using cache result_cache [OF inv cache]
    by (cases "lookup_record s k") (auto simp: observe_runner_missing_def Let_def split: if_splits)
  with observe_runner_missing_step [OF inv mp] show ?thesis by simp
next
  case (OpObserveGitHubMissing k d n)
  with run obtain res where mp: "observe_github_runner_missing k now d n s = (res, s')"
    by (auto dest: failure_run)
  then have "cache_ok s'"
    using cache result_cache [OF inv cache]
    by (cases "lookup_record s k") (auto simp: observe_github_runner_missing_def Let_def split: if_splits)
  with observe_github_runner_missing_step [OF inv mp] show ?thesis by simp
next
  case (OpBeginCleanupAttempt k n)
  with run obtain res where mp: "begin_cleanup_attempt k n now s = (res, s')"
    by (auto dest: failure_run)
  then have "cache_ok s'"
    using cache result_cache [OF inv cache]
    by (cases "lookup_record s k") (auto simp: begin_cleanup_attempt_def Let_def split: if_splits)
  with begin_cleanup_attempt_step [OF inv mp] show ?thesis by simp
next
  case (OpMarkJITCreated k i nm)
  with mark_jit_created_step [OF inv] mark_jit_created_cache [OF inv cache] run show ?thesis by auto
next
  case (OpCreate r)
  with run obtain res where cr: "create r now s = (res, s')"
    by (auto dest: failure_run)
  have "clean_ok s" using inv by (simp add: store_inv_def)
  with cr have "cache_ok s'"
    by (cases rule: create_cases) (use cache in \<open>auto intro: cache_okI_dirty\<close>)
  with create_step [OF inv _ cr] wf OpCreate show ?thesis by simp
next
  case (OpRecordCompletion r)
  with wf have "\<not> is_marker_key (r_key r)" by (simp add: fresh_request_def)
  with record_completion_step [OF inv] record_completion_cache [OF inv cache] run wf OpRecordCompletion
  show ?thesis by auto
next
  case (OpClaimNext c n)
  with run obtain res where cl: "claim_next c now n s = (res, s')"
    by (auto dest: failure_run)
  from claim_next_spec(1-3) [OF inv cache cl] scan_evolves_store show ?thesis by blast
next
  case (OpReleaseSweptOrphans p t)
  with run obtain res where rs: "release_swept_orphans p t now s = (res, s')"
    by (auto dest: failure_run)
  note step = release_swept_orphans_step [OF inv rs]
  have "dom (map_of (fs_records s')) = dom (map_of (fs_records s))"
    by (cases res) (auto simp: dom_def step(4,5))
  with cache_ok_same_frame [OF cache step(6)] step(1,2) show ?thesis by simp
next
  case OpPruneDeleted
  with run obtain res where pd: "prune_deleted now s = (res, s')"
    by (auto dest: failure_run)
  note step = prune_deleted_step [OF inv pd]
  from step(6) cache have "cache_ok s'" by (auto intro: cache_okI_dirty)
  with step(1,2) show ?thesis by simp
next
  case (OpSetMaxLiveRunners l)
  with run set_max_live_runners_step [of l s err s'] inv cache show ?thesis
    by (simp add: store_evolves_same)
qed

lemma exec_op_step:
  assumes "store_inv s" and "cache_ok s" and "op_wf op" and "exec_op now op s = (err, s')"
  shows "store_inv s' \<and> cache_ok s' \<and> store_evolves_but (op_replaces_marker op now s') s s'"
  using exec_op_evolves [OF assms]
  by (auto simp: op_replaces_marker_def store_evolves_but_def)

text \<open>
  An operation that reports an error has changed no record. \<open>ClaimNext\<close> is the exception: it may
  have settled exhausted records, each one saved, before the save that failed.
\<close>

fun settles :: "store_op \<Rightarrow> bool" where
  "settles (OpClaimNext c n) = True"
| "settles _ = False"

lemma result_failed:
  assumes "store_inv s" and "lookup_record s k = Some r"
    and "(case replace_record k r r' s of (Some e, s) \<Rightarrow> (Inl e, s) | (None, s) \<Rightarrow> (Inr a, s)) =
      (Inl e', s')"
  shows "map_of (fs_records s') = map_of (fs_records s)"
proof -
  have "clean_ok s" using assms(1) by (simp add: store_inv_def)
  from replace_record_spec(3) [OF this assms(2), of r'] assms(3) show ?thesis
    by (auto split: prod.splits option.splits)
qed

lemma failure_Some:
  "failure res = Some e \<longleftrightarrow> res = Inl e" "Some e = failure res \<longleftrightarrow> res = Inl e"
  by (cases res; auto)+

lemma exec_op_failed:
  assumes inv: "store_inv s" and wf: "op_wf op" and settles: "\<not> settles op"
    and run: "exec_op now op s = (Some e, s')"
  shows "map_of (fs_records s') = map_of (fs_records s)"
proof (cases op)
  case (OpUpdate k u)
  with um.update_step [OF inv] run show ?thesis by auto
next
  case (OpMarkProvisioned k i n nm)
  with mark_provisioned_step [OF inv] run show ?thesis by auto
next
  case (OpMarkDeletionAccepted k i)
  with mark_deletion_accepted_step [OF inv] run show ?thesis by auto
next
  case (OpObserveRunnerMissing k d n)
  with run have "observe_runner_missing k now d n s = (Inl e, s')"
    by (auto dest!: failure_run simp: failure_Some)
  then show ?thesis
    using result_failed [OF inv]
    by (cases "lookup_record s k") (auto simp: observe_runner_missing_def Let_def split: if_splits)
next
  case (OpObserveGitHubMissing k d n)
  with run have "observe_github_runner_missing k now d n s = (Inl e, s')"
    by (auto dest!: failure_run simp: failure_Some)
  then show ?thesis
    using result_failed [OF inv]
    by (cases "lookup_record s k") (auto simp: observe_github_runner_missing_def Let_def split: if_splits)
next
  case (OpBeginCleanupAttempt k n)
  with run have "begin_cleanup_attempt k n now s = (Inl e, s')"
    by (auto dest!: failure_run simp: failure_Some)
  then show ?thesis
    using result_failed [OF inv]
    by (cases "lookup_record s k") (auto simp: begin_cleanup_attempt_def Let_def split: if_splits)
next
  case (OpMarkJITCreated k i nm)
  with mark_jit_created_step [OF inv] run show ?thesis by auto
next
  case (OpCreate r)
  with run have cr: "create r now s = (Inl e, s')"
    by (auto dest!: failure_run simp: failure_Some)
  have "clean_ok s" using inv by (simp add: store_inv_def)
  with cr show ?thesis by (cases rule: create_cases) auto
next
  case (OpRecordCompletion r)
  with record_completion_step [OF inv] run wf show ?thesis by auto
next
  case (OpReleaseSweptOrphans p t)
  with run have "release_swept_orphans p t now s = (Inl e, s')"
    by (auto dest!: failure_run simp: failure_Some)
  from release_swept_orphans_step(4) [OF inv this] show ?thesis by simp
next
  case OpPruneDeleted
  with run have "prune_deleted now s = (Inl e, s')"
    by (auto dest!: failure_run simp: failure_Some)
  from prune_deleted_step(4) [OF inv this] show ?thesis by simp
next
  case (OpSetMaxLiveRunners l)
  with run set_max_live_runners_step [of l s "Some e" s'] show ?thesis by simp
qed (use settles in simp)

lemma exec_op_failed_records:
  assumes inv: "store_inv s" and cache: "cache_ok s" and wf: "op_wf op"
    and run: "exec_op now op s = (Some e, s')"
  shows "lookup_record s' k = lookup_record s k \<or>
    (\<exists>ctx n r r'. op = OpClaimNext ctx n \<and> lookup_record s k = Some r \<and>
      exhaustion_outcome now n r r' \<and> lookup_record s' k = Some r')"
proof (cases "settles op")
  case False
  from exec_op_failed [OF inv wf False run] show ?thesis by simp
next
  case True
  then obtain ctx n where op: "op = OpClaimNext ctx n" by (cases op) auto
  with run have claim: "claim_next ctx now n s = (Inl e, s')"
    by (auto dest!: failure_run simp: failure_Some)
  show ?thesis
  proof (cases ctx)
    case (Some err)
    with claim show ?thesis by (simp add: claim_next_def)
  next
    case None
    obtain keys t where keys: "ordered_keys s = (keys, t)" by fastforce
    have t: "store_inv t" "fs_records t = fs_records s"
      using inv ordered_keys_spec [OF _ cache keys] by (auto simp: store_inv_def)
    from claim None keys have "claim_loop keys (int (live_runner_count t)) now n t = (Inl e, s')"
      by (simp add: claim_next_def)
    from claim_loop_failed [OF t(1) this, of k] t(2) op show ?thesis by simp
  qed
qed

section \<open>Admission\<close>

text \<open>
  The guard under which an operation cannot raise the number of live runners by itself: only
  a record that already counts is marked provisioned or registered, and no completion event
  names the registration of an orphan without an instance.
\<close>

fun op_admits :: "file_store \<Rightarrow> store_op \<Rightarrow> bool" where
  "op_admits s (OpMarkProvisioned k i n nm) =
     (case lookup_record s k of None \<Rightarrow> True | Some r \<Rightarrow> is_live r \<or> retired r)"
| "op_admits s (OpMarkJITCreated k i nm) =
     (case lookup_record s k of None \<Rightarrow> True | Some r \<Rightarrow> is_live r \<or> retired r)"
| "op_admits s (OpRecordCompletion c) =
     (case runner_target c s of None \<Rightarrow> True
      | Some (k, r) \<Rightarrow> r_status r = StatusOrphaned \<longrightarrow> r_instance_id r \<noteq> [])"
| "op_admits s op = True"

lemma exec_op_live:
  assumes inv: "store_inv s" and cache: "cache_ok s" and wf: "op_wf op" and adm: "op_admits s op"
    and run: "exec_op now op s = (err, s')"
  shows "int (live_runner_count s') \<le> max (int (live_runner_count s)) (fs_max_live_runners s)"
proof (cases "settles op")
  case True
  then obtain c n where "op = OpClaimNext c n" by (cases op) auto
  with run obtain res where "claim_next c now n s = (res, s')" by (auto dest: failure_run)
  from claim_next_spec(4) [OF inv cache this] show ?thesis .
next
  case False
  have "live_runner_count s' \<le> live_runner_count s"
  proof (cases op)
    case (OpUpdate k u)
    with um.update_live_le [OF inv] run show ?thesis by auto
  next
    case (OpMarkProvisioned k i n nm)
    with run adm show ?thesis by (intro mark_provisioned_live [OF inv]) auto
  next
    case (OpMarkDeletionAccepted k i)
    with mark_deletion_accepted_step [OF inv] run show ?thesis by auto
  next
    case (OpObserveRunnerMissing k d n)
    with run observe_runner_missing_step [OF inv] show ?thesis by (auto dest: failure_run)
  next
    case (OpObserveGitHubMissing k d n)
    with run observe_github_runner_missing_step [OF inv] show ?thesis by (auto dest: failure_run)
  next
    case (OpBeginCleanupAttempt k n)
    with run begin_cleanup_attempt_step [OF inv] show ?thesis by (auto dest: failure_run)
  next
    case (OpMarkJITCreated k i nm)
    with run adm wf show ?thesis by (intro mark_jit_created_live [OF inv]) auto
  next
    case (OpCreate r)
    with run wf create_step [OF inv] show ?thesis by (auto dest!: failure_run)
  next
    case (OpRecordCompletion r)
    with run adm wf show ?thesis by (intro record_completion_live [OF inv]) auto
  next
    case (OpReleaseSweptOrphans p t)
    with run release_swept_orphans_step(3) [OF inv] show ?thesis by (auto dest: failure_run)
  next
    case OpPruneDeleted
    with run prune_deleted_step(3) [OF inv] show ?thesis by (auto dest: failure_run)
  next
    case (OpSetMaxLiveRunners l)
    with run set_max_live_runners_step [of l s err s'] show ?thesis
      by (simp add: live_runner_count_def)
  qed (use False in simp)
  then show ?thesis by simp
qed

section \<open>Runs\<close>

fun exec_ops :: "(time \<times> store_op) list \<Rightarrow> file_store \<Rightarrow> file_store" where
  "exec_ops [] s = s"
| "exec_ops ((now, op) # ops) s = exec_ops ops (snd (exec_op now op s))"

text \<open>
  A property that every single operation keeps holds after every run: the shape of all the
  invariants over runs.
\<close>

locale op_invariant =
  fixes holds :: "file_store \<Rightarrow> bool" and allowed :: "file_store \<Rightarrow> store_op \<Rightarrow> bool"
  assumes keeps: "holds s \<Longrightarrow> allowed s op \<Longrightarrow> exec_op now op s = (err, s') \<Longrightarrow> holds s'"
begin

fun allowed_run :: "(time \<times> store_op) list \<Rightarrow> file_store \<Rightarrow> bool" where
  "allowed_run [] s = True"
| "allowed_run ((now, op) # ops) s = (allowed s op \<and> allowed_run ops (snd (exec_op now op s)))"

lemma run_keeps: "holds s \<Longrightarrow> allowed_run ops s \<Longrightarrow> holds (exec_ops ops s)"
proof (induction ops arbitrary: s)
  case (Cons e ops)
  obtain now op where e: "e = (now, op)" by fastforce
  obtain err s' where "exec_op now op s = (err, s')" by fastforce
  with Cons e keeps show ?case by auto
qed simp

lemma allowed_run_stateless:
  assumes "\<And>s. allowed s = (\<lambda>op. p op)" and "\<forall>(now, op) \<in> set ops. p op"
  shows "allowed_run ops s"
  using assms(2) by (induction ops arbitrary: s) (auto simp: assms(1))

end

interpretation oi: op_invariant "\<lambda>s. store_inv s \<and> cache_ok s" "\<lambda>s. op_wf"
  by unfold_locales (use exec_op_step in blast)

text \<open>The configuration of the store, which only its own method changes.\<close>

definition config :: "file_store \<Rightarrow> int \<times> duration \<times> bool \<times> bool" where
  "config s = (fs_max_live_runners s, fs_deleted_retention s, fs_closed s, fs_locked s)"

lemma config_simps [simp]:
  "config (put_record k r s) = config s" "config (drop_record k s) = config s"
  "config (mark_dirty k s) = config s" "config (set_record k v s) = config s"
  "config (edit_record k v s) = config s" "config (s\<lparr>fs_keys_dirty := b\<rparr>) = config s"
  "config (s\<lparr>fs_runner_keys := m\<rparr>) = config s" "config (s\<lparr>fs_ordered_keys := ks\<rparr>) = config s"
  by (simp_all add: config_def edit_defs split: option.split)

lemma config_core: "core s = core t \<Longrightarrow> config s = config t"
  using core_fields [of s t] by (simp add: config_def)

lemma save_core: "save_locked s = (err, s') \<Longrightarrow> core s' = core s"
  using compact_locked_core
  by (auto simp: save_locked_def Let_def next_io_def split: option.splits list.splits prod.splits if_splits)
    (auto simp: core_def)

lemma save_config [simp]: "save_locked s = (err, s') \<Longrightarrow> config s' = config s"
  by (rule config_core) (rule save_core)

lemma folds_config [simp]:
  "config (fold (\<lambda>(k, v). edit_record k v) es s) = config s"
  "config (rollback us s) = config s" "config (restore_all rs s) = config s"
  "config (snd (release_swept_loop rs p c now b s)) = config s"
  "config (snd (prune_loop rs c b s)) = config s"
proof -
  show "config (fold (\<lambda>(k, v). edit_record k v) es s) = config s"
    by (induction es arbitrary: s) auto
  show "config (rollback us s) = config s" by (induction us s rule: rollback.induct) auto
  show "config (restore_all rs s) = config s" by (induction rs s rule: restore_all.induct) auto
  show "config (snd (release_swept_loop rs p c now b s)) = config s"
    by (induction rs p c now b s rule: release_swept_loop.induct) auto
  show "config (snd (prune_loop rs c b s)) = config s"
    by (induction rs c b s rule: prune_loop.induct) auto
qed

lemma loops_config:
  "release_swept_loop rs p c now b s = (x, t) \<Longrightarrow> config t = config s"
  "prune_loop rs c b s = (x, t) \<Longrightarrow> config t = config s"
  using folds_config(4) [of rs p c now b s] folds_config(5) [of rs c b s] by simp_all

lemma saved_config: "save_locked t = (err, s') \<Longrightarrow> config t = config s \<Longrightarrow> config s' = config s"
  by simp

lemma replace_record_config: "replace_record k b r s = (err, s') \<Longrightarrow> config s' = config s"
  by (auto simp: replace_record_def split: prod.splits option.splits dest!: saved_config)

lemma update_record_config: "update_record k f now s = (err, s') \<Longrightarrow> config s' = config s"
  by (auto simp: update_record_def split: option.splits dest!: replace_record_config)

lemma claim_loop_config: "claim_loop ks live now n s = (res, s') \<Longrightarrow> config s' = config s"
proof (induction ks live now n s rule: claim_loop.induct)
  case (2 key keys live now n s)
  show ?case
    using "2.prems" "2.IH"
    by (auto simp: Let_def split: if_splits prod.splits option.splits dest!: replace_record_config)
qed auto

lemma reconcile_config:
  "reconcile_runner_completion c now b s = (x, b', t) \<Longrightarrow> config t = config s"
  "reconcile_event_completion c mk now b s = (b', t) \<Longrightarrow> config t = config s"
  by (auto simp: reconcile_runner_completion_def add_completion_marker_def Let_def
      reconcile_event_completion_def split: if_splits option.splits)

lemma exec_op_config:
  assumes run: "exec_op now op s = (err, s')" and op: "\<And>l. op \<noteq> OpSetMaxLiveRunners l"
  shows "config s' = config s"
proof (cases op)
  case (OpUpdate k u)
  with run update_record_config show ?thesis by auto
next
  case (OpMarkProvisioned k i n nm)
  with run have "mark_provisioned k i n nm now s = (err, s')" by simp
  from mark_provisioned_update [OF this] obtain s1 m where
    "update_record k (mark_provisioned_mut now i n nm) now s = (err, s1)"
    "s' = s1 \<or> s' = s1\<lparr>fs_runner_keys := m\<rparr>" .
  with update_record_config show ?thesis by auto
next
  case (OpMarkDeletionAccepted k i)
  with run show ?thesis
    by (auto simp: mark_deletion_accepted_def Let_def split: option.splits if_splits
        dest!: replace_record_config)
next
  case (OpObserveRunnerMissing k d n)
  with run show ?thesis
    by (auto simp: observe_runner_missing_def Let_def split: option.splits if_splits prod.splits
        dest!: failure_run replace_record_config)
next
  case (OpObserveGitHubMissing k d n)
  with run show ?thesis
    by (auto simp: observe_github_runner_missing_def Let_def split: option.splits if_splits prod.splits
        dest!: failure_run replace_record_config)
next
  case (OpBeginCleanupAttempt k n)
  with run show ?thesis
    by (auto simp: begin_cleanup_attempt_def Let_def split: option.splits if_splits prod.splits
        dest!: failure_run replace_record_config)
next
  case (OpMarkJITCreated k i nm)
  with run show ?thesis
    by (auto simp: mark_jit_created_def Let_def split: option.splits if_splits prod.splits
        dest!: saved_config [where s = s])
next
  case (OpCreate r)
  with run show ?thesis
    by (auto simp: create_def Let_def split: option.splits prod.splits
        dest!: failure_run saved_config [where s = s])
next
  case (OpRecordCompletion r)
  with run show ?thesis
    by (auto simp: record_completion_def Let_def split: option.splits prod.splits
        dest!: reconcile_config saved_config [where s = s])
next
  case (OpClaimNext c n)
  with run show ?thesis
    by (auto simp: claim_next_def ordered_keys_def Let_def split: option.splits prod.splits if_splits
        dest!: failure_run claim_loop_config)
next
  case (OpReleaseSweptOrphans p t)
  with run show ?thesis
    by (auto simp: release_swept_orphans_def Let_def split: option.splits prod.splits if_splits
        dest!: failure_run loops_config saved_config [where s = s])
next
  case OpPruneDeleted
  with run show ?thesis
    by (auto simp: prune_deleted_def Let_def split: option.splits prod.splits if_splits
        dest!: failure_run loops_config saved_config [where s = s])
qed (use op in simp)

section \<open>Admission over runs\<close>

definition within_ceiling :: "file_store \<Rightarrow> bool" where
  "within_ceiling s \<longleftrightarrow> int (live_runner_count s) \<le> fs_max_live_runners s"

definition op_guarded :: "file_store \<Rightarrow> store_op \<Rightarrow> bool" where
  "op_guarded s op \<longleftrightarrow> op_wf op \<and> op_admits s op \<and>
     (case op of OpSetMaxLiveRunners l \<Rightarrow> l \<le> 0 \<or> fs_max_live_runners s \<le> l | _ \<Rightarrow> True)"

lemma exec_op_ceiling:
  assumes "store_inv s" and "cache_ok s" and "within_ceiling s" and "op_guarded s op"
    and run: "exec_op now op s = (err, s')"
  shows "within_ceiling s'"
proof (cases "\<exists>l. op = OpSetMaxLiveRunners l")
  case True
  then obtain l where op: "op = OpSetMaxLiveRunners l" ..
  with run assms(3,4) show ?thesis
    by (auto simp: set_max_live_runners_def within_ceiling_def op_guarded_def live_runner_count_def
        split: if_splits)
next
  case False
  have "fs_max_live_runners s' = fs_max_live_runners s"
    using exec_op_config [OF run] False by (auto simp: config_def)
  with exec_op_live [OF assms(1,2) _ _ run] assms(3,4) show ?thesis
    by (auto simp: within_ceiling_def op_guarded_def)
qed

interpretation ad: op_invariant "\<lambda>s. store_inv s \<and> cache_ok s \<and> within_ceiling s" op_guarded
proof (unfold_locales, elim conjE)
  fix s op now err s'
  assume inv: "store_inv s" "cache_ok s" and ceil: "within_ceiling s" and ok: "op_guarded s op"
    and run: "exec_op now op s = (err, s')"
  have "op_wf op" using ok by (simp add: op_guarded_def)
  from exec_op_step [OF inv this run] exec_op_ceiling [OF inv ceil ok run]
  show "store_inv s' \<and> cache_ok s' \<and> within_ceiling s'" by simp
qed

text \<open>A guarded run, as a function over the operations it executes.\<close>

fun guarded_run :: "(time \<times> store_op) list \<Rightarrow> file_store \<Rightarrow> bool" where
  "guarded_run [] s = True"
| "guarded_run ((now, op) # ops) s =
     (op_guarded s op \<and> guarded_run ops (snd (exec_op now op s)))"

lemma guarded_run_allowed: "guarded_run ops s = ad.allowed_run ops s"
  by (induction ops s rule: guarded_run.induct) auto

section \<open>The empty store\<close>

definition fresh_store :: file_store where
  "fresh_store = \<lparr>fs_locked = True, fs_closed = False, fs_records = [], fs_persisted = [],
     fs_dirty_keys = [], fs_runner_keys = [], fs_deleted_retention = default_deleted_retention,
     fs_ordered_keys = [], fs_keys_dirty = True, fs_journal_entries = 0, fs_journal_bytes = 0,
     fs_max_live_runners = 20, fs_disk = empty_disk, fs_io = []\<rparr>"

lemma fresh_store_inv: "store_inv fresh_store" "cache_ok fresh_store" "within_ceiling fresh_store"
  by (simp_all add: fresh_store_def store_inv_def clean_ok_def store_ok_def dirty_covers_def
      records_inv_def cache_ok_def within_ceiling_def live_runner_count_def disk_holds_def disk_wf_def
      empty_disk_def)

section \<open>Only pruning removes records\<close>

lemma replaced_dom:
  assumes "store_inv s" and "lookup_record s k = Some r" and "replace_record k r r' s = (err, s')"
  shows "dom (map_of (fs_records s)) \<subseteq> dom (map_of (fs_records s'))"
proof -
  have "clean_ok s" using assms(1) by (simp add: store_inv_def)
  from replace_record_spec(3) [OF this assms(2,3)] show ?thesis by auto
qed

lemma updated_dom:
  assumes "store_inv s" and "update_record k f now s = (err, s')"
  shows "dom (map_of (fs_records s)) \<subseteq> dom (map_of (fs_records s'))"
proof (cases "lookup_record s k")
  case None
  with assms show ?thesis by (simp add: update_record_def)
next
  case (Some r)
  with assms(2) have "replace_record k r ((f r)\<lparr>r_updated_at := now\<rparr>) s = (err, s')"
    by (simp add: update_record_def)
  from replaced_dom [OF assms(1) Some this] show ?thesis .
qed

lemma result_dom:
  assumes "store_inv s" and "lookup_record s k = Some r"
    and "(case replace_record k r r' s of (Some e, s) \<Rightarrow> (Inl e, s) | (None, s) \<Rightarrow> (Inr a, s)) = (res, s')"
  shows "dom (map_of (fs_records s)) \<subseteq> dom (map_of (fs_records s'))"
  using assms(3) replaced_dom [OF assms(1,2), of r'] by (auto split: prod.splits option.splits)

lemma fold_upd_dom:
  "\<forall>(k, v) \<in> set es. v \<noteq> None \<Longrightarrow> dom m \<subseteq> dom (fold (\<lambda>(k, v) m. m(k := v)) es m)"
proof (induction es arbitrary: m)
  case (Cons e es)
  obtain k v where e: "e = (k, v)" by fastforce
  have "dom m \<subseteq> dom (m(k := v))" using Cons.prems e by auto
  also have "\<dots> \<subseteq> dom (fold (\<lambda>(k, v) m. m(k := v)) es (m(k := v)))"
    by (rule Cons.IH) (use Cons.prems in simp)
  finally show ?case by (simp add: e del: fun_upd_apply)
qed simp

lemma observe_runner_missing_dom:
  assumes "store_inv s" and "observe_runner_missing k now d n s = (res, s')"
  shows "dom (map_of (fs_records s)) \<subseteq> dom (map_of (fs_records s'))"
proof (cases "lookup_record s k")
  case None
  with assms(2) show ?thesis by (simp add: observe_runner_missing_def)
next
  case (Some r)
  with assms(2) show ?thesis
    by (simp add: observe_runner_missing_def Let_def split: if_splits)
      (rule result_dom [OF assms(1) Some], assumption)+
qed

lemma observe_github_runner_missing_dom:
  assumes "store_inv s" and "observe_github_runner_missing k now d n s = (res, s')"
  shows "dom (map_of (fs_records s)) \<subseteq> dom (map_of (fs_records s'))"
proof (cases "lookup_record s k")
  case None
  with assms(2) show ?thesis by (simp add: observe_github_runner_missing_def)
next
  case (Some r)
  with assms(2) show ?thesis
    by (simp add: observe_github_runner_missing_def Let_def split: if_splits)
      (rule result_dom [OF assms(1) Some], assumption)+
qed

lemma begin_cleanup_attempt_dom:
  assumes "store_inv s" and "begin_cleanup_attempt k n now s = (res, s')"
  shows "dom (map_of (fs_records s)) \<subseteq> dom (map_of (fs_records s'))"
proof (cases "lookup_record s k")
  case None
  with assms(2) show ?thesis by (simp add: begin_cleanup_attempt_def)
next
  case (Some r)
  with assms(2) show ?thesis
    by (simp add: begin_cleanup_attempt_def Let_def split: if_splits)
      (rule result_dom [OF assms(1) Some], assumption)+
qed

lemma exec_op_dom:
  assumes inv: "store_inv s" and cache: "cache_ok s" and wf: "op_wf op"
    and run: "exec_op now op s = (err, s')" and op: "op \<noteq> OpPruneDeleted"
  shows "dom (map_of (fs_records s)) \<subseteq> dom (map_of (fs_records s'))"
proof (cases op)
  case (OpUpdate k u)
  with run have "update_record k (mutator now u) now s = (err, s')" by simp
  from updated_dom [OF inv this] show ?thesis .
next
  case (OpMarkProvisioned k i n nm)
  with run have "mark_provisioned k i n nm now s = (err, s')" by simp
  from mark_provisioned_update [OF this] obtain s1 m where
    "update_record k (mark_provisioned_mut now i n nm) now s = (err, s1)"
    and s': "s' = s1 \<or> s' = s1\<lparr>fs_runner_keys := m\<rparr>" .
  from updated_dom [OF inv this(1)] s' show ?thesis by (elim disjE) simp_all
next
  case (OpMarkDeletionAccepted k i)
  with run have "mark_deletion_accepted k i now s = (err, s')" by simp
  then show ?thesis
    by (cases rule: mark_deletion_accepted_cases) (use replaced_dom [OF inv] in auto)
next
  case (OpObserveRunnerMissing k d n)
  with run obtain res where "observe_runner_missing k now d n s = (res, s')"
    by (auto dest: failure_run)
  from observe_runner_missing_dom [OF inv this] show ?thesis .
next
  case (OpObserveGitHubMissing k d n)
  with run obtain res where "observe_github_runner_missing k now d n s = (res, s')"
    by (auto dest: failure_run)
  from observe_github_runner_missing_dom [OF inv this] show ?thesis .
next
  case (OpBeginCleanupAttempt k n)
  with run obtain res where "begin_cleanup_attempt k n now s = (res, s')"
    by (auto dest: failure_run)
  from begin_cleanup_attempt_dom [OF inv this] show ?thesis .
next
  case (OpMarkJITCreated k i nm)
  with run have mj: "mark_jit_created k i nm now s = (err, s')" by simp
  have "clean_ok s" using inv by (simp add: store_inv_def)
  with mj show ?thesis
  proof (cases rule: mark_jit_created_cases)
    case (registered r m)
    then show ?thesis
      unfolding registered(6)
      by (intro fold_upd_dom) (auto simp: jit_edits_def split: option.splits)
  qed auto
next
  case (OpCreate r)
  with run obtain res where cr: "create r now s = (res, s')" by (auto dest: failure_run)
  have "clean_ok s" using inv by (simp add: store_inv_def)
  with cr show ?thesis by (cases rule: create_cases) auto
next
  case (OpRecordCompletion r)
  with run have rc: "record_completion r now s = (err, s')" by simp
  have ok: "clean_ok s" using inv by (simp add: store_inv_def)
  have key: "\<not> is_marker_key (r_key r)" using wf OpRecordCompletion by (simp add: fresh_request_def)
  from rc ok key show ?thesis
  proof (cases rule: record_completion_cases)
    case recorded
    then show ?thesis
      unfolding recorded(3) by (intro fold_upd_dom) (auto elim: completion_edits_cases)
  qed auto
next
  case (OpClaimNext c n)
  with run obtain res where cl: "claim_next c now n s = (res, s')" by (auto dest: failure_run)
  from scan_evolves_dom [OF claim_next_spec(3) [OF inv cache cl]] show ?thesis by simp
next
  case (OpReleaseSweptOrphans p t)
  with run obtain res where rs: "release_swept_orphans p t now s = (res, s')"
    by (auto dest: failure_run)
  show ?thesis
    using release_swept_orphans_step(4,5) [OF inv rs] by (cases res) (auto simp: dom_def)
next
  case (OpSetMaxLiveRunners l)
  with run set_max_live_runners_step [of l s err s'] show ?thesis by simp
qed (use op in simp)

end
