(* ===== verification/Go_Text.thy ===== *)
theory Go_Text
  imports Go_Prelude
begin

text \<open>
  The parts of \<open>strconv\<close>, \<open>encoding/hex\<close>, \<open>encoding/base64\<close> and \<open>regexp\<close> that the
  controller uses on ASCII text: character classes, decimal parsing with the range of \<open>int64\<close>,
  hexadecimal coding, and the anchored patterns for names and identifiers.
\<close>

section \<open>Character classes\<close>

definition code :: "char \<Rightarrow> nat" where
  "code c = of_char c"

definition is_digit :: "char \<Rightarrow> bool" where
  [go_defs]: "is_digit c \<longleftrightarrow> 48 \<le> code c \<and> code c \<le> 57"

definition is_lower :: "char \<Rightarrow> bool" where
  [go_defs]: "is_lower c \<longleftrightarrow> 97 \<le> code c \<and> code c \<le> 122"

definition is_upper :: "char \<Rightarrow> bool" where
  [go_defs]: "is_upper c \<longleftrightarrow> 65 \<le> code c \<and> code c \<le> 90"

definition is_alnum :: "char \<Rightarrow> bool" where
  [go_defs]: "is_alnum c \<longleftrightarrow> is_digit c \<or> is_lower c \<or> is_upper c"

definition is_hex :: "char \<Rightarrow> bool" where
  [go_defs]: "is_hex c \<longleftrightarrow>
    is_digit c \<or> (97 \<le> code c \<and> code c \<le> 102) \<or> (65 \<le> code c \<and> code c \<le> 70)"

lemma code_lt_256: "code c < 256"
  by (simp add: code_def of_char_lt_256)

lemma code_char_of: "n < 256 \<Longrightarrow> code (char_of (n :: nat)) = n"
  by (simp add: code_def)

section \<open>Decimal parsing\<close>

definition max_int64 :: int where
  "max_int64 = 9223372036854775807"

definition min_int64 :: int where
  "min_int64 = - 9223372036854775808"

fun digits_value :: "nat \<Rightarrow> string \<Rightarrow> nat option" where
  "digits_value n [] = Some n"
| "digits_value n (c # cs) = (if is_digit c then digits_value (10 * n + (code c - 48)) cs else None)"

text \<open>Two's complement arithmetic of \<open>int64\<close>: \<open>wrap64\<close> reduces a result to the type. The parser is
  \<open>strconv.ParseInt(s, 10, 64)\<close>, and \<open>strconv.Atoi\<close> on a 64-bit machine.\<close>

definition wrap64 :: "int \<Rightarrow> int" where
  "wrap64 i = (i + 9223372036854775808) mod 18446744073709551616 - 9223372036854775808"

lemma wrap64_id [simp]: "min_int64 \<le> i \<Longrightarrow> i \<le> max_int64 \<Longrightarrow> wrap64 i = i"
  by (simp add: wrap64_def min_int64_def max_int64_def)

lemma wrap64_range: "min_int64 \<le> wrap64 i" "wrap64 i \<le> max_int64"
proof -
  have "0 \<le> (i + 9223372036854775808) mod 18446744073709551616"
    "(i + 9223372036854775808) mod 18446744073709551616 < 18446744073709551616"
    by simp_all
  then show "min_int64 \<le> wrap64 i" "wrap64 i \<le> max_int64"
    unfolding wrap64_def min_int64_def max_int64_def by linarith+
qed

definition in_int64 :: "int \<Rightarrow> int option" where
  "in_int64 i = (if min_int64 \<le> i \<and> i \<le> max_int64 then Some i else None)"

definition parse_digits :: "string \<Rightarrow> nat option" where
  "parse_digits s = (if s = [] then None else digits_value 0 s)"

definition parse_int :: "string \<Rightarrow> int option" where
  "parse_int s =
    (case s of
       [] \<Rightarrow> None
     | c # cs \<Rightarrow>
         if c = CHR ''-'' then Option.bind (parse_digits cs) (\<lambda>n. in_int64 (- int n))
         else if c = CHR ''+'' then Option.bind (parse_digits cs) (\<lambda>n. in_int64 (int n))
         else Option.bind (parse_digits s) (\<lambda>n. in_int64 (int n)))"

lemma digits_value_append:
  "digits_value n (xs @ ys) = Option.bind (digits_value n xs) (\<lambda>m. digits_value m ys)"
  by (induction xs arbitrary: n) auto

lemma digit_char_code: "d < 10 \<Longrightarrow> code (digit_char d) = 48 + d"
  by (simp add: digit_char_def code_char_of)

lemma digits_value_show_nat: "digits_value 0 (show_nat n) = Some n"
proof (induction n rule: show_nat.induct)
  case (1 n)
  then show ?case
    by (cases "n < 10")
      (simp_all add: show_nat.simps [of n] digits_value_append digit_char_code is_digit_def)
qed

lemma show_nat_not_sign: "show_nat n = c # cs \<Longrightarrow> c \<noteq> CHR ''-'' \<and> c \<noteq> CHR ''+''"
  using show_nat_digits [of c n] by auto

lemma parse_int_itoa_range:
  "parse_int (itoa i) = (if min_int64 \<le> i \<and> i \<le> max_int64 then Some i else None)"
proof (cases "i < 0")
  case True
  then show ?thesis
    by (simp add: parse_int_def itoa_def parse_digits_def digits_value_show_nat in_int64_def)
next
  case False
  obtain c cs where dg: "show_nat (nat i) = c # cs" by (cases "show_nat (nat i)") auto
  with False show_nat_not_sign [OF dg] digits_value_show_nat [of "nat i"] show ?thesis
    by (simp add: parse_int_def itoa_def parse_digits_def in_int64_def)
qed

lemma parse_int_itoa: "min_int64 \<le> i \<Longrightarrow> i \<le> max_int64 \<Longrightarrow> parse_int (itoa i) = Some i"
  by (simp add: parse_int_itoa_range)

section \<open>Hexadecimal coding\<close>

definition hex_encode :: "string \<Rightarrow> string" where
  "hex_encode s = concat (map (\<lambda>c. [hex_digit (code c div 16), hex_digit (code c mod 16)]) s)"

definition hex_value :: "char \<Rightarrow> nat" where
  "hex_value c =
    (if is_digit c then code c - 48 else if 97 \<le> code c then code c - 87 else code c - 55)"

text \<open>\<open>hex.DecodeString\<close>: an even number of digits of either case.\<close>

fun hex_decode :: "string \<Rightarrow> string option" where
  "hex_decode [] = Some []"
| "hex_decode [c] = None"
| "hex_decode (c # d # s) =
     (if is_hex c \<and> is_hex d
      then map_option ((#) (char_of (16 * hex_value c + hex_value d))) (hex_decode s) else None)"

lemma hex_digit_code: "n < 16 \<Longrightarrow> code (hex_digit n) = (if n < 10 then 48 + n else 87 + n)"
  by (simp add: hex_digit_def code_char_of)

lemma hex_digit_hex [simp]: "n < 16 \<Longrightarrow> is_hex (hex_digit n)"
  by (auto simp: is_hex_def is_digit_def hex_digit_code)

lemma hex_value_digit [simp]: "n < 16 \<Longrightarrow> hex_value (hex_digit n) = n"
  by (auto simp: hex_value_def is_digit_def hex_digit_code)

lemma length_hex_encode [simp]: "length (hex_encode s) = 2 * length s"
  by (induction s) (simp_all add: hex_encode_def)

lemma hex_decode_encode: "hex_decode (hex_encode s) = Some s"
proof (induction s)
  case (Cons c s)
  have bounds: "code c div 16 < 16" "code c mod 16 < 16" using code_lt_256 [of c] by auto
  have "char_of (16 * (code c div 16) + code c mod 16) = c"
    by (simp add: code_def)
  with Cons bounds show ?case by (simp add: hex_encode_def)
qed (simp add: hex_encode_def)

lemma hex_encode_inject: "hex_encode a = hex_encode b \<Longrightarrow> a = b"
  by (metis hex_decode_encode option.inject)

section \<open>Patterns\<close>

text \<open>\<open>^[first][rest]{0,n}$\<close>\<close>

definition matches :: "(char \<Rightarrow> bool) \<Rightarrow> (char \<Rightarrow> bool) \<Rightarrow> nat \<Rightarrow> string \<Rightarrow> bool" where
  "matches first rest n s =
    (case s of [] \<Rightarrow> False | c # cs \<Rightarrow> first c \<and> list_all rest cs \<and> length cs \<le> n)"

definition name_char :: "char \<Rightarrow> bool" where
  [go_defs]: "name_char c \<longleftrightarrow> is_alnum c \<or> c = CHR ''.'' \<or> c = CHR ''_'' \<or> c = CHR ''-''"

definition id_char :: "char \<Rightarrow> bool" where
  [go_defs]: "id_char c \<longleftrightarrow> is_alnum c \<or> c = CHR ''_'' \<or> c = CHR ''-''"

lemma to_lower_char_code: "is_digit (to_lower_char c) = is_digit c"
  using code_lt_256 [of c]
  by (auto simp: is_digit_def to_lower_char_def code_def Let_def)

section \<open>Times as text\<close>

text \<open>
  \<open>Format(time.RFC3339)\<close> of an instant in UTC. Instants count nanoseconds since the first of
  January of year 1; the calendar is computed in eras of 400 years that start on the first of
  March of year 0.
\<close>

definition pad :: "nat \<Rightarrow> int \<Rightarrow> string" where
  "pad w i = (let s = itoa i in replicate (w - length s) (CHR ''0'') @ s)"

definition civil_date :: "int \<Rightarrow> int \<times> int \<times> int" where
  "civil_date days =
    (let z = days + 306; era = z div 146097; doe = z mod 146097;
         yoe = (doe - doe div 1460 + doe div 36524 - doe div 146096) div 365;
         doy = doe - (365 * yoe + yoe div 4 - yoe div 100);
         mp = (5 * doy + 2) div 153;
         day = doy - (153 * mp + 2) div 5 + 1;
         month = (if mp < 10 then mp + 3 else mp - 9)
     in (yoe + era * 400 + (if month \<le> 2 then 1 else 0), month, day))"

definition format_rfc3339 :: "time \<Rightarrow> string" where
  "format_rfc3339 t =
    (let seconds = t div second; days = seconds div 86400; rest = seconds mod 86400 in
     case civil_date days of (y, m, d) \<Rightarrow>
       pad 4 y @ ''-'' @ pad 2 m @ ''-'' @ pad 2 d @ ''T'' @ pad 2 (rest div 3600) @ '':'' @
       pad 2 (rest div 60 mod 60) @ '':'' @ pad 2 (rest mod 60) @ ''Z'')"

text \<open>
  \<open>time.Unix(s, 0)\<close>; the Unix epoch is 62135596800 seconds after year 1, and the sum of the two
  wraps in \<open>int64\<close>.
\<close>

definition unix_time :: "int \<Rightarrow> time" where
  "unix_time s = wrap64 (s + 62135596800) * second"

section \<open>Error texts\<close>

text \<open>The texts of the errors; an error of a cloud SDK is named by its kind.\<close>

fun error_text :: "go_error \<Rightarrow> string" where
  "error_text (ErrText s) = s"
| "error_text ErrCanceled = ''context canceled''"
| "error_text ErrDeadlineExceeded = ''context deadline exceeded''"
| "error_text ErrOwnershipMismatch = ''provider resource ownership mismatch''"
| "error_text ErrDuplicateInstances = ''duplicate provider instances''"
| "error_text ErrCreateOutcomeUnknown = ''provider create outcome unknown''"
| "error_text (ErrRateLimit reset status) =
     ''GitHub API rate limited request with status '' @ itoa status @ '' until '' @
     format_rfc3339 reset"
| "error_text (ErrAPIStatus status action) = ''unexpected status '' @ itoa status @ '' '' @ action"
| "error_text (ErrProvider kind status) = kind"
| "error_text (ErrWrap prefix e) = prefix @ error_text e"
| "error_text (ErrWrapSuffix e suffix) = error_text e @ suffix"
| "error_text (ErrJoin es) = join_with [char_of (10 :: nat)] (map error_text es)"

section \<open>Lists of settings\<close>

text \<open>\<open>sort.Strings\<close> orders by bytes, as the library order of lists does.\<close>

definition trimmed_pieces :: "char \<Rightarrow> string \<Rightarrow> string list" where
  "trimmed_pieces c s = filter (\<lambda>p. p \<noteq> []) (map trim_space (split_on c s))"

end
