(* ===== verification/Compute.thy ===== *)
theory Compute
  imports Go_Text
begin

text \<open>
  The cloud-neutral contract of \<open>internal/compute/compute.go\<close>: the controller identifier, the
  parameters rendered into the user data of a runner, the identity of an instance, and the
  rendering itself. The parsed template is a parameter: a function from the parameters to the
  text or the error of \<open>text/template\<close>.
\<close>

definition valid_controller_id :: "string \<Rightarrow> bool" where
  "valid_controller_id v = matches is_alnum id_char 63 v"

record runner_params =
  p_job_key :: string
  p_provision_epoch :: int
  p_runner_name :: string
  p_runner_jit_config :: string
  p_runner_version :: string
  p_runner_sha256 :: string
  p_chef_installer_sha256 :: string

record runner_instance =
  ri_id :: string
  ri_name :: string

type_synonym template = "runner_params \<Rightarrow> go_error + string"

definition render_cloud_init :: "template option \<Rightarrow> runner_params \<Rightarrow> go_error + string" where
  "render_cloud_init tmpl params =
    (case tmpl of
       None \<Rightarrow> Inl (ErrText ''cloud-init template is not configured'')
     | Some t \<Rightarrow>
         (case t params of
            Inl e \<Rightarrow> Inl (ErrWrap ''render cloud-init: '' e)
          | Inr user_data \<Rightarrow> Inr user_data))"

end
