(* ===== verification/Json_Decode.thy ===== *)
theory Json_Decode
  imports Go_Text
begin

text \<open>
  \<open>encoding/json\<close> as far as the controller uses it: JSON values, and decoding into a struct.
  A decoder takes a JSON value and the current content of the field, and returns the new
  content and whether the value had the right type; as the library does, it goes on after a
  mismatch, takes the last of duplicate keys, matches a key exactly or else without regard to
  case, ignores unknown keys, and leaves a field alone on \<open>null\<close>. Splitting text into a JSON
  value is a parameter of the definitions that read text.
\<close>

datatype json =
    JNull
  | JBool bool
  | JInt int
  | JNumber string
  | JStr string
  | JArr "json list"
  | JObj "(string \<times> json) list"

type_synonym 'a dec = "json \<Rightarrow> 'a \<Rightarrow> 'a \<times> bool"

definition dec_int64 :: "int dec" where
  "dec_int64 j i =
    (case j of
       JNull \<Rightarrow> (i, True)
     | JInt n \<Rightarrow> if min_int64 \<le> n \<and> n \<le> max_int64 then (n, True) else (i, False)
     | _ \<Rightarrow> (i, False))"

definition dec_string :: "string dec" where
  "dec_string j s = (case j of JNull \<Rightarrow> (s, True) | JStr t \<Rightarrow> (t, True) | _ \<Rightarrow> (s, False))"

definition dec_bool :: "bool dec" where
  "dec_bool j b = (case j of JNull \<Rightarrow> (b, True) | JBool c \<Rightarrow> (c, True) | _ \<Rightarrow> (b, False))"

fun dec_items :: "'a dec \<Rightarrow> 'a \<Rightarrow> json list \<Rightarrow> 'a list \<times> bool" where
  "dec_items d zero [] = ([], True)"
| "dec_items d zero (j # js) =
     (case d j zero of (a, ok) \<Rightarrow> case dec_items d zero js of (as, oks) \<Rightarrow> (a # as, ok \<and> oks))"

definition dec_list :: "'a dec \<Rightarrow> 'a \<Rightarrow> 'a list dec" where
  "dec_list d zero j xs =
    (case j of JNull \<Rightarrow> ([], True) | JArr js \<Rightarrow> dec_items d zero js | _ \<Rightarrow> (xs, False))"

fun dec_entries :: "'a dec \<Rightarrow> 'a \<Rightarrow> (string \<times> json) list \<Rightarrow> 'a gomap \<Rightarrow> 'a gomap \<times> bool" where
  "dec_entries d zero [] m = (m, True)"
| "dec_entries d zero ((k, j) # kvs) m =
     (case d j zero of (a, ok) \<Rightarrow>
      case dec_entries d zero kvs (AList.update k a m) of (m', oks) \<Rightarrow> (m', ok \<and> oks))"

definition dec_map :: "'a dec \<Rightarrow> 'a \<Rightarrow> 'a gomap dec" where
  "dec_map d zero j m =
    (case j of JNull \<Rightarrow> ([], True) | JObj kvs \<Rightarrow> dec_entries d zero kvs m | _ \<Rightarrow> (m, False))"

text \<open>A struct field: its name, and its decoder lifted to the struct.\<close>

definition field :: "('a \<Rightarrow> 'b) \<Rightarrow> ('b \<Rightarrow> 'a \<Rightarrow> 'a) \<Rightarrow> 'b dec \<Rightarrow> 'a dec" where
  "field sel put d j a = (case d j (sel a) of (b, ok) \<Rightarrow> (put b a, ok))"

definition find_field :: "(string \<times> 'a dec) list \<Rightarrow> string \<Rightarrow> 'a dec option" where
  "find_field fields k =
    (case map_of fields k of
       Some d \<Rightarrow> Some d
     | None \<Rightarrow> map_option snd (List.find (\<lambda>(n, d). equal_fold n k) fields))"

fun dec_members :: "(string \<times> 'a dec) list \<Rightarrow> (string \<times> json) list \<Rightarrow> 'a \<Rightarrow> 'a \<times> bool" where
  "dec_members fields [] a = (a, True)"
| "dec_members fields ((k, j) # kvs) a =
     (case (case find_field fields k of None \<Rightarrow> (a, True) | Some d \<Rightarrow> d j a) of (b, ok) \<Rightarrow>
      case dec_members fields kvs b of (c, oks) \<Rightarrow> (c, ok \<and> oks))"

definition dec_struct :: "(string \<times> 'a dec) list \<Rightarrow> 'a dec" where
  "dec_struct fields j a =
    (case j of JNull \<Rightarrow> (a, True) | JObj kvs \<Rightarrow> dec_members fields kvs a | _ \<Rightarrow> (a, False))"

definition type_error :: go_error where
  "type_error = ErrText ''json: cannot unmarshal value into Go struct''"

definition syntax_error :: go_error where
  "syntax_error = ErrText ''invalid JSON syntax''"

text \<open>\<open>json.Unmarshal\<close>, and \<open>Decode\<close> of a decoder, on the value that the text holds.\<close>

definition unmarshal :: "(string \<Rightarrow> json option) \<Rightarrow> 'a dec \<Rightarrow> 'a \<Rightarrow> string \<Rightarrow> go_error + 'a" where
  "unmarshal parse d zero text =
    (case parse text of
       None \<Rightarrow> Inl syntax_error
     | Some j \<Rightarrow> (case d j zero of (a, True) \<Rightarrow> Inr a | (a, False) \<Rightarrow> Inl type_error))"

end
