(* ===== verification/GitHub_API.thy ===== *)
theory GitHub_API
  imports Json_Decode "HOL-Library.State_Monad"
begin

text \<open>
  The GitHub App client of \<open>internal/github\<close> (\<open>app.go\<close>, \<open>runner.go\<close>, \<open>job.go\<close>,
  \<open>workflow.go\<close>): installation tokens and their scope, the five calls of the controller, the
  classification of failed responses and the check of a webhook signature.

  A call runs in the state monad over the App (with its token cache) and the outside world,
  a value of any type that the transport and the clock transform. Requests whose URL is built
  from escaped path segments are always well formed, so \<open>http.NewRequest\<close> has no failure here,
  and \<open>json.Marshal\<close> of a struct of strings and numbers has none either.
\<close>

section \<open>Requests, responses and the transport\<close>

record http_request =
  rq_method :: string
  rq_url :: string
  rq_authorization :: string
  rq_body :: json

record http_response =
  hr_status :: int
  hr_headers :: "string gomap"
  hr_body :: string

definition header_get :: "string gomap \<Rightarrow> string \<Rightarrow> string" where
  "header_get h k = (case map_of h k of None \<Rightarrow> '''' | Some v \<Rightarrow> v)"

record jwt_claims =
  jc_issued_at :: time
  jc_expires_at :: time
  jc_issuer :: string

text \<open>
  What the client uses of its libraries: the transport, the clock, JSON syntax, the parsers of
  times, and the decoding of keys and signing of tokens. A key is an opaque string;
  \<open>net_pkcs8\<close> answers \<open>None\<close> for a key that is not RSA.
\<close>

record 'x net =
  net_do :: "http_request \<Rightarrow> 'x \<Rightarrow> (go_error + http_response) \<times> 'x"
  net_now :: "'x \<Rightarrow> time \<times> 'x"
  net_json :: "string \<Rightarrow> json option"
  net_time :: "string \<Rightarrow> time option"
  net_http_time :: "string \<Rightarrow> time option"
  net_pem :: "string \<Rightarrow> string option"
  net_pkcs1 :: "string \<Rightarrow> go_error + string"
  net_pkcs8 :: "string \<Rightarrow> go_error + string option"
  net_sign :: "jwt_claims \<Rightarrow> string \<Rightarrow> go_error + string"

record github_app =
  app_id :: int
  app_installation_id :: int
  app_private_key :: string
  app_allowed_repositories :: "string list"
  app_read_workflow_runs :: bool
  app_cached_token :: string
  app_token_expires :: time
  app_cached_scope :: string

record 'x gh =
  gh_app :: github_app
  gh_outside :: 'x

type_synonym ('x, 'a) gh_call = "('x gh, go_error + 'a) state"

definition gh_get :: "('x gh, github_app) state" where
  "gh_get = State (\<lambda>s. (gh_app s, s))"

definition gh_now :: "'x net \<Rightarrow> ('x gh, time) state" where
  "gh_now N = State (\<lambda>s. case net_now N (gh_outside s) of (t, x) \<Rightarrow> (t, s\<lparr>gh_outside := x\<rparr>))"

definition gh_do :: "'x net \<Rightarrow> http_request \<Rightarrow> ('x, http_response) gh_call" where
  "gh_do N rq = State (\<lambda>s. case net_do N rq (gh_outside s) of (r, x) \<Rightarrow> (r, s\<lparr>gh_outside := x\<rparr>))"

definition fail :: "go_error \<Rightarrow> ('s, go_error + 'a) state" where
  "fail e = State_Monad.return (Inl e)"

definition ok :: "'a \<Rightarrow> ('s, go_error + 'a) state" where
  "ok a = State_Monad.return (Inr a)"

text \<open>The Go idiom \<open>if err != nil { return fmt.Errorf(prefix + "%w", err) }\<close>.\<close>

definition check :: "(go_error \<Rightarrow> go_error) \<Rightarrow> ('s, go_error + 'a) state \<Rightarrow>
    ('a \<Rightarrow> ('s, go_error + 'b) state) \<Rightarrow> ('s, go_error + 'b) state" where
  "check wrap m f = do { r \<leftarrow> m; case r of Inl e \<Rightarrow> fail (wrap e) | Inr a \<Rightarrow> f a }"

lemma run_fail [simp]: "run_state (fail e) s = (Inl e, s)"
  by (simp add: fail_def)

lemma run_ok [simp]: "run_state (ok a) s = (Inr a, s)"
  by (simp add: ok_def)

lemma run_check [simp]:
  "run_state (check wrap m f) s =
    (case run_state m s of (Inl e, t) \<Rightarrow> (Inl (wrap e), t) | (Inr a, t) \<Rightarrow> run_state (f a) t)"
  by (simp add: check_def split: prod.split sum.split)

lemma run_gh [simp]:
  "run_state gh_get s = (gh_app s, s)"
  "run_state (gh_now N) s = (case net_now N (gh_outside s) of (t, x) \<Rightarrow> (t, s\<lparr>gh_outside := x\<rparr>))"
  "run_state (gh_do N rq) s = (case net_do N rq (gh_outside s) of (r, x) \<Rightarrow> (r, s\<lparr>gh_outside := x\<rparr>))"
  by (simp_all add: gh_get_def gh_now_def gh_do_def)

section \<open>Failed responses\<close>

definition rate_limit_error :: "go_error \<Rightarrow> (time \<times> int) option" where
  "rate_limit_error e = (case e of ErrRateLimit t n \<Rightarrow> Some (t, n) | _ \<Rightarrow> None)"

definition api_status_of :: "go_error \<Rightarrow> int option" where
  "api_status_of e = (case e of ErrAPIStatus n a \<Rightarrow> Some n | _ \<Rightarrow> None)"

definition persistent_client_error :: "go_error \<Rightarrow> bool" where
  "persistent_client_error e =
    (case errors_as api_status_of e of
       None \<Rightarrow> False
     | Some status \<Rightarrow> status \<ge> 400 \<and> status < 500 \<and> status \<noteq> 408 \<and> status \<noteq> 409 \<and>
                      status \<noteq> 422 \<and> status \<noteq> 429)"

definition rate_limit_reset :: "go_error \<Rightarrow> time option" where
  "rate_limit_reset e = map_option fst (errors_as rate_limit_error e)"

text \<open>\<open>time.Duration(seconds) * time.Second\<close> wraps in \<open>int64\<close>.\<close>

definition seconds_duration :: "int \<Rightarrow> duration" where
  "seconds_duration n = wrap64 (n * second)"

definition retry_at_from_headers :: "'x net \<Rightarrow> time \<Rightarrow> string gomap \<Rightarrow> time" where
  "retry_at_from_headers N now h =
    (let value = header_get h ''Retry-After'';
         from_reset = (case parse_int (header_get h ''X-RateLimit-Reset'') of
                         Some n \<Rightarrow> if n > 0 then unix_time n else now + minute
                       | None \<Rightarrow> now + minute)
     in if value \<noteq> ''''
        then (case (case parse_int value of Some n \<Rightarrow> if n \<ge> 0 then Some n else None | None \<Rightarrow> None) of
                Some n \<Rightarrow> now + seconds_duration n
              | None \<Rightarrow> (case net_http_time N value of Some t \<Rightarrow> t | None \<Rightarrow> from_reset))
        else from_reset)"

definition rate_limited_response :: "http_response \<Rightarrow> bool" where
  "rate_limited_response r \<longleftrightarrow>
    hr_status r = 429 \<or>
    (hr_status r = 403 \<and> (header_get (hr_headers r) ''Retry-After'' \<noteq> '''' \<or>
                           header_get (hr_headers r) ''X-RateLimit-Remaining'' = ''0''))"

definition api_status_error ::
    "'x net \<Rightarrow> http_response \<Rightarrow> string \<Rightarrow> ('x gh, go_error) state" where
  "api_status_error N r action =
    (if rate_limited_response r
     then do { now \<leftarrow> gh_now N;
               State_Monad.return (ErrRateLimit (retry_at_from_headers N now (hr_headers r)) (hr_status r)) }
     else State_Monad.return (ErrAPIStatus (hr_status r) action))"

definition fail_status :: "'x net \<Rightarrow> http_response \<Rightarrow> string \<Rightarrow> ('x, 'a) gh_call" where
  "fail_status N r action = do { e \<leftarrow> api_status_error N r action; fail e }"

section \<open>Installation tokens\<close>

text \<open>
  \<open>tokenScope\<close>: the repository names for the request, the sorted full names expected back, and
  the scope that identifies the cached token. The loop state is the owner seen so far and the
  names collected in order.
\<close>

definition invalid_repository :: "string \<Rightarrow> go_error" where
  "invalid_repository raw = ErrText (''invalid installation token repository '' @ go_quote raw)"

fun scope_loop ::
    "string list \<Rightarrow> string \<Rightarrow> string list \<Rightarrow> string list \<Rightarrow> go_error + (string list \<times> string list)" where
  "scope_loop [] owner names full_names = Inr (names, full_names)"
| "scope_loop (raw # raws) owner names full_names =
    (case split_on (CHR ''/'') (to_lower (trim_space raw)) of
       [p, q] \<Rightarrow>
         (let p = trim_space p; q = trim_space q; full_name = p @ ''/'' @ q in
          if p = '''' \<or> q = '''' then Inl (invalid_repository raw)
          else if owner \<noteq> '''' \<and> owner \<noteq> p
          then Inl (ErrText ''one installation token cannot span multiple repository owners'')
          else if full_name \<in> set full_names then scope_loop raws p names full_names
          else scope_loop raws p (names @ [q]) (full_names @ [full_name]))
     | _ \<Rightarrow> Inl (invalid_repository raw))"

definition token_scope :: "github_app \<Rightarrow> go_error + (string list \<times> string list \<times> string)" where
  "token_scope a =
    (let allowed = app_allowed_repositories a in
     if length allowed = 0 \<or> length allowed > 500
     then Inl (ErrText ''installation token requires 1 to 500 allowed repositories'')
     else case scope_loop allowed '''' [] [] of
       Inl e \<Rightarrow> Inl e
     | Inr (names, full_names) \<Rightarrow>
         (let names = sort names; full_names = sort full_names;
              scope = join_with '','' full_names @ ''|administration:write'' @
                      (if app_read_workflow_runs a then ''|actions:read'' else '''')
          in Inr (names, full_names, scope)))"

definition parse_key :: "'x net \<Rightarrow> string \<Rightarrow> go_error + string" where
  "parse_key N block =
    (case net_pkcs1 N block of
       Inr key \<Rightarrow> Inr key
     | Inl err \<Rightarrow>
         (case net_pkcs8 N block of
            Inl e \<Rightarrow> Inl (ErrWrap (''parse RSA private key as PKCS#1 ('' @ error_text err @
                                  '') or PKCS#8: '') e)
          | Inr None \<Rightarrow> Inl (ErrText ''GitHub App private key is not RSA'')
          | Inr (Some key) \<Rightarrow> Inr key))"

definition generate_jwt :: "'x net \<Rightarrow> ('x, string) gh_call" where
  "generate_jwt N = do {
     a \<leftarrow> gh_get;
     case net_pem N (app_private_key a) of
       None \<Rightarrow> fail (ErrText ''failed to decode PEM block'')
     | Some block \<Rightarrow>
         (case parse_key N block of
            Inl e \<Rightarrow> fail e
          | Inr key \<Rightarrow> do {
              now \<leftarrow> gh_now N;
              State_Monad.return (net_sign N \<lparr>jc_issued_at = now + - 60 * second,
                jc_expires_at = now + 9 * minute, jc_issuer = itoa (app_id a)\<rparr> key) }) }"

record token_reply =
  tr_token :: string
  tr_expires_at :: time
  tr_permissions :: "string gomap"
  tr_repositories :: "string list"

definition dec_time :: "'x net \<Rightarrow> time dec" where
  "dec_time N j t =
    (case j of
       JNull \<Rightarrow> (t, True)
     | JStr s \<Rightarrow> (case net_time N s of Some u \<Rightarrow> (u, True) | None \<Rightarrow> (t, False))
     | _ \<Rightarrow> (t, False))"

definition dec_token_reply :: "'x net \<Rightarrow> token_reply dec" where
  "dec_token_reply N = dec_struct
    [(''token'', field tr_token (\<lambda>v. tr_token_update (\<lambda>_. v)) dec_string),
     (''expires_at'', field tr_expires_at (\<lambda>v. tr_expires_at_update (\<lambda>_. v)) (dec_time N)),
     (''permissions'', field tr_permissions (\<lambda>v. tr_permissions_update (\<lambda>_. v)) (dec_map dec_string '''')),
     (''repositories'', field tr_repositories (\<lambda>v. tr_repositories_update (\<lambda>_. v))
        (dec_list (dec_struct [(''full_name'', dec_string)]) ''''))]"

definition zero_token_reply :: token_reply where
  "zero_token_reply = \<lparr>tr_token = '''', tr_expires_at = zero_time, tr_permissions = [], tr_repositories = []\<rparr>"

text \<open>The checks made on a reply before its token is used.\<close>

definition check_token :: "github_app \<Rightarrow> string list \<Rightarrow> token_reply \<Rightarrow> go_error option" where
  "check_token a expected t =
    (if tr_token t = '''' \<or> is_zero (tr_expires_at t)
     then Some (ErrText ''GitHub returned an incomplete installation token'')
     else if header_get (tr_permissions t) ''administration'' \<noteq> ''write''
     then Some (ErrText ''GitHub installation token lacks administration:write scope'')
     else if app_read_workflow_runs a \<and> header_get (tr_permissions t) ''actions'' \<noteq> ''read''
     then Some (ErrText ''GitHub installation token lacks actions:read scope'')
     else if join_with '','' (sort (map to_lower (tr_repositories t))) \<noteq> join_with '','' expected
     then Some (ErrText ''GitHub installation token repository scope does not match allowlist'')
     else None)"

definition token_request :: "github_app \<Rightarrow> string list \<Rightarrow> string \<Rightarrow> http_request" where
  "token_request a names jwt =
    \<lparr>rq_method = ''POST'',
     rq_url = ''https://api.github.com/app/installations/'' @ itoa (app_installation_id a) @
              ''/access_tokens'',
     rq_authorization = ''Bearer '' @ jwt,
     rq_body = JObj [(''repositories'', JArr (map JStr names)),
       (''permissions'', JObj ((''administration'', JStr ''write'') #
          (if app_read_workflow_runs a then [(''actions'', JStr ''read'')] else [])))]\<rparr>"

definition cache_token :: "string \<Rightarrow> token_reply \<Rightarrow> ('x gh, unit) state" where
  "cache_token scope t = State (\<lambda>s. ((), s\<lparr>gh_app := (gh_app s)\<lparr>app_cached_token := tr_token t,
     app_token_expires := tr_expires_at t, app_cached_scope := scope\<rparr>\<rparr>))"

definition token_cached :: "github_app \<Rightarrow> string \<Rightarrow> time \<Rightarrow> bool" where
  "token_cached a scope now \<longleftrightarrow>
    app_cached_token a \<noteq> '''' \<and> app_cached_scope a = scope \<and> now < app_token_expires a + - 5 * minute"

definition installation_token :: "'x net \<Rightarrow> ('x, string) gh_call" where
  "installation_token N = do {
     a \<leftarrow> gh_get;
     case token_scope a of
       Inl e \<Rightarrow> fail e
     | Inr (names, expected, scope) \<Rightarrow> do {
         now \<leftarrow> gh_now N;
         if token_cached a scope now then ok (app_cached_token a)
         else
           check (ErrWrap ''generate JWT: '') (generate_jwt N) (\<lambda>jwt.
           check (ErrWrap ''request installation token: '') (gh_do N (token_request a names jwt)) (\<lambda>r.
             if hr_status r \<noteq> 201 then fail_status N r ''requesting installation token''
             else case unmarshal (net_json N) (dec_token_reply N) zero_token_reply (hr_body r) of
               Inl e \<Rightarrow> fail e
             | Inr t \<Rightarrow>
                 (case check_token a expected t of
                    Some e \<Rightarrow> fail e
                  | None \<Rightarrow> do { _ \<leftarrow> cache_token scope t; ok (tr_token t) }))) } }"

definition validate_token_scope :: "'x net \<Rightarrow> ('x gh, go_error option) state" where
  "validate_token_scope N = do {
     r \<leftarrow> installation_token N;
     State_Monad.return (case r of Inl e \<Rightarrow> Some e | Inr _ \<Rightarrow> None) }"

section \<open>Calls on a repository\<close>

text \<open>\<open>url.PathEscape\<close> of a byte string.\<close>

definition unescaped :: "char \<Rightarrow> bool" where
  "unescaped c \<longleftrightarrow> is_alnum c \<or> c \<in> set ''-_.~$&+=:@''"

definition upper_hex :: "nat \<Rightarrow> char" where
  "upper_hex n = (if n < 10 then char_of (48 + n) else char_of (55 + n))"

definition path_escape :: "string \<Rightarrow> string" where
  "path_escape s =
    concat (map (\<lambda>c. if unescaped c then [c]
                     else [CHR ''%'', upper_hex (code c div 16), upper_hex (code c mod 16)]) s)"

definition repo_url :: "string \<Rightarrow> string \<Rightarrow> string \<Rightarrow> string" where
  "repo_url owner repo suffix =
    ''https://api.github.com/repos/'' @ path_escape owner @ ''/'' @ path_escape repo @ ''/actions/'' @ suffix"

definition repo_request :: "string \<Rightarrow> string \<Rightarrow> string \<Rightarrow> json \<Rightarrow> http_request" where
  "repo_request meth url token body =
    \<lparr>rq_method = meth, rq_url = url, rq_authorization = ''Bearer '' @ token, rq_body = body\<rparr>"

datatype runner_status = RunnerMissing | RunnerOffline | RunnerOnline

datatype job_status = JobQueued | JobInProgress | JobCompleted

record jit_config =
  jit_runner_id :: int
  jit_encoded_config :: string

text \<open>A struct of an identifier and a status.\<close>

type_synonym id_status = "int \<times> string"

definition dec_id_status :: "id_status dec" where
  "dec_id_status = dec_struct
    [(''id'', field fst (\<lambda>v p. (v, snd p)) dec_int64),
     (''status'', field snd (\<lambda>v p. (fst p, v)) dec_string)]"

definition repo_runner_status ::
    "'x net \<Rightarrow> string \<Rightarrow> string \<Rightarrow> int \<Rightarrow> ('x, runner_status) gh_call" where
  "repo_runner_status N owner repo runner_id =
    check (ErrWrap ''get installation token: '') (installation_token N) (\<lambda>token.
    check (ErrWrap ''get repository runner status: '')
      (gh_do N (repo_request ''GET'' (repo_url owner repo (''runners/'' @ itoa runner_id)) token JNull)) (\<lambda>r.
      if hr_status r = 404 then ok RunnerMissing
      else if hr_status r \<noteq> 200
      then fail_status N r (''getting repository runner '' @ itoa runner_id)
      else case unmarshal (net_json N) dec_id_status (0, '''') (hr_body r) of
        Inl e \<Rightarrow> fail (ErrWrap ''decode repository runner status: '' e)
      | Inr (i, status) \<Rightarrow>
          if i \<noteq> runner_id
          then fail (ErrText (''GitHub returned runner ID '' @ itoa i @ '' while querying '' @ itoa runner_id))
          else if status = ''online'' then ok RunnerOnline else ok RunnerOffline))"

text \<open>
  \<open>base64.StdEncoding\<close>, on bytes; decoding ignores line breaks. \<open>sextet\<close> is the value of a
  symbol.
\<close>

definition base64_alphabet :: string where
  "base64_alphabet = ''ABCDEFGHIJKLMNOPQRSTUVWXYZabcdefghijklmnopqrstuvwxyz0123456789+/''"

definition b64 :: "nat \<Rightarrow> char" where
  "b64 n = base64_alphabet ! (n mod 64)"

fun base64_encode :: "string \<Rightarrow> string" where
  "base64_encode [] = []"
| "base64_encode [a] = [b64 (code a div 4), b64 (code a mod 4 * 16), CHR ''='', CHR ''='']"
| "base64_encode [a, b] =
     [b64 (code a div 4), b64 (code a mod 4 * 16 + code b div 16), b64 (code b mod 16 * 4), CHR ''='']"
| "base64_encode (a # b # c # s) =
     b64 (code a div 4) # b64 (code a mod 4 * 16 + code b div 16) #
     b64 (code b mod 16 * 4 + code c div 64) # b64 (code c mod 64) # base64_encode s"

definition sextet :: "char \<Rightarrow> nat option" where
  "sextet c =
    (if is_upper c then Some (code c - 65) else if is_lower c then Some (code c - 71)
     else if is_digit c then Some (code c + 4) else if c = CHR ''+'' then Some 62
     else if c = CHR ''/'' then Some 63 else None)"

fun base64_quanta :: "string \<Rightarrow> string option" where
  "base64_quanta [] = Some []"
| "base64_quanta [w, x, y, z] =
     (case (sextet w, sextet x, sextet y, sextet z) of
        (Some a, Some b, Some c, Some d) \<Rightarrow>
          Some [char_of (a * 4 + b div 16), char_of (b mod 16 * 16 + c div 4), char_of (c mod 4 * 64 + d)]
      | (Some a, Some b, Some c, None) \<Rightarrow>
          if z = CHR ''='' then Some [char_of (a * 4 + b div 16), char_of (b mod 16 * 16 + c div 4)] else None
      | (Some a, Some b, None, None) \<Rightarrow>
          if y = CHR ''='' \<and> z = CHR ''='' then Some [char_of (a * 4 + b div 16)] else None
      | _ \<Rightarrow> None)"
| "base64_quanta (w # x # y # z # s) =
     (case (sextet w, sextet x, sextet y, sextet z, base64_quanta s) of
        (Some a, Some b, Some c, Some d, Some rest) \<Rightarrow>
          Some (char_of (a * 4 + b div 16) # char_of (b mod 16 * 16 + c div 4) #
                char_of (c mod 4 * 64 + d) # rest)
      | _ \<Rightarrow> None)"
| "base64_quanta _ = None"

definition base64_decode :: "string \<Rightarrow> string option" where
  "base64_decode s = base64_quanta (filter (\<lambda>c. code c \<noteq> 10 \<and> code c \<noteq> 13) s)"

record jit_reply =
  jr_runner_id :: int
  jr_encoded :: string

definition dec_jit_reply :: "jit_reply dec" where
  "dec_jit_reply = dec_struct
    [(''runner'', field jr_runner_id (\<lambda>v. jr_runner_id_update (\<lambda>_. v)) (dec_struct [(''id'', dec_int64)])),
     (''encoded_jit_config'', field jr_encoded (\<lambda>v. jr_encoded_update (\<lambda>_. v)) dec_string)]"

definition valid_jit_encoding :: "string \<Rightarrow> bool" where
  "valid_jit_encoding s =
    (case base64_decode s of None \<Rightarrow> False | Some d \<Rightarrow> d \<noteq> [] \<and> base64_encode d = s)"

definition generate_repo_jit_config ::
    "'x net \<Rightarrow> string \<Rightarrow> string \<Rightarrow> string \<Rightarrow> int \<Rightarrow> string list \<Rightarrow> ('x, jit_config) gh_call" where
  "generate_repo_jit_config N owner repo name group_id labels =
    check (ErrWrap ''get installation token: '') (installation_token N) (\<lambda>token.
    check (ErrWrap ''request repository JIT config: '')
      (gh_do N (repo_request ''POST'' (repo_url owner repo ''runners/generate-jitconfig'') token
        (JObj [(''name'', JStr name), (''runner_group_id'', JInt group_id),
               (''labels'', JArr (map JStr labels)), (''work_folder'', JStr ''_work'')]))) (\<lambda>r.
      if hr_status r \<noteq> 201 then fail_status N r ''requesting repository JIT config''
      else case unmarshal (net_json N) dec_jit_reply \<lparr>jr_runner_id = 0, jr_encoded = ''''\<rparr> (hr_body r) of
        Inl e \<Rightarrow> fail (ErrWrap ''decode repository JIT config: '' e)
      | Inr t \<Rightarrow>
          if jr_runner_id t = 0 \<or> jr_encoded t = ''''
          then fail (ErrText ''GitHub returned an incomplete repository JIT config'')
          else if \<not> valid_jit_encoding (jr_encoded t)
          then fail (ErrText ''GitHub returned an invalid base64 repository JIT config'')
          else ok \<lparr>jit_runner_id = jr_runner_id t, jit_encoded_config = jr_encoded t\<rparr>))"

definition remove_repo_runner ::
    "'x net \<Rightarrow> string \<Rightarrow> string \<Rightarrow> int \<Rightarrow> ('x, unit) gh_call" where
  "remove_repo_runner N owner repo runner_id =
    check (ErrWrap ''get installation token: '') (installation_token N) (\<lambda>token.
    check (ErrWrap ''remove repository runner: '')
      (gh_do N (repo_request ''DELETE'' (repo_url owner repo (''runners/'' @ itoa runner_id)) token JNull)) (\<lambda>r.
      if hr_status r \<noteq> 204 \<and> hr_status r \<noteq> 404
      then fail_status N r (''removing repository runner '' @ itoa runner_id)
      else ok ()))"

definition parse_job_status :: "string \<Rightarrow> job_status option" where
  "parse_job_status s =
    (if s = ''queued'' then Some JobQueued else if s = ''in_progress'' then Some JobInProgress
     else if s = ''completed'' then Some JobCompleted else None)"

definition workflow_job_status ::
    "'x net \<Rightarrow> string \<Rightarrow> string \<Rightarrow> int \<Rightarrow> ('x, job_status) gh_call" where
  "workflow_job_status N owner repo job_id = do {
     a \<leftarrow> gh_get;
     if job_id \<le> 0 then fail (ErrText ''workflow job ID must be positive'')
     else if \<not> app_read_workflow_runs a
     then fail (ErrText ''workflow job read scope is not configured'')
     else
       check (ErrWrap ''get job status installation token: '') (installation_token N) (\<lambda>token.
       check (ErrWrap ''get workflow job status: '')
         (gh_do N (repo_request ''GET'' (repo_url owner repo (''jobs/'' @ itoa job_id)) token JNull)) (\<lambda>r.
         if hr_status r \<noteq> 200 then fail_status N r ''getting workflow job status''
         else case unmarshal (net_json N) dec_id_status (0, '''') (hr_body r) of
           Inl e \<Rightarrow> fail (ErrWrap ''decode workflow job status: '' e)
         | Inr (i, status) \<Rightarrow>
             if i \<noteq> job_id
             then fail (ErrText (''GitHub returned job ID '' @ itoa i @ '' while querying '' @ itoa job_id))
             else case parse_job_status status of
               Some s \<Rightarrow> ok s
             | None \<Rightarrow> fail (ErrText ''GitHub returned an unsupported workflow job status''))) }"

section \<open>Trust in a workflow run\<close>

record pull_request =
  pr_number :: int
  pr_head_repo :: int
  pr_base_repo :: int

record workflow_run =
  wr_id :: int
  wr_event :: string
  wr_repo_id :: int
  wr_repo_name :: string
  wr_head_id :: int
  wr_head_fork :: bool
  wr_head_name :: string
  wr_pull_requests :: "pull_request list"

definition zero_pull_request :: pull_request where
  "zero_pull_request = \<lparr>pr_number = 0, pr_head_repo = 0, pr_base_repo = 0\<rparr>"

definition zero_workflow_run :: workflow_run where
  "zero_workflow_run = \<lparr>wr_id = 0, wr_event = '''', wr_repo_id = 0, wr_repo_name = '''', wr_head_id = 0,
     wr_head_fork = False, wr_head_name = '''', wr_pull_requests = []\<rparr>"

definition dec_pull_request :: "pull_request dec" where
  "dec_pull_request = dec_struct
    [(''number'', field pr_number (\<lambda>v. pr_number_update (\<lambda>_. v)) dec_int64),
     (''head'', dec_struct [(''repo'', dec_struct
        [(''id'', field pr_head_repo (\<lambda>v. pr_head_repo_update (\<lambda>_. v)) dec_int64)])]),
     (''base'', dec_struct [(''repo'', dec_struct
        [(''id'', field pr_base_repo (\<lambda>v. pr_base_repo_update (\<lambda>_. v)) dec_int64)])])]"

definition dec_workflow_run :: "workflow_run dec" where
  "dec_workflow_run = dec_struct
    [(''id'', field wr_id (\<lambda>v. wr_id_update (\<lambda>_. v)) dec_int64),
     (''event'', field wr_event (\<lambda>v. wr_event_update (\<lambda>_. v)) dec_string),
     (''repository'', dec_struct
        [(''id'', field wr_repo_id (\<lambda>v. wr_repo_id_update (\<lambda>_. v)) dec_int64),
         (''full_name'', field wr_repo_name (\<lambda>v. wr_repo_name_update (\<lambda>_. v)) dec_string)]),
     (''head_repository'', dec_struct
        [(''id'', field wr_head_id (\<lambda>v. wr_head_id_update (\<lambda>_. v)) dec_int64),
         (''fork'', field wr_head_fork (\<lambda>v. wr_head_fork_update (\<lambda>_. v)) dec_bool),
         (''full_name'', field wr_head_name (\<lambda>v. wr_head_name_update (\<lambda>_. v)) dec_string)]),
     (''pull_requests'', field wr_pull_requests (\<lambda>v. wr_pull_requests_update (\<lambda>_. v))
        (dec_list dec_pull_request zero_pull_request))]"

text \<open>The decision of \<open>TrustedWorkflowRun\<close> on the run that GitHub reports.\<close>

definition trusted_run :: "string \<Rightarrow> string \<Rightarrow> int \<Rightarrow> workflow_run \<Rightarrow> bool" where
  "trusted_run owner repo run_id run =
    (let full_name = owner @ ''/'' @ repo in
     if wr_id run \<noteq> run_id \<or> \<not> equal_fold (wr_repo_name run) full_name \<or>
        \<not> equal_fold (wr_head_name run) full_name then False
     else if wr_repo_id run \<le> 0 \<or> wr_head_id run \<noteq> wr_repo_id run \<or> wr_head_fork run then False
     else if wr_event run = ''pull_request'' then
       wr_pull_requests run \<noteq> [] \<and>
       list_all (\<lambda>p. \<not> (pr_number p \<le> 0 \<or> pr_head_repo p \<noteq> wr_repo_id run \<or>
                      pr_base_repo p \<noteq> wr_repo_id run)) (wr_pull_requests run)
     else wr_event run = ''push'' \<or> wr_event run = ''schedule'' \<or> wr_event run = ''workflow_dispatch'')"

definition trusted_workflow_run :: "'x net \<Rightarrow> string \<Rightarrow> string \<Rightarrow> int \<Rightarrow> ('x, bool) gh_call" where
  "trusted_workflow_run N owner repo run_id = do {
     a \<leftarrow> gh_get;
     if run_id \<le> 0 then ok False
     else if \<not> app_read_workflow_runs a
     then fail (ErrText ''workflow run read scope is not configured'')
     else
       check id (installation_token N) (\<lambda>token.
       check (ErrWrap ''verify workflow run: '')
         (gh_do N (repo_request ''GET'' (repo_url owner repo (''runs/'' @ itoa run_id)) token JNull)) (\<lambda>r.
         if hr_status r \<noteq> 200 then fail_status N r ''verifying workflow run''
         else case unmarshal (net_json N) dec_workflow_run zero_workflow_run (hr_body r) of
           Inl e \<Rightarrow> fail e
         | Inr run \<Rightarrow> ok (trusted_run owner repo run_id run))) }"

section \<open>Webhook signatures\<close>

text \<open>The keyed hash is a parameter; \<open>hmac.Equal\<close> has the value of equality.\<close>

definition verify_webhook_signature ::
    "(string \<Rightarrow> string \<Rightarrow> string) \<Rightarrow> string \<Rightarrow> string \<Rightarrow> string \<Rightarrow> bool" where
  "verify_webhook_signature hmac payload signature secret =
    (if \<not> has_prefix signature ''sha256='' then False
     else drop 7 signature = hex_encode (hmac secret payload))"

lemma has_prefix_iff: "has_prefix s p = (\<exists>t. s = p @ t)"
  by (auto simp: has_prefix_def) (metis append_take_drop_id)

lemma verify_webhook_signature_iff:
  "verify_webhook_signature hmac payload signature secret =
   (signature = ''sha256='' @ hex_encode (hmac secret payload))"
  by (auto simp: verify_webhook_signature_def has_prefix_iff)

end
