(* ===== verification/Controller_World.thy ===== *)
theory Controller_World
  imports Store_Runs Compute GitHub_API
begin

text \<open>
  The setting in which the webhook handler, the workers and the reaper run: the state store,
  the narrow interfaces \<open>GitHubClient\<close> and \<open>ComputeClient\<close> of \<open>internal/webhook/handler.go\<close>, the
  clock, the contexts, and the other goroutines.

  An environment is a record of functions over an outside world of any type: each call of a
  client yields its result and the next outside world. The other goroutines act on the store
  only through its operations, each of which is atomic; before every access of the store the
  environment may let them run any list of operations (\<open>e_others\<close>). A computation runs in the
  state monad over the store, the outside world, the pending wake-up signal of the workers and a
  log of the calls made, which has no counterpart in the code and on which ordering properties
  are stated.
\<close>

section \<open>Interfaces\<close>

text \<open>
  The contexts that the code passes: of the HTTP request, of the worker, the five-minute work
  context, the context of one reaper pass, and the detached ones made by \<open>WithoutCancel\<close>, without
  and with the 30 second limit.
\<close>

datatype ctx = CtxRequest | CtxWorker | CtxWork | CtxReap | CtxDetached | CtxCleanup

record 'x env =
  e_now :: "'x \<Rightarrow> time \<times> 'x"
  e_others :: "'x \<Rightarrow> (time \<times> store_op) list \<times> 'x"
  e_ctx_err :: "ctx \<Rightarrow> 'x \<Rightarrow> go_error option \<times> 'x"
  e_ingest_slot :: "'x \<Rightarrow> bool \<times> 'x"
  e_json :: "string \<Rightarrow> json option"
  e_hmac :: "string \<Rightarrow> string \<Rightarrow> string"
  e_sha256 :: "string \<Rightarrow> string"
  gc_trusted_run :: "ctx \<Rightarrow> string \<Rightarrow> string \<Rightarrow> int \<Rightarrow> 'x \<Rightarrow> (go_error + bool) \<times> 'x"
  gc_job_status :: "ctx \<Rightarrow> string \<Rightarrow> string \<Rightarrow> int \<Rightarrow> 'x \<Rightarrow> (go_error + job_status) \<times> 'x"
  gc_jit_config :: "ctx \<Rightarrow> string \<Rightarrow> string \<Rightarrow> string \<Rightarrow> int \<Rightarrow> string list \<Rightarrow> 'x \<Rightarrow> (go_error + jit_config) \<times> 'x"
  gc_runner_status :: "ctx \<Rightarrow> string \<Rightarrow> string \<Rightarrow> int \<Rightarrow> 'x \<Rightarrow> (go_error + runner_status) \<times> 'x"
  gc_remove_runner :: "ctx \<Rightarrow> string \<Rightarrow> string \<Rightarrow> int \<Rightarrow> 'x \<Rightarrow> go_error option \<times> 'x"
  cc_provider :: string
  cc_find :: "ctx \<Rightarrow> string \<Rightarrow> 'x \<Rightarrow> (go_error + runner_instance option) \<times> 'x"
  cc_create :: "ctx \<Rightarrow> runner_params \<Rightarrow> 'x \<Rightarrow> (go_error + runner_instance) \<times> 'x"
  cc_delete :: "ctx \<Rightarrow> string \<Rightarrow> string \<Rightarrow> 'x \<Rightarrow> go_error option \<times> 'x"
  cc_cleanup :: "ctx \<Rightarrow> string \<Rightarrow> 'x \<Rightarrow> go_error option \<times> 'x"
  cc_sweep :: "ctx \<Rightarrow> string list \<Rightarrow> time \<Rightarrow> 'x \<Rightarrow> (int \<times> go_error option) \<times> 'x"
  cc_absent :: "(ctx \<Rightarrow> string \<Rightarrow> 'x \<Rightarrow> (go_error + bool) \<times> 'x) option"
  cc_cleanup_except :: "(ctx \<Rightarrow> string \<Rightarrow> string \<Rightarrow> 'x \<Rightarrow> go_error option \<times> 'x) option"

datatype event =
    EvStore store_op "go_error option"
  | EvTrusted string string int "go_error + bool"
  | EvJobStatus string string int "go_error + job_status"
  | EvJIT string string string "go_error + jit_config"
  | EvRunnerStatus string string int "go_error + runner_status"
  | EvRemove string string int "go_error option"
  | EvFind string "go_error + runner_instance option"
  | EvCreate runner_params "go_error + runner_instance"
  | EvDelete string string "go_error option"
  | EvCleanup string "go_error option"
  | EvCleanupExcept string string "go_error option"
  | EvAbsent string "go_error + bool"
  | EvSweep "string list" time "go_error option"
  | EvAnswer store_op "go_error + bool"

record 'x world =
  w_store :: file_store
  w_outside :: 'x
  w_notify :: bool
  w_log :: "event list"

type_synonym ('x, 'a) act = "('x world, 'a) state"

abbreviation return where "return \<equiv> State_Monad.return"

section \<open>Primitive steps\<close>

definition outside :: "('x \<Rightarrow> 'a \<times> 'x) \<Rightarrow> ('x, 'a) act" where
  "outside f = State (\<lambda>w. case f (w_outside w) of (a, x) \<Rightarrow> (a, w\<lparr>w_outside := x\<rparr>))"

definition record_event :: "event \<Rightarrow> ('x, unit) act" where
  "record_event e = State (\<lambda>w. ((), w\<lparr>w_log := e # w_log w\<rparr>))"

text \<open>A call of a client, with its entry in the log.\<close>

definition call :: "('x \<Rightarrow> 'a \<times> 'x) \<Rightarrow> ('a \<Rightarrow> event) \<Rightarrow> ('x, 'a) act" where
  "call f ev = do { a \<leftarrow> outside f; _ \<leftarrow> record_event (ev a); return a }"

definition clock :: "'x env \<Rightarrow> ('x, time) act" where
  "clock E = outside (e_now E)"

definition ctx_err :: "'x env \<Rightarrow> ctx \<Rightarrow> ('x, go_error option) act" where
  "ctx_err E c = outside (e_ctx_err E c)"

text \<open>The other goroutines take their turn.\<close>

definition interleave :: "'x env \<Rightarrow> ('x, unit) act" where
  "interleave E = do {
     ops \<leftarrow> outside (e_others E);
     State (\<lambda>w. ((), w\<lparr>w_store := exec_ops ops (w_store w)\<rparr>)) }"

definition on_store :: "(file_store \<Rightarrow> 'a \<times> file_store) \<Rightarrow> ('x, 'a) act" where
  "on_store f = State (\<lambda>w. case f (w_store w) of (a, s) \<Rightarrow> (a, w\<lparr>w_store := s\<rparr>))"

text \<open>A mutating operation of the store with a result, and one that only reports an error.\<close>

definition store_call ::
    "'x env \<Rightarrow> store_op \<Rightarrow> (time \<Rightarrow> file_store \<Rightarrow> (go_error + 'a) \<times> file_store) \<Rightarrow> ('x, go_error + 'a) act" where
  "store_call E op f = do {
     _ \<leftarrow> interleave E;
     now \<leftarrow> clock E;
     r \<leftarrow> on_store (f now);
     _ \<leftarrow> record_event (EvStore op (failure r));
     return r }"

text \<open>The same, with the answer of the operation in the log.\<close>

definition store_ask ::
    "'x env \<Rightarrow> store_op \<Rightarrow> (time \<Rightarrow> file_store \<Rightarrow> (go_error + bool) \<times> file_store) \<Rightarrow> ('x, go_error + bool) act" where
  "store_ask E op f = do { r \<leftarrow> store_call E op f; _ \<leftarrow> record_event (EvAnswer op r); return r }"

definition store_do :: "'x env \<Rightarrow> store_op \<Rightarrow> ('x, go_error option) act" where
  "store_do E op = do {
     _ \<leftarrow> interleave E;
     now \<leftarrow> clock E;
     r \<leftarrow> on_store (exec_op now op);
     _ \<leftarrow> record_event (EvStore op r);
     return r }"

definition store_read :: "'x env \<Rightarrow> (file_store \<Rightarrow> 'a) \<Rightarrow> ('x, 'a) act" where
  "store_read E f = do { _ \<leftarrow> interleave E; on_store (\<lambda>s. (f s, s)) }"

text \<open>The queries of \<open>FileStore\<close> never report an error.\<close>

definition store_get :: "'x env \<Rightarrow> string \<Rightarrow> ('x, go_error + (runner_record \<times> bool)) act" where
  "store_get E key = store_read E (\<lambda>s. Inr (get key s))"

text \<open>\<open>signal\<close>: a send to a channel with one slot that is dropped when the slot is taken.\<close>

definition signal :: "('x, unit) act" where
  "signal = State (\<lambda>w. ((), w\<lparr>w_notify := True\<rparr>))"

section \<open>Calls of the clients\<close>

definition trusted_workflow_run_call where
  "trusted_workflow_run_call E c owner repo i =
    call (gc_trusted_run E c owner repo i) (EvTrusted owner repo i)"

definition workflow_job_status_call where
  "workflow_job_status_call E c owner repo i =
    call (gc_job_status E c owner repo i) (EvJobStatus owner repo i)"

definition generate_jit_call where
  "generate_jit_call E c owner repo name group_id labels =
    call (gc_jit_config E c owner repo name group_id labels) (EvJIT owner repo name)"

definition runner_status_call where
  "runner_status_call E c owner repo i =
    call (gc_runner_status E c owner repo i) (EvRunnerStatus owner repo i)"

definition remove_runner_call where
  "remove_runner_call E c owner repo i =
    call (gc_remove_runner E c owner repo i) (EvRemove owner repo i)"

definition find_runner_call where
  "find_runner_call E c key = call (cc_find E c key) (EvFind key)"

definition create_runner_call where
  "create_runner_call E c params = call (cc_create E c params) (EvCreate params)"

definition delete_runner_call where
  "delete_runner_call E c i key = call (cc_delete E c i key) (EvDelete i key)"

definition cleanup_runner_call where
  "cleanup_runner_call E c key = call (cc_cleanup E c key) (EvCleanup key)"

definition cleanup_except_call where
  "cleanup_except_call f c key i = call (f c key i) (EvCleanupExcept key i)"

definition runner_absent_call where
  "runner_absent_call f c i = call (f c i) (EvAbsent i)"

definition sweep_call where
  "sweep_call E c known cutoff =
    call (cc_sweep E c known cutoff) (\<lambda>r. EvSweep known cutoff (snd r))"

lemmas client_call_defs = trusted_workflow_run_call_def workflow_job_status_call_def
  generate_jit_call_def runner_status_call_def remove_runner_call_def find_runner_call_def
  create_runner_call_def delete_runner_call_def cleanup_runner_call_def cleanup_except_call_def
  runner_absent_call_def sweep_call_def

end
