(* ===== verification/Store_Markers.thy ===== *)
theory Store_Markers
  imports Store_Runs
begin

text \<open>
  Completion markers: the records that \<open>RecordCompletion\<close> leaves under a reserved key for a
  runner whose registration is not on record yet. They are bookkeeping, not jobs: no run of
  operations turns one into work for a worker.
\<close>

section \<open>Idle markers\<close>

definition marker_idle :: "runner_record \<Rightarrow> bool" where
  "marker_idle r \<longleftrightarrow>
    (r_status r = StatusCompleted \<or> r_status r = StatusDeleted \<or> r_status r = StatusOrphaned) \<and>
    r_claimed_work r = WorkNone \<and> r_instance_id r = [] \<and> \<not> r_github_runner_owned r \<and>
    \<not> r_recheck_demand r"

definition markers_idle :: "file_store \<Rightarrow> bool" where
  "markers_idle s \<longleftrightarrow> (\<forall>k r. is_marker_key k \<longrightarrow> lookup_record s k = Some r \<longrightarrow> marker_idle r)"

text \<open>What the callers guarantee beyond \<open>op_wf\<close>: no runner is reported for a marker.\<close>

fun op_on_job :: "store_op \<Rightarrow> bool" where
  "op_on_job (OpMarkProvisioned k i n nm) = (\<not> is_marker_key k)"
| "op_on_job op = op_wf op"

lemma op_on_job_wf: "op_on_job op \<Longrightarrow> op_wf op"
  by (cases op) auto

lemma mutator_marker: "marker_idle r \<Longrightarrow> marker_idle ((mutator now u r)\<lparr>r_updated_at := t\<rparr>)"
  by (cases u) (auto simp: mut_defs Let_def marker_idle_def split: work_kind.splits)

lemma claim_evolves_marker: "marker_idle r \<Longrightarrow> claim_evolves r r' \<Longrightarrow> r' = r"
  by (auto simp: marker_idle_def claim_evolves_def)

lemma claim_record_marker: "marker_idle r \<Longrightarrow> claim_record live mx n r = None"
  by (auto simp: marker_idle_def claim_record_def Let_def)

lemma markers_idle_same: "markers_idle s \<Longrightarrow> map_of (fs_records s') = map_of (fs_records s) \<Longrightarrow> markers_idle s'"
  by (simp add: markers_idle_def)

lemma markers_idle_put:
  "markers_idle s \<Longrightarrow> map_of (fs_records s') = (map_of (fs_records s))(k \<mapsto> r) \<Longrightarrow>
   (is_marker_key k \<Longrightarrow> marker_idle r) \<Longrightarrow> markers_idle s'"
  by (simp add: markers_idle_def)

lemma replaced_markers:
  assumes "store_inv s" and "markers_idle s" and "lookup_record s k = Some r"
    and "replace_record k r r' s = (err, s')" and "is_marker_key k \<Longrightarrow> marker_idle r \<Longrightarrow> marker_idle r'"
  shows "markers_idle s'"
proof -
  have "clean_ok s" using assms(1) by (simp add: store_inv_def)
  note spec = replace_record_spec(3) [OF this assms(3,4)]
  show ?thesis
  proof (cases err)
    case None
    with spec have "map_of (fs_records s') = (map_of (fs_records s))(k \<mapsto> r')" by simp
    moreover have "marker_idle r'" if "is_marker_key k"
      using that assms(2,3,5) by (simp add: markers_idle_def)
    ultimately show ?thesis by (rule markers_idle_put [OF assms(2)])
  next
    case (Some e)
    with spec show ?thesis by (intro markers_idle_same [OF assms(2)]) simp
  qed
qed

lemma result_markers:
  assumes "store_inv s" and "markers_idle s" and "lookup_record s k = Some r"
    and "(case replace_record k r r' s of (Some e, s) \<Rightarrow> (Inl e, s) | (None, s) \<Rightarrow> (Inr a, s)) = (res, s')"
    and "is_marker_key k \<Longrightarrow> marker_idle r \<Longrightarrow> marker_idle r'"
  shows "markers_idle s'"
  using assms(4) replaced_markers [OF assms(1-3) _ assms(5)]
  by (auto split: prod.splits option.splits)

lemma updated_markers:
  assumes "store_inv s" and "markers_idle s" and "update_record k f now s = (err, s')"
    and "\<And>r. is_marker_key k \<Longrightarrow> marker_idle r \<Longrightarrow> marker_idle ((f r)\<lparr>r_updated_at := now\<rparr>)"
  shows "markers_idle s'"
proof (cases "lookup_record s k")
  case None
  with assms show ?thesis by (simp add: update_record_def)
next
  case (Some r)
  with assms(3) have "replace_record k r ((f r)\<lparr>r_updated_at := now\<rparr>) s = (err, s')"
    by (simp add: update_record_def)
  from replaced_markers [OF assms(1,2) Some this assms(4)] show ?thesis .
qed

section \<open>Every operation\<close>

lemma record_completion_markers:
  assumes inv: "store_inv s" and idle: "markers_idle s" and fresh: "fresh_request c"
    and run: "record_completion c now s = (err, s')"
  shows "markers_idle s'"
proof -
  have ok: "clean_ok s" using inv by (simp add: store_inv_def)
  have key: "\<not> is_marker_key (r_key c)" using fresh by (simp add: fresh_request_def)
  from run ok key show ?thesis
  proof (cases rule: record_completion_cases)
    case recorded
    show ?thesis
      unfolding markers_idle_def
    proof (intro allI impI)
      fix k r assume mk: "is_marker_key k" and new: "lookup_record s' k = Some r"
      show "marker_idle r"
      proof (cases "map_of (completion_edits c now s) k")
        case None
        with new mk idle record_completion_lookup [OF key recorded(3)] show ?thesis
          by (auto simp: markers_idle_def)
      next
        case (Some v)
        then have "(k, v) \<in> set (completion_edits c now s)" by (rule map_of_SomeD)
        moreover have v: "v = Some r" using new Some record_completion_lookup [OF key recorded(3)] by simp
        ultimately show ?thesis
        proof (cases rule: completion_edits_cases)
          case (matched r0)
          with mk idle have "marker_idle r0" by (auto simp: markers_idle_def)
          with matched(2) show ?thesis by (simp add: marker_idle_def completion_matches_def)
        next
          case marker
          then have r: "r = marker_of c now" using v by simp
          from fresh show ?thesis
            by (simp add: r marker_of_def marker_idle_def fresh_request_def)
        qed (use mk key in auto)
      qed
    qed
  next
    case failed
    then show ?thesis by (intro markers_idle_same [OF idle])
  qed
qed

lemma mark_jit_created_markers:
  assumes inv: "store_inv s" and idle: "markers_idle s" and key: "\<not> is_marker_key k"
    and run: "mark_jit_created k i nm now s = (err, s')"
  shows "markers_idle s'"
proof -
  have ok: "clean_ok s" using inv by (simp add: store_inv_def)
  from run ok show ?thesis
  proof (cases rule: mark_jit_created_cases)
    case (registered r m)
    show ?thesis
    proof (cases m)
      case None
      with registered(6) key idle show ?thesis by (auto simp: jit_edits_def markers_idle_def)
    next
      case (Some mk)
      then have "lookup_record s (completion_marker_key (r_owner r) (r_repository r) i) = Some mk"
        using registered(4) by (auto simp: live_marker_def split: option.splits if_splits)
      then have "is_marker_key (completion_marker_key (r_owner r) (r_repository r) i) \<Longrightarrow> marker_idle mk"
        using idle by (simp add: markers_idle_def)
      then have spent: "is_marker_key (completion_marker_key (r_owner r) (r_repository r) i) \<Longrightarrow>
          marker_idle (spend_marker now mk)"
        by (simp add: spend_marker_def marker_idle_def)
      from idle key spent show ?thesis
        by (simp add: Some registered(6) jit_edits_def markers_idle_def)
    qed
  next
    case failed
    then show ?thesis by (intro markers_idle_same [OF idle])
  qed (use idle in simp_all)
qed

lemma exec_op_markers:
  assumes inv: "store_inv s" and cache: "cache_ok s" and idle: "markers_idle s"
    and op: "op_on_job op" and run: "exec_op now op s = (err, s')"
  shows "markers_idle s'"
proof (cases op)
  case (OpUpdate k u)
  with run have "update_record k (mutator now u) now s = (err, s')" by simp
  from updated_markers [OF inv idle this mutator_marker] show ?thesis .
next
  case (OpMarkProvisioned k i n nm)
  with run have "mark_provisioned k i n nm now s = (err, s')" by simp
  from mark_provisioned_update [OF this] obtain s1 m where
    up: "update_record k (mark_provisioned_mut now i n nm) now s = (err, s1)"
    and s': "s' = s1 \<or> s' = s1\<lparr>fs_runner_keys := m\<rparr>" .
  have "markers_idle s1" by (rule updated_markers [OF inv idle up]) (use OpMarkProvisioned op in simp)
  with s' show ?thesis by (auto simp: markers_idle_def)
next
  case (OpMarkDeletionAccepted k i)
  with run have "mark_deletion_accepted k i now s = (err, s')" by simp
  then show ?thesis
  proof (cases rule: mark_deletion_accepted_cases)
    case (accepted r)
    show ?thesis
      by (rule replaced_markers [OF inv idle accepted(1,6)]) (use accepted(4) in \<open>simp add: marker_idle_def\<close>)
  qed (use idle in simp)
next
  case (OpObserveRunnerMissing k d n)
  with run obtain res where ob: "observe_runner_missing k now d n s = (res, s')" by (auto dest: failure_run)
  show ?thesis
  proof (cases "lookup_record s k")
    case None
    with ob idle show ?thesis by (simp add: observe_runner_missing_def)
  next
    case (Some r)
    with ob idle show ?thesis
      by (simp add: observe_runner_missing_def Let_def split: if_splits)
        (erule result_markers [OF inv idle Some], simp add: marker_idle_def)+
  qed
next
  case (OpObserveGitHubMissing k d n)
  with run obtain res where ob: "observe_github_runner_missing k now d n s = (res, s')" by (auto dest: failure_run)
  show ?thesis
  proof (cases "lookup_record s k")
    case None
    with ob idle show ?thesis by (simp add: observe_github_runner_missing_def)
  next
    case (Some r)
    with ob idle show ?thesis
      by (simp add: observe_github_runner_missing_def Let_def split: if_splits)
        (erule result_markers [OF inv idle Some], simp add: marker_idle_def)+
  qed
next
  case (OpBeginCleanupAttempt k n)
  with run obtain res where bc: "begin_cleanup_attempt k n now s = (res, s')" by (auto dest: failure_run)
  show ?thesis
  proof (cases "lookup_record s k")
    case None
    with bc idle show ?thesis by (simp add: begin_cleanup_attempt_def)
  next
    case (Some r)
    with bc idle show ?thesis
      by (simp add: begin_cleanup_attempt_def Let_def split: if_splits)
        (erule result_markers [OF inv idle Some], simp add: marker_idle_def)+
  qed
next
  case (OpMarkJITCreated k i nm)
  with run op mark_jit_created_markers [OF inv idle] show ?thesis by auto
next
  case (OpCreate r)
  with run obtain res where cr: "create r now s = (res, s')" by (auto dest: failure_run)
  have key: "\<not> is_marker_key (r_key r)" using op OpCreate by (simp add: fresh_request_def)
  have "clean_ok s" using inv by (simp add: store_inv_def)
  from cr this show ?thesis
  proof (cases rule: create_cases)
    case created
    from markers_idle_put [OF idle created(4)] key show ?thesis by simp
  qed (use idle markers_idle_same in auto)
next
  case (OpRecordCompletion r)
  with run op record_completion_markers [OF inv idle] show ?thesis by auto
next
  case (OpClaimNext c n)
  with run obtain res where cl: "claim_next c now n s = (res, s')" by (auto dest: failure_run)
  show ?thesis
    unfolding markers_idle_def
  proof (intro allI impI)
    fix k r assume mk: "is_marker_key k" and new: "lookup_record s' k = Some r"
    from scan_evolves_SomeD [OF claim_next_spec(3) [OF inv cache cl] new] obtain r0 where
      "lookup_record s k = Some r0" "claim_evolves r0 r" by auto
    with mk idle claim_evolves_marker show "marker_idle r" by (auto simp: markers_idle_def)
  qed
next
  case (OpReleaseSweptOrphans p t)
  with run obtain res where rs: "release_swept_orphans p t now s = (res, s')" by (auto dest: failure_run)
  show ?thesis
  proof (cases res)
    case (Inl e)
    with idle release_swept_orphans_step(4) [OF inv rs] show ?thesis by (auto simp: markers_idle_def)
  next
    case (Inr n)
    note look = release_swept_orphans_step(5) [OF inv rs Inr]
    from idle show ?thesis
      by (auto simp: markers_idle_def look swept_orphan_def marker_idle_def split: if_splits)
  qed
next
  case OpPruneDeleted
  with run obtain res where pd: "prune_deleted now s = (res, s')" by (auto dest: failure_run)
  show ?thesis
  proof (cases res)
    case (Inl e)
    with idle prune_deleted_step(4) [OF inv pd] show ?thesis by (auto simp: markers_idle_def)
  next
    case (Inr n)
    note look = prune_deleted_step(5) [OF inv pd Inr]
    from idle show ?thesis
      by (auto simp: markers_idle_def look split: option.splits if_splits)
  qed
next
  case (OpSetMaxLiveRunners l)
  with run idle set_max_live_runners_step [of l s err s'] show ?thesis by (simp add: markers_idle_def)
qed

interpretation mk: op_invariant "\<lambda>s. store_inv s \<and> cache_ok s \<and> markers_idle s" "\<lambda>s. op_on_job"
  by unfold_locales (use exec_op_step exec_op_markers op_on_job_wf in blast)

text \<open>Under the invariant no marker is handed out.\<close>

lemma claim_not_marker:
  assumes inv: "store_inv s" and cache: "cache_ok s" and idle: "markers_idle s"
    and run: "claim_next c now n s = (Inr (Some (r, kind)), s')"
  shows "\<not> is_marker_key (r_key r)"
proof
  assume mk: "is_marker_key (r_key r)"
  from claim_next_spec(6) [OF inv cache run refl] obtain key r0 c0 where
    old: "lookup_record s key = Some r0" and cl: "claim_record (int (live_runner_count s))
        (fs_max_live_runners s) n r0 = Some c0" and r: "r = stamp_claim now c0" by blast
  have "r_key r0 = key" using inv old by (auto simp: store_inv_def dest: records_invD)
  moreover have "r_key r = r_key r0"
    using claim_record_ok(1) [OF cl, of now] r by (auto simp: claim_evolves_def same_job_def)
  ultimately have "marker_idle r0" using idle old mk by (simp add: markers_idle_def)
  with claim_record_marker cl show False by simp
qed

end
