(* ===== verification/Run_Logic.thy ===== *)
theory Run_Logic
  imports GitHub_API
begin

text \<open>
  Reasoning about runs of the state monad through a view of the state: \<open>ensures v m Q s\<close> says that
  a run of \<open>m\<close> from a state whose view \<open>v\<close> is \<open>s\<close> ends with a value and a view that satisfy \<open>Q\<close>.
  The rules take computations apart from the front; the collection \<open>ensures_intros\<close> holds those of
  the primitive steps of each component.
\<close>

named_theorems ensures_intros \<open>rules of the primitive steps\<close>

definition ensures ::
    "('s \<Rightarrow> 'v) \<Rightarrow> ('s, 'a) state \<Rightarrow> ('a \<Rightarrow> 'v \<Rightarrow> bool) \<Rightarrow> 'v \<Rightarrow> bool" where
  "ensures v m Q s \<longleftrightarrow> (\<forall>w a w'. v w = s \<longrightarrow> run_state m w = (a, w') \<longrightarrow> Q a (v w'))"

lemma ensuresI: "(\<And>w a w'. v w = s \<Longrightarrow> run_state m w = (a, w') \<Longrightarrow> Q a (v w')) \<Longrightarrow> ensures v m Q s"
  by (simp add: ensures_def)

lemma ensuresD: "ensures v m Q (v w) \<Longrightarrow> run_state m w = (a, w') \<Longrightarrow> Q a (v w')"
  by (simp add: ensures_def)

lemma ensures_return [ensures_intros]: "Q a s \<Longrightarrow> ensures v (State_Monad.return a) Q s"
  by (auto simp: ensures_def)

lemma ensures_bind [ensures_intros]:
  "ensures v m (\<lambda>a. ensures v (f a) Q) s \<Longrightarrow> ensures v (State_Monad.bind m f) Q s"
  by (rule ensuresI) (auto split: prod.splits dest!: ensuresD)

lemma ensures_mono: "ensures v m Q s \<Longrightarrow> (\<And>a t. Q a t \<Longrightarrow> R a t) \<Longrightarrow> ensures v m R s"
  by (simp add: ensures_def)

lemma ensures_conj: "ensures v m Q s \<Longrightarrow> ensures v m R s \<Longrightarrow> ensures v m (\<lambda>a t. Q a t \<and> R a t) s"
  by (simp add: ensures_def)

lemma ensures_ok [ensures_intros]: "Q (Inr a) s \<Longrightarrow> ensures v (ok a) Q s"
  unfolding ok_def by (rule ensures_return)

lemma ensures_fail [ensures_intros]: "Q (Inl e) s \<Longrightarrow> ensures v (fail e) Q s"
  unfolding fail_def by (rule ensures_return)

lemma ensures_check:
  "ensures v m (\<lambda>r s. case r of Inl e \<Rightarrow> Q (Inl (wrap e)) s | Inr a \<Rightarrow> ensures v (f a) Q s) s \<Longrightarrow>
   ensures v (check wrap m f) Q s"
  unfolding check_def
  by (intro ensures_bind, erule ensures_mono) (auto intro: ensures_fail split: sum.splits)

end
