(* ===== verification/Controller_Logic.thy ===== *)
theory Controller_Logic
  imports Controller_World Store_Markers Run_Logic
begin

text \<open>
  The rules of \<open>ensures\<close> for the primitive steps of the controller. The view is the store (for
  invariants) or the log (for the order of calls); in the first view the clients are arbitrary,
  in the second one the store is too.
\<close>

section \<open>The log\<close>

lemma ensures_log_outside [ensures_intros]:
  "(\<And>a. Q a l) \<Longrightarrow> ensures w_log (outside f) Q l"
  by (rule ensuresI) (auto simp: outside_def split: prod.splits)

lemma ensures_log_record [ensures_intros]: "Q () (e # l) \<Longrightarrow> ensures w_log (record_event e) Q l"
  by (rule ensuresI) (auto simp: record_event_def)

lemma ensures_log_interleave [ensures_intros]: "Q () l \<Longrightarrow> ensures w_log (interleave E) Q l"
  by (rule ensuresI) (auto simp: interleave_def outside_def split: prod.splits)

lemma ensures_log_on_store [ensures_intros]: "(\<And>a. Q a l) \<Longrightarrow> ensures w_log (on_store f) Q l"
  by (rule ensuresI) (auto simp: on_store_def split: prod.splits)

lemma ensures_log_signal [ensures_intros]: "Q () l \<Longrightarrow> ensures w_log signal Q l"
  by (rule ensuresI) (auto simp: signal_def)

lemma ensures_log_call [ensures_intros]:
  "(\<And>a. Q a (ev a # l)) \<Longrightarrow> ensures w_log (call f ev) Q l"
  unfolding call_def by (intro ensures_intros) simp

lemma ensures_log_clock [ensures_intros]: "(\<And>t. Q t l) \<Longrightarrow> ensures w_log (clock E) Q l"
  unfolding clock_def by (intro ensures_intros) simp

lemma ensures_log_ctx [ensures_intros]: "(\<And>e. Q e l) \<Longrightarrow> ensures w_log (ctx_err E c) Q l"
  unfolding ctx_err_def by (intro ensures_intros) simp

lemma ensures_log_store_do [ensures_intros]:
  "(\<And>e. Q e (EvStore op e # l)) \<Longrightarrow> ensures w_log (store_do E op) Q l"
  unfolding store_do_def by (intro ensures_intros) simp

lemma ensures_log_store_call [ensures_intros]:
  "(\<And>r. Q r (EvStore op (failure r) # l)) \<Longrightarrow> ensures w_log (store_call E op f) Q l"
  unfolding store_call_def by (intro ensures_intros) simp

lemma ensures_log_store_ask [ensures_intros]:
  "(\<And>r. Q r (EvAnswer op r # EvStore op (failure r) # l)) \<Longrightarrow> ensures w_log (store_ask E op f) Q l"
  unfolding store_ask_def by (intro ensures_intros) simp

text \<open>A read of the store has the form of the value, but any store.\<close>

lemma ensures_log_store_read [ensures_intros]:
  "(\<And>s. Q (f s) l) \<Longrightarrow> ensures w_log (store_read E f) Q l"
  unfolding store_read_def
  by (intro ensures_bind ensures_log_interleave) (rule ensuresI, auto simp: on_store_def)

lemma ensures_log_store_get [ensures_intros]:
  "(\<And>r b. Q (Inr (r, b)) l) \<Longrightarrow> ensures w_log (store_get E key) Q l"
  unfolding store_get_def by (rule ensures_log_store_read) (metis surj_pair)

text \<open>Calls made by a part of a computation: a condition on every event it adds.\<close>

definition adds :: "(event \<Rightarrow> bool) \<Rightarrow> event list \<Rightarrow> event list \<Rightarrow> bool" where
  "adds p l l' \<longleftrightarrow> (\<exists>es. l' = es @ l \<and> list_all p es)"

lemma adds_refl [simp]: "adds p l l"
  by (simp add: adds_def)

lemma adds_Cons [intro!]: "p e \<Longrightarrow> adds p l l' \<Longrightarrow> adds p l (e # l')"
  unfolding adds_def by (elim exE conjE) (rule_tac x = "e # es" in exI, simp)

lemma adds_trans: "adds p l l' \<Longrightarrow> adds p l' l'' \<Longrightarrow> adds p l l''"
  by (auto simp: adds_def)

lemma adds_mono: "adds p l l' \<Longrightarrow> (\<And>e. p e \<Longrightarrow> q e) \<Longrightarrow> adds q l l'"
  by (auto simp: adds_def list_all_iff)

lemma adds_set: "adds p l l' \<Longrightarrow> set l \<subseteq> set l'"
  by (auto simp: adds_def)

section \<open>The store\<close>

text \<open>What the operations of the other goroutines satisfy.\<close>

definition others_satisfy :: "'x env \<Rightarrow> (store_op \<Rightarrow> bool) \<Rightarrow> bool" where
  "others_satisfy E p \<longleftrightarrow> (\<forall>x. \<forall>(now, op) \<in> set (fst (e_others E x)). p op)"

text \<open>
  The contract of the store on which handler, workers and reaper rely: an invariant that every
  well-formed operation keeps, and under which no marker record is handed out as work.
\<close>

locale store_contract =
  fixes I :: "file_store \<Rightarrow> bool"
  assumes op_keeps: "I s \<Longrightarrow> op_on_job op \<Longrightarrow> exec_op now op s = (err, s') \<Longrightarrow> I s'"
    and claim_not_marker:
      "I s \<Longrightarrow> claim_next c now n s = (Inr (Some (r, kind)), s') \<Longrightarrow> \<not> is_marker_key (r_key r)"
begin

lemma ops_keep: "I s \<Longrightarrow> \<forall>(now, op) \<in> set ops. op_on_job op \<Longrightarrow> I (exec_ops ops s)"
proof (induction ops arbitrary: s)
  case (Cons e ops)
  obtain now op where e: "e = (now, op)" by fastforce
  obtain err s' where "exec_op now op s = (err, s')" by fastforce
  with Cons e op_keeps show ?case by auto
qed simp

definition keeps :: "('x, 'a) act \<Rightarrow> bool" where
  "keeps m \<longleftrightarrow> (\<forall>s. I s \<longrightarrow> ensures w_store m (\<lambda>a. I) s)"

lemma keepsI: "(\<And>w a w'. I (w_store w) \<Longrightarrow> run_state m w = (a, w') \<Longrightarrow> I (w_store w')) \<Longrightarrow> keeps m"
  by (auto simp: keeps_def ensures_def)

lemma keepsD: "keeps m \<Longrightarrow> I (w_store w) \<Longrightarrow> I (w_store (snd (run_state m w)))"
  by (metis keeps_def ensuresD prod.collapse)

lemma keeps_return [intro!]: "keeps (return a)"
  by (rule keepsI) auto

lemma keeps_bind [intro!]: "keeps m \<Longrightarrow> (\<And>a. keeps (f a)) \<Longrightarrow> keeps (State_Monad.bind m f)"
proof (rule keepsI)
  fix w b w'
  assume m: "keeps m" and f: "\<And>a. keeps (f a)" and I: "I (w_store w)"
    and run: "run_state (State_Monad.bind m f) w = (b, w')"
  obtain a v where v: "run_state m w = (a, v)" by fastforce
  with keepsD [OF m I] have "I (w_store v)" by simp
  from keepsD [OF f this, of a] run v show "I (w_store w')" by simp
qed

lemma keeps_outside [intro!]: "keeps (outside f)"
  by (rule keepsI) (auto simp: outside_def split: prod.splits)

lemma keeps_call [intro!]: "keeps (call f ev)"
  by (rule keepsI) (auto simp: call_def outside_def record_event_def split: prod.splits)

lemma keeps_record [intro!]: "keeps (record_event e)"
  by (rule keepsI) (auto simp: record_event_def)

lemma keeps_signal [intro!]: "keeps signal"
  by (rule keepsI) (auto simp: signal_def)

lemma keeps_clock [intro!]: "keeps (clock E)" "keeps (ctx_err E c)"
  unfolding clock_def ctx_err_def by (rule keeps_outside)+

lemma keeps_interleave: "others_satisfy E op_on_job \<Longrightarrow> keeps (interleave E)"
proof (rule keepsI)
  fix w a w'
  assume oth: "others_satisfy E op_on_job" and I: "I (w_store w)" and run: "run_state (interleave E) w = (a, w')"
  obtain ops x where ops: "e_others E (w_outside w) = (ops, x)" by fastforce
  with oth have "\<forall>(now, op) \<in> set ops. op_on_job op"
    by (metis others_satisfy_def fst_conv)
  with run ops ops_keep [OF I] show "I (w_store w')"
    by (auto simp: interleave_def outside_def)
qed

lemma keeps_on_store: "(\<And>s. I s \<Longrightarrow> I (snd (f s))) \<Longrightarrow> keeps (on_store f)"
proof (rule keepsI)
  fix w a w'
  assume f: "\<And>s. I s \<Longrightarrow> I (snd (f s))" and "I (w_store w)" and run: "run_state (on_store f) w = (a, w')"
  then have "I (snd (f (w_store w)))" by blast
  with run show "I (w_store w')" by (cases "f (w_store w)") (auto simp: on_store_def)
qed

lemma keeps_store_read [intro!]: "others_satisfy E op_on_job \<Longrightarrow> keeps (store_read E f)"
  unfolding store_read_def by (intro keeps_bind keeps_interleave keeps_on_store) auto

lemma keeps_store_get [intro!]: "others_satisfy E op_on_job \<Longrightarrow> keeps (store_get E key)"
  unfolding store_get_def by (rule keeps_store_read)

lemma keeps_store_do [intro!]:
  "others_satisfy E op_on_job \<Longrightarrow> op_on_job op \<Longrightarrow> keeps (store_do E op)"
  unfolding store_do_def
  by (intro keeps_bind keeps_interleave keeps_on_store keeps_clock keeps_record keeps_return)
    (assumption, metis op_keeps surjective_pairing)

lemma keeps_store_call [intro!]:
  assumes "others_satisfy E op_on_job" and "op_on_job op"
    and exec: "\<And>now s. map_prod failure id (f now s) = exec_op now op s"
  shows "keeps (store_call E op f)"
proof -
  have "I (snd (f now s))" if "I s" for now s
    using op_keeps [OF that assms(2) surjective_pairing, of now]
    by (simp add: exec [symmetric] snd_map_prod)
  with assms(1) show ?thesis
    unfolding store_call_def
    by (intro keeps_bind keeps_interleave keeps_on_store keeps_clock keeps_record keeps_return) auto
qed

end

end
