(* ===== verification/Webhook_Config.thy ===== *)
theory Webhook_Config
  imports Controller_Logic
begin

text \<open>
  The configuration of the handler (\<open>internal/webhook/handler.go\<close>, \<open>NewHandler\<close> and its
  helpers), the allowlists for repositories and labels, and the names derived from a job: the
  key of its record and the name of its runner.
\<close>

section \<open>Patterns\<close>

definition safe_name :: "string \<Rightarrow> bool" where
  [go_defs]: "safe_name s = matches is_alnum name_char 99 s"

definition safe_repo_name :: "string \<Rightarrow> bool" where
  [go_defs]: "safe_repo_name s \<longleftrightarrow> s = ''.github'' \<or> safe_name s"

definition delivery_id_ok :: "string \<Rightarrow> bool" where
  "delivery_id_ok s = matches id_char id_char 127 s"

definition checksum_ok :: "string \<Rightarrow> bool" where
  "checksum_ok s \<longleftrightarrow> length s = 64 \<and> list_all is_hex s"

definition version_ok :: "string \<Rightarrow> bool" where
  "version_ok s =
    (let parts = split_on (CHR ''.'') s
     in length parts = 3 \<and> list_all (\<lambda>p. p \<noteq> '''' \<and> list_all is_digit p) parts)"

section \<open>Configuration\<close>

text \<open>The three interface values of \<open>Config\<close> appear as whether they are not nil.\<close>

record config =
  cf_webhook_secret :: string
  cf_github_client :: bool
  cf_compute_client :: bool
  cf_store :: bool
  cf_required_label :: string
  cf_allowed_labels :: "string list"
  cf_allowed_repositories :: "string list"
  cf_allowed_public_repositories :: "string list"
  cf_runner_version :: string
  cf_runner_sha256 :: string
  cf_chef_installer_sha256 :: string
  cf_runner_group_id :: int
  cf_worker_count :: int
  cf_max_live_runners :: int
  cf_max_attempts :: int
  cf_poll_interval :: duration
  cf_max_runner_age :: duration
  cf_cancelled_runner_ttl :: duration
  cf_registration_timeout :: duration
  cf_liveness_settle_window :: duration
  cf_liveness_confirmations :: int
  cf_installation_id :: int

record handler =
  h_webhook_secret :: string
  h_required_label :: string
  h_allowed_labels :: "string gomap"
  h_allowed_repositories :: "string list"
  h_allowed_public_repositories :: "string list"
  h_runner_version :: string
  h_runner_sha256 :: string
  h_chef_installer_sha256 :: string
  h_runner_group_id :: int
  h_max_attempts :: int
  h_worker_count :: int
  h_poll_interval :: duration
  h_max_runner_age :: duration
  h_cancelled_runner_ttl :: duration
  h_registration_timeout :: duration
  h_liveness_settle_window :: duration
  h_liveness_confirmations :: int
  h_reaper_timeout :: duration
  h_liveness_check_interval :: duration
  h_installation_id :: int
  h_provider :: string
  h_ingest_wait :: duration

definition validate_handler_config :: "config \<Rightarrow> go_error option" where
  "validate_handler_config c =
    (if length (cf_webhook_secret c) < 32
     then Some (ErrText ''webhook secret must be at least 32 bytes'')
     else if \<not> cf_github_client c \<or> \<not> cf_compute_client c \<or> \<not> cf_store c
     then Some (ErrText ''GitHub client, compute client, and state store are required'')
     else if cf_installation_id c \<le> 0
     then Some (ErrText ''GitHub App installation ID is required'')
     else if \<not> version_ok (cf_runner_version c)
     then Some (ErrText ''runner version must use numeric x.y.z format'')
     else if \<not> checksum_ok (cf_runner_sha256 c)
     then Some (ErrText ''runner SHA-256 must be exactly 64 hexadecimal characters'')
     else if \<not> checksum_ok (cf_chef_installer_sha256 c)
     then Some (ErrText ''chef installer SHA-256 must be exactly 64 hexadecimal characters'')
     else None)"

fun label_loop :: "string list \<Rightarrow> string gomap \<Rightarrow> go_error + string gomap" where
  "label_loop [] allowed = Inr allowed"
| "label_loop (raw # raws) allowed =
    (let label = trim_space raw in
     if \<not> safe_name label then Inl (ErrText (''invalid allowed runner label '' @ go_quote raw))
     else label_loop raws (AList.update (to_lower label) label allowed))"

definition normalize_allowed_labels ::
    "string \<Rightarrow> string list \<Rightarrow> go_error + (string \<times> string gomap)" where
  "normalize_allowed_labels required raws =
    (let required_label = to_lower (trim_space required);
         required_label = (if required_label = '''' then ''self-hosted'' else required_label)
     in case label_loop raws [] of
          Inl e \<Rightarrow> Inl e
        | Inr allowed \<Rightarrow>
            if map_of allowed required_label = None
            then Inl (ErrText (''required label '' @ go_quote required_label @
                               '' must be present in allowed labels''))
            else Inr (required_label, allowed))"

definition valid_repository :: "string \<Rightarrow> bool" where
  "valid_repository repo =
    (case split_on (CHR ''/'') repo of
       [p, q] \<Rightarrow> safe_name p \<and> safe_repo_name (to_lower q)
     | _ \<Rightarrow> False)"

fun repository_loop :: "string list \<Rightarrow> string list \<Rightarrow> go_error + string list" where
  "repository_loop [] allowed = Inr allowed"
| "repository_loop (raw # raws) allowed =
    (let repo = to_lower (trim_space raw) in
     if \<not> valid_repository repo then Inl (ErrText (''invalid allowed repository '' @ go_quote raw))
     else repository_loop raws (List.insert repo allowed))"

definition normalize_allowed_repositories :: "string list \<Rightarrow> go_error + string list" where
  "normalize_allowed_repositories raws =
    (case repository_loop raws [] of
       Inl e \<Rightarrow> Inl e
     | Inr allowed \<Rightarrow>
         if length allowed = 0
         then Inl (ErrText ''at least one allowed repository is required'') else Inr allowed)"

fun public_loop :: "string list \<Rightarrow> string list \<Rightarrow> string list \<Rightarrow> go_error + string list" where
  "public_loop allowed [] public = Inr public"
| "public_loop allowed (raw # raws) public =
    (let repository = to_lower (trim_space raw) in
     if repository \<notin> set allowed
     then Inl (ErrText (''public repository '' @ go_quote raw @ '' is outside repository allowlist''))
     else public_loop allowed raws (List.insert repository public))"

text \<open>The configuration after defaults are filled in: the type \<open>handlerLimits\<close>.\<close>

record limits =
  li_worker_count :: int
  li_max_live_runners :: int
  li_max_attempts :: int
  li_poll_interval :: duration
  li_max_runner_age :: duration
  li_cancelled_runner_ttl :: duration
  li_registration_timeout :: duration
  li_liveness_settle_window :: duration
  li_liveness_confirmations :: int
  li_runner_group_id :: int

definition default_int :: "int \<Rightarrow> int \<Rightarrow> int" where
  "default_int value fallback = (if value \<le> 0 then fallback else value)"

definition resolve_handler_limits :: "config \<Rightarrow> go_error + limits" where
  "resolve_handler_limits c =
    (let l = \<lparr>li_worker_count = default_int (cf_worker_count c) 4,
              li_max_live_runners = default_int (cf_max_live_runners c) 20,
              li_max_attempts = default_int (cf_max_attempts c) 5,
              li_poll_interval = default_int (cf_poll_interval c) second,
              li_max_runner_age = default_int (cf_max_runner_age c) (6 * hour),
              li_cancelled_runner_ttl = default_int (cf_cancelled_runner_ttl c) (5 * minute),
              li_registration_timeout = default_int (cf_registration_timeout c) (10 * minute),
              li_liveness_settle_window = default_int (cf_liveness_settle_window c) (2 * minute),
              li_liveness_confirmations = default_int (cf_liveness_confirmations c) 3,
              li_runner_group_id = default_int (cf_runner_group_id c) 1\<rparr>
     in if li_max_runner_age l < hour
        then Inl (ErrText ''maximum runner age must be at least one hour'')
        else if li_cancelled_runner_ttl l < minute
        then Inl (ErrText ''cancelled runner TTL must be at least one minute'')
        else if li_registration_timeout l < minute \<or> li_registration_timeout l > hour
        then Inl (ErrText ''runner registration timeout must be between one minute and one hour'')
        else Inr l)"

text \<open>\<open>max(5*time.Minute, time.Duration(n+10)*30*time.Second)\<close>, with the wrap-around of \<open>int64\<close>.\<close>

definition reaper_timeout :: "int \<Rightarrow> duration" where
  "reaper_timeout n = max (5 * minute) (wrap64 (wrap64 (wrap64 (n + 10) * 30) * second))"

definition new_handler :: "'x env \<Rightarrow> config \<Rightarrow> file_store \<Rightarrow> (go_error + handler) \<times> file_store" where
  "new_handler E c s =
    (case validate_handler_config c of Some e \<Rightarrow> (Inl e, s) | None \<Rightarrow>
    (case normalize_allowed_labels (cf_required_label c) (cf_allowed_labels c) of
       Inl e \<Rightarrow> (Inl e, s) | Inr (required_label, allowed_labels) \<Rightarrow>
    (case normalize_allowed_repositories (cf_allowed_repositories c) of
       Inl e \<Rightarrow> (Inl e, s) | Inr allowed_repositories \<Rightarrow>
    (case public_loop allowed_repositories (cf_allowed_public_repositories c) [] of
       Inl e \<Rightarrow> (Inl e, s) | Inr allowed_public \<Rightarrow>
    (case resolve_handler_limits c of Inl e \<Rightarrow> (Inl e, s) | Inr l \<Rightarrow>
    (case set_max_live_runners (li_max_live_runners l) s of
       (Some e, s) \<Rightarrow> (Inl e, s)
     | (None, s) \<Rightarrow>
         (Inr \<lparr>h_webhook_secret = cf_webhook_secret c, h_required_label = required_label,
               h_allowed_labels = allowed_labels, h_allowed_repositories = allowed_repositories,
               h_allowed_public_repositories = allowed_public,
               h_runner_version = cf_runner_version c,
               h_runner_sha256 = to_lower (cf_runner_sha256 c),
               h_chef_installer_sha256 = to_lower (cf_chef_installer_sha256 c),
               h_runner_group_id = li_runner_group_id l, h_max_attempts = li_max_attempts l,
               h_worker_count = li_worker_count l, h_poll_interval = li_poll_interval l,
               h_max_runner_age = li_max_runner_age l,
               h_cancelled_runner_ttl = li_cancelled_runner_ttl l,
               h_registration_timeout = li_registration_timeout l,
               h_liveness_settle_window = li_liveness_settle_window l,
               h_liveness_confirmations = li_liveness_confirmations l,
               h_reaper_timeout = reaper_timeout (li_max_live_runners l),
               h_liveness_check_interval = 5 * minute,
               h_installation_id = cf_installation_id c, h_provider = cc_provider E,
               h_ingest_wait = 3 * second\<rparr>, s)))))))"

section \<open>Repositories and labels\<close>

record repo_info =
  ro_full_name :: string
  ro_name :: string
  ro_private :: bool
  ro_owner_login :: string

definition validate_repository :: "handler \<Rightarrow> repo_info \<Rightarrow> go_error + (string \<times> bool)" where
  "validate_repository h repo =
    (if \<not> safe_name (ro_owner_login repo) \<or> \<not> safe_repo_name (to_lower (ro_name repo))
     then Inl (ErrText ''invalid owner or repository name'')
     else
       let full_name = to_lower (ro_owner_login repo @ ''/'' @ ro_name repo) in
       if \<not> equal_fold (ro_full_name repo) full_name
       then Inl (ErrText ''repository identity fields disagree'')
       else if \<not> ro_private repo \<and> full_name \<notin> set (h_allowed_public_repositories h)
       then Inr (full_name, False)
       else if full_name \<notin> set (h_allowed_repositories h) then Inr (full_name, False)
       else Inr (full_name, True))"

text \<open>The loop of \<open>validateLabels\<close>: \<open>seen_required\<close>, the keys seen and the result so far.\<close>

fun validate_labels_loop ::
    "handler \<Rightarrow> string list \<Rightarrow> bool \<Rightarrow> string list \<Rightarrow> string list \<Rightarrow> go_error + string list" where
  "validate_labels_loop h [] seen_required seen result =
     (if \<not> seen_required
      then Inl (ErrText (''required label '' @ go_quote (h_required_label h) @ '' is missing''))
      else Inr result)"
| "validate_labels_loop h (raw # raws) seen_required seen result =
     (let key = to_lower (trim_space raw) in
      case map_of (h_allowed_labels h) key of
        None \<Rightarrow> Inl (ErrText (''label '' @ go_quote raw @ '' is not allowlisted''))
      | Some canonical \<Rightarrow>
          if key \<in> set seen
          then validate_labels_loop h raws (seen_required \<or> key = h_required_label h) seen result
          else validate_labels_loop h raws (seen_required \<or> key = h_required_label h)
                 (key # seen) (result @ [canonical]))"

definition validate_labels :: "handler \<Rightarrow> string list \<Rightarrow> go_error + string list" where
  "validate_labels h requested = validate_labels_loop h requested False [] []"

text \<open>\<open>None\<close> is a job that is not targeted at this controller.\<close>

definition authorize_labels :: "handler \<Rightarrow> string list \<Rightarrow> (go_error + string list) option" where
  "authorize_labels h requested =
    (if list_ex (\<lambda>raw. equal_fold (trim_space raw) (h_required_label h)) requested
     then Some (validate_labels h requested) else None)"

section \<open>Names\<close>

definition job_key :: "string \<Rightarrow> int \<Rightarrow> string" where
  "job_key repository job_id = to_lower repository @ '':'' @ itoa job_id"

definition runner_base_char :: "char \<Rightarrow> char" where
  "runner_base_char c = (if is_lower c \<or> is_digit c then c else CHR ''-'')"

definition trim_right :: "char \<Rightarrow> string \<Rightarrow> string" where
  "trim_right c s = rev (dropWhile (\<lambda>d. d = c) (rev s))"

text \<open>The hash is a parameter that yields the 32 bytes of SHA-256.\<close>

definition runner_name :: "(string \<Rightarrow> string) \<Rightarrow> string \<Rightarrow> int \<Rightarrow> string" where
  "runner_name sha repository job_id =
    (let base = map runner_base_char (to_lower repository);
         suffix = ''-'' @ hex_encode (take 6 (sha (job_key repository job_id)));
         max_base = 63 - length ''eph-'' - length suffix;
         base = (if length base > max_base then take max_base base else base);
         base = trim_right (CHR ''-'') base
     in ''eph-'' @ base @ suffix)"

definition looks_like_ephemeral_runner_name :: "string \<Rightarrow> bool" where
  "looks_like_ephemeral_runner_name name =
    (if \<not> has_prefix name ''eph-'' \<or> length name < length ''eph-x-'' + 12 then False
     else hex_decode (drop (length name - 12) name) \<noteq> None)"

section \<open>Delays\<close>

definition retry_delay :: "int \<Rightarrow> duration" where
  "retry_delay attempt =
    (let attempt = (if attempt < 1 then 1 else attempt);
         attempt = (if attempt > 6 then 6 else attempt)
     in 2 ^ nat (attempt - 1) * 5 * second)"

text \<open>
  The jitter is the reading of the clock in nanoseconds since the Unix epoch, as \<open>uint64\<close>,
  modulo one second.
\<close>

definition clamp_throttle_retry_at :: "time \<Rightarrow> time \<Rightarrow> time" where
  "clamp_throttle_retry_at now retry_at =
    (let floor = now + 5 * second in
     if retry_at > floor then retry_at
     else floor + ((now - 62135596800 * second) mod 18446744073709551616) mod second)"

end
