(* ===== verification/Webhook_Ingress.thy ===== *)
theory Webhook_Ingress
  imports Webhook_Config
begin

text \<open>
  \<open>ServeHTTP\<close> of \<open>internal/webhook/handler.go\<close>: authentication of a delivery, authorization of
  its installation, repository, labels and workflow run, and the store operation that admits the
  job or records its completion. A response is its status and its text.
\<close>

section \<open>Requests and events\<close>

record http_delivery =
  hd_method :: string
  hd_headers :: "string gomap"
  hd_body :: "go_error + string"

record workflow_job =
  wj_run_id :: int
  wj_id :: int
  wj_name :: string
  wj_labels :: "string list"
  wj_runner_id :: int
  wj_runner_name :: string

record workflow_job_event =
  ev_action :: string
  ev_job :: workflow_job
  ev_repo :: repo_info
  ev_installation_id :: int

definition zero_event :: workflow_job_event where
  "zero_event =
    \<lparr>ev_action = '''', ev_job = \<lparr>wj_run_id = 0, wj_id = 0, wj_name = '''', wj_labels = [],
       wj_runner_id = 0, wj_runner_name = ''''\<rparr>,
     ev_repo = \<lparr>ro_full_name = '''', ro_name = '''', ro_private = False, ro_owner_login = ''''\<rparr>,
     ev_installation_id = 0\<rparr>"

definition dec_workflow_job :: "workflow_job dec" where
  "dec_workflow_job = dec_struct
    [(''run_id'', field wj_run_id (\<lambda>v. wj_run_id_update (\<lambda>_. v)) dec_int64),
     (''id'', field wj_id (\<lambda>v. wj_id_update (\<lambda>_. v)) dec_int64),
     (''name'', field wj_name (\<lambda>v. wj_name_update (\<lambda>_. v)) dec_string),
     (''labels'', field wj_labels (\<lambda>v. wj_labels_update (\<lambda>_. v)) (dec_list dec_string '''')),
     (''runner_id'', field wj_runner_id (\<lambda>v. wj_runner_id_update (\<lambda>_. v)) dec_int64),
     (''runner_name'', field wj_runner_name (\<lambda>v. wj_runner_name_update (\<lambda>_. v)) dec_string)]"

definition dec_repo_info :: "repo_info dec" where
  "dec_repo_info = dec_struct
    [(''full_name'', field ro_full_name (\<lambda>v. ro_full_name_update (\<lambda>_. v)) dec_string),
     (''name'', field ro_name (\<lambda>v. ro_name_update (\<lambda>_. v)) dec_string),
     (''private'', field ro_private (\<lambda>v. ro_private_update (\<lambda>_. v)) dec_bool),
     (''owner'', dec_struct
        [(''login'', field ro_owner_login (\<lambda>v. ro_owner_login_update (\<lambda>_. v)) dec_string)])]"

definition dec_workflow_job_event :: "workflow_job_event dec" where
  "dec_workflow_job_event = dec_struct
    [(''action'', field ev_action (\<lambda>v. ev_action_update (\<lambda>_. v)) dec_string),
     (''workflow_job'', field ev_job (\<lambda>v. ev_job_update (\<lambda>_. v)) dec_workflow_job),
     (''repository'', field ev_repo (\<lambda>v. ev_repo_update (\<lambda>_. v)) dec_repo_info),
     (''installation'', dec_struct
        [(''id'', field ev_installation_id (\<lambda>v. ev_installation_id_update (\<lambda>_. v)) dec_int64)])]"

type_synonym response = "int \<times> string"

definition max_body_size :: nat where
  "max_body_size = 1 * 1024 * 1024"

text \<open>\<open>http.MaxBytesReader\<close> makes the read of a longer body fail.\<close>

definition read_body :: "http_delivery \<Rightarrow> string option" where
  "read_body rq =
    (case hd_body rq of
       Inl e \<Rightarrow> None
     | Inr body \<Rightarrow> if length body > max_body_size then None else Some body)"

section \<open>Queued jobs\<close>

definition queued_record ::
    "handler \<Rightarrow> workflow_job_event \<Rightarrow> string \<Rightarrow> string \<Rightarrow> string list \<Rightarrow> runner_record" where
  "queued_record h event key delivery_id labels =
    zero_record\<lparr>r_key := key, r_delivery_id := delivery_id, r_job_id := wj_id (ev_job event),
      r_owner := ro_owner_login (ev_repo event), r_repository := ro_name (ev_repo event),
      r_labels := labels, r_provider := h_provider h\<rparr>"

definition handle_queued ::
    "'x env \<Rightarrow> handler \<Rightarrow> http_delivery \<Rightarrow> workflow_job_event \<Rightarrow> string \<Rightarrow> string list \<Rightarrow>
     ('x, response) act" where
  "handle_queued E h rq event key labels =
    (let delivery_id = header_get (hd_headers rq) ''X-GitHub-Delivery'' in
     if \<not> delivery_id_ok delivery_id then return (400, ''missing or invalid delivery ID'')
     else
       let r = queued_record h event key delivery_id labels in
       do { created \<leftarrow> store_call E (OpCreate r) (create r);
            case created of
              Inl e \<Rightarrow> return (503, ''state unavailable'')
            | Inr False \<Rightarrow> return (200, ''duplicate'')
            | Inr True \<Rightarrow> do { _ \<leftarrow> signal; return (202, ''queued'') } })"

text \<open>The case \<open>queued\<close> of the switch.\<close>

definition serve_queued ::
    "'x env \<Rightarrow> handler \<Rightarrow> http_delivery \<Rightarrow> workflow_job_event \<Rightarrow> string \<Rightarrow> ('x, response) act" where
  "serve_queued E h rq event key =
    (case authorize_labels h (wj_labels (ev_job event)) of
       None \<Rightarrow> return (200, ''ignored'')
     | Some (Inl e) \<Rightarrow> return (403, ''runner labels not authorized'')
     | Some (Inr labels) \<Rightarrow>
         if \<not> ro_private (ev_repo event) \<or> length (h_allowed_public_repositories h) > 0 then
           do { trusted \<leftarrow> trusted_workflow_run_call E CtxRequest (ro_owner_login (ev_repo event))
                  (ro_name (ev_repo event)) (wj_run_id (ev_job event));
                case trusted of
                  Inl e \<Rightarrow> return (503, ''workflow verification unavailable'')
                | Inr False \<Rightarrow> return (403, ''workflow event not authorized'')
                | Inr True \<Rightarrow> handle_queued E h rq event key labels }
         else handle_queued E h rq event key labels)"

section \<open>Completed jobs\<close>

definition completion_record ::
    "handler \<Rightarrow> workflow_job_event \<Rightarrow> string \<Rightarrow> time \<Rightarrow> runner_record" where
  "completion_record h event key now =
    zero_record\<lparr>r_key := key, r_job_id := wj_id (ev_job event),
      r_owner := ro_owner_login (ev_repo event), r_repository := ro_name (ev_repo event),
      r_provider := h_provider h, r_github_runner_id := wj_runner_id (ev_job event),
      r_runner_name := wj_runner_name (ev_job event),
      r_next_attempt_at := now + h_cancelled_runner_ttl h\<rparr>"

definition accept_completion ::
    "'x env \<Rightarrow> handler \<Rightarrow> workflow_job_event \<Rightarrow> string \<Rightarrow> ('x, response) act" where
  "accept_completion E h event key = do {
     now \<leftarrow> clock E;
     err \<leftarrow> store_do E (OpRecordCompletion (completion_record h event key now));
     case err of
       Some e \<Rightarrow> return (503, ''state unavailable'')
     | None \<Rightarrow> do { _ \<leftarrow> signal; return (202, ''completion recorded'') } }"

text \<open>The case \<open>completed\<close> of the switch.\<close>

definition serve_completed ::
    "'x env \<Rightarrow> handler \<Rightarrow> workflow_job_event \<Rightarrow> string \<Rightarrow> ('x, response) act" where
  "serve_completed E h event key =
    (case authorize_labels h (wj_labels (ev_job event)) of
       None \<Rightarrow> return (200, ''ignored'')
     | Some (Inl e) \<Rightarrow> return (403, ''runner labels not authorized'')
     | Some (Inr labels) \<Rightarrow> do {
         got \<leftarrow> store_get E key;
         case got of
           Inl e \<Rightarrow> return (503, ''state unavailable'')
         | Inr (r, True) \<Rightarrow> accept_completion E h event key
         | Inr (r, False) \<Rightarrow> do {
             owned \<leftarrow> store_read E (owns_runner (ro_owner_login (ev_repo event))
                        (ro_name (ev_repo event)) (wj_runner_id (ev_job event)));
             if \<not> owned \<and> \<not> looks_like_ephemeral_runner_name (wj_runner_name (ev_job event))
             then return (200, ''ignored'')
             else accept_completion E h event key } })"

section \<open>The handler\<close>

text \<open>From the decoded event on.\<close>

definition serve_event ::
    "'x env \<Rightarrow> handler \<Rightarrow> http_delivery \<Rightarrow> workflow_job_event \<Rightarrow> ('x, response) act" where
  "serve_event E h rq event =
    (if ev_installation_id event \<noteq> h_installation_id h
     then return (403, ''installation not authorized'')
     else case validate_repository h (ev_repo event) of
       Inl e \<Rightarrow> return (403, ''repository not authorized'')
     | Inr (repository, False) \<Rightarrow> return (200, ''ignored'')
     | Inr (repository, True) \<Rightarrow>
         (let key = job_key repository (wj_id (ev_job event)) in
          if ev_action event = ''queued'' then serve_queued E h rq event key
          else if ev_action event = ''completed'' then serve_completed E h event key
          else return (200, ''ignored'')))"

text \<open>A delivery occupies one of 64 ingest slots while it is processed; the environment says
whether one became free before the timer fired.\<close>

definition serve_http :: "'x env \<Rightarrow> handler \<Rightarrow> http_delivery \<Rightarrow> ('x, response) act" where
  "serve_http E h rq =
    (if hd_method rq \<noteq> ''POST'' then return (405, ''method not allowed'')
     else case read_body rq of
       None \<Rightarrow> return (400, ''invalid request'')
     | Some body \<Rightarrow>
         if \<not> verify_webhook_signature (e_hmac E) body
               (header_get (hd_headers rq) ''X-Hub-Signature-256'') (h_webhook_secret h)
         then return (401, ''unauthorized'')
         else if header_get (hd_headers rq) ''X-GitHub-Event'' \<noteq> ''workflow_job''
         then return (200, ''ignored'')
         else do {
           free \<leftarrow> outside (e_ingest_slot E);
           if \<not> free then return (503, ''webhook ingest busy; retry later'')
           else case unmarshal (e_json E) dec_workflow_job_event zero_event body of
             Inl e \<Rightarrow> return (400, ''invalid request'')
           | Inr event \<Rightarrow> serve_event E h rq event })"

end
