(* ===== verification/Webhook_Worker.thy ===== *)
theory Webhook_Worker
  imports Webhook_Ingress
begin

text \<open>
  The workers of \<open>internal/webhook/handler.go\<close>: claiming work, provisioning a runner, deleting
  one, and what they do about each failure. An error that the code only logs is dropped here;
  log messages have no counterpart.
\<close>

section \<open>Shared steps\<close>

abbreviation remove_jit :: "'x env \<Rightarrow> ctx \<Rightarrow> runner_record \<Rightarrow> ('x, go_error option) act" where
  "remove_jit E c r \<equiv>
    remove_runner_call E c (r_owner r) (r_repository r) (r_github_runner_id r)"

abbreviation update :: "'x env \<Rightarrow> string \<Rightarrow> update_op \<Rightarrow> ('x, go_error option) act" where
  "update E key u \<equiv> store_do E (OpUpdate key u)"

definition release_claim_h :: "'x env \<Rightarrow> runner_record \<Rightarrow> work_kind \<Rightarrow> ('x, unit) act" where
  "release_claim_h E r kind = do { _ \<leftarrow> update E (r_key r) (UReleaseClaim kind); return () }"

definition the_text :: "go_error option \<Rightarrow> string" where
  "the_text e = (case e of None \<Rightarrow> '''' | Some e \<Rightarrow> error_text e)"

text \<open>\<open>markOrphaned\<close>: deregister the runner first; the orphan keeps its identity when that fails.\<close>

definition mark_orphaned_h :: "'x env \<Rightarrow> runner_record \<Rightarrow> go_error \<Rightarrow> ('x, go_error option) act" where
  "mark_orphaned_h E r cause = do {
     cleanup_err \<leftarrow>
       (if owned_jit r then
          do { rm \<leftarrow> remove_jit E CtxCleanup r;
               case rm of
                 Some e \<Rightarrow> return (Some (ErrWrap (''deregister orphaned GitHub runner '' @
                             itoa (r_github_runner_id r) @ '': '') e))
               | None \<Rightarrow> do {
                   c \<leftarrow> update E (r_key r) UClearJIT;
                   return (map_option (ErrWrap ''clear orphaned GitHub runner identity: '') c) } }
        else return None);
     let orphan_cause = errors_join [Some cause, cleanup_err];
     err \<leftarrow> update E (r_key r) (UMarkOrphaned (the_text orphan_cause));
     case err of
       Some e \<Rightarrow> return (errors_join [orphan_cause,
                   Some (ErrWrap (''persist orphaned runner '' @ r_key r @ '': '') e)])
     | None \<Rightarrow> return cleanup_err }"

section \<open>A failed provisioning\<close>

definition canceled :: "go_error \<Rightarrow> bool" where
  "canceled e \<longleftrightarrow> errors_is e ErrCanceled \<or> errors_is e ErrDeadlineExceeded"

text \<open>
  The cleanup of an exhausted provisioning; the result is whether the failure still has to be
  recorded.
\<close>

definition cleanup_exhausted_provision :: "'x env \<Rightarrow> runner_record \<Rightarrow> ('x, bool) act" where
  "cleanup_exhausted_provision E r = do {
     cleanup_err \<leftarrow> cleanup_runner_call E CtxCleanup (r_key r);
     case cleanup_err of
       Some e \<Rightarrow>
         if errors_is e ErrOwnershipMismatch
         then do { _ \<leftarrow> mark_orphaned_h E r e; return False }
         else return True
     | None \<Rightarrow> return True }"

definition remove_exhausted_jit :: "'x env \<Rightarrow> runner_record \<Rightarrow> ('x, unit) act" where
  "remove_exhausted_jit E r =
    (if owned_jit r then
       do { rm \<leftarrow> remove_jit E CtxCleanup r;
            case rm of
              Some e \<Rightarrow> return ()
            | None \<Rightarrow> do { _ \<leftarrow> update E (r_key r) UClearJIT; return () } }
     else return ())"

definition record_provision_failure ::
    "'x env \<Rightarrow> handler \<Rightarrow> runner_record \<Rightarrow> go_error \<Rightarrow> ('x, unit) act" where
  "record_provision_failure E h r err = do {
     now \<leftarrow> clock E;
     _ \<leftarrow> update E (r_key r) (UMarkProvisionFailed (error_text err)
            (now + retry_delay (r_attempts r)) (h_max_attempts h));
     signal }"

definition provision_failed ::
    "'x env \<Rightarrow> handler \<Rightarrow> runner_record \<Rightarrow> go_error \<Rightarrow> ('x, unit) act" where
  "provision_failed E h r err =
    (if canceled err then release_claim_h E r WorkProvision
     else case rate_limit_reset err of
       Some retry_at \<Rightarrow> do {
         now \<leftarrow> clock E;
         _ \<leftarrow> update E (r_key r) (UDeferRateLimitedWork WorkProvision (error_text err)
                (clamp_throttle_retry_at now retry_at) (h_max_attempts h));
         return () }
     | None \<Rightarrow>
         if errors_is err ErrCreateOutcomeUnknown
         then do { _ \<leftarrow> mark_orphaned_h E r err; return () }
         else if r_attempts r \<ge> h_max_attempts h
         then do {
           pending \<leftarrow> cleanup_exhausted_provision E r;
           if \<not> pending then return ()
           else do { _ \<leftarrow> remove_exhausted_jit E r; record_provision_failure E h r err } }
         else record_provision_failure E h r err)"

section \<open>Demand\<close>

definition remove_idle_jit :: "'x env \<Rightarrow> ctx \<Rightarrow> runner_record \<Rightarrow> ('x, go_error option) act" where
  "remove_idle_jit E c r =
    (if \<not> owned_jit r then return None
     else do {
       rm \<leftarrow> remove_jit E c r;
       case rm of
         Some e \<Rightarrow> return (Some (ErrWrap ''deregister runner without original job demand: '' e))
       | None \<Rightarrow> do {
           err \<leftarrow> update E (r_key r) UClearJIT;
           return (map_option (ErrWrap ''clear retired runner registration: '') err) } })"

definition defer_demand_check ::
    "'x env \<Rightarrow> handler \<Rightarrow> runner_record \<Rightarrow> go_error \<Rightarrow> ('x, unit) act" where
  "defer_demand_check E h r cause = do {
     dead \<leftarrow> ctx_err E CtxWork;
     if dead \<noteq> None then provision_failed E h r cause
     else do {
       now \<leftarrow> clock E;
       later \<leftarrow> clock E;
       let retry_at = (case rate_limit_reset cause of
                         Some reset \<Rightarrow> clamp_throttle_retry_at later reset
                       | None \<Rightarrow> now + minute);
       _ \<leftarrow> update E (r_key r) (UDeferProvisioningDemand (error_text cause) retry_at);
       signal } }"

definition retire_provisioning :: "'x env \<Rightarrow> string \<Rightarrow> ('x, go_error option) act" where
  "retire_provisioning E key = do {
     got \<leftarrow> store_get E key;
     case got of
       Inl e \<Rightarrow> return (Some (ErrWrap ''read obsolete provision: '' e))
     | Inr (r, False) \<Rightarrow> return (Some (ErrText ''obsolete provision record not found''))
     | Inr (r, True) \<Rightarrow>
         if r_instance_id r = '''' then update E key UMarkDeleted
         else do {
           err \<leftarrow> update E key UMarkCompleted;
           case err of
             Some e \<Rightarrow> return (Some (ErrWrap ''mark obsolete provision completed: '' e))
           | None \<Rightarrow> do {
               err \<leftarrow> update E key (UReleaseClaim WorkProvision);
               case err of
                 Some e \<Rightarrow> return (Some (ErrWrap ''release obsolete provision claim: '' e))
               | None \<Rightarrow> update E key UScheduleDeletion } } }"

text \<open>The end of \<open>requireQueuedJob\<close> when the job needs no runner: deregister, then retire.\<close>

definition retire_idle_job ::
    "'x env \<Rightarrow> handler \<Rightarrow> runner_record \<Rightarrow> (go_error \<Rightarrow> go_error) \<Rightarrow> ('x, bool) act" where
  "retire_idle_job E h r wrap = do {
     err \<leftarrow> remove_idle_jit E CtxWork r;
     case err of
       Some e \<Rightarrow> do { _ \<leftarrow> defer_demand_check E h r e; return False }
     | None \<Rightarrow> do {
         err \<leftarrow> retire_provisioning E (r_key r);
         case err of
           Some e \<Rightarrow> do { _ \<leftarrow> provision_failed E h r (wrap e); return False }
         | None \<Rightarrow> return True } }"

text \<open>The answer is whether the job is still queued; otherwise the claim has been settled.\<close>

definition require_queued_job :: "'x env \<Rightarrow> handler \<Rightarrow> runner_record \<Rightarrow> ('x, bool) act" where
  "require_queued_job E h r = do {
     got \<leftarrow> store_get E (r_key r);
     case got of
       Inl e \<Rightarrow> do { _ \<leftarrow> defer_demand_check E h r (ErrWrap ''read current job demand: '' e); return False }
     | Inr (current, False) \<Rightarrow> do {
         _ \<leftarrow> defer_demand_check E h r (ErrWrap ''read current job demand: ''
                (ErrText ''job demand record is unavailable''));
         return False }
     | Inr (current, True) \<Rightarrow>
         if r_job_completed current then do { _ \<leftarrow> retire_idle_job E h r id; return False }
         else do {
           status \<leftarrow> workflow_job_status_call E CtxWork (r_owner r) (r_repository r) (r_job_id r);
           case status of
             Inl e \<Rightarrow> do {
               _ \<leftarrow> defer_demand_check E h r (ErrWrap ''verify current workflow job demand: '' e);
               return False }
           | Inr s \<Rightarrow>
               if s = JobQueued then return True
               else do {
                 retired \<leftarrow> retire_idle_job E h r (ErrWrap ''retire job without queued demand: '');
                 _ \<leftarrow> (if retired then signal else return ());
                 return False } } }"

section \<open>Provisioning\<close>

text \<open>The branch of an instance that already exists for the job.\<close>

definition provision_existing ::
    "'x env \<Rightarrow> handler \<Rightarrow> runner_record \<Rightarrow> runner_instance \<Rightarrow> ('x, unit) act" where
  "provision_existing E h r existing =
    (if r_github_runner_id r = 0 then do {
       err \<leftarrow> delete_runner_call E CtxWork (ri_id existing) (r_key r);
       case err of
         Some e \<Rightarrow> provision_failed E h r (ErrWrap ''delete runner with missing JIT identity: '' e)
       | None \<Rightarrow> provision_failed E h r (ErrText ''removed runner with missing JIT identity'') }
     else do {
       err \<leftarrow> store_do E (OpMarkProvisioned (r_key r) (ri_id existing) (r_github_runner_id r)
               (ri_name existing));
       _ \<leftarrow> (case err of
               Some e \<Rightarrow> provision_failed E h r (ErrWrap ''persist reconciled runner: '' e)
             | None \<Rightarrow> return ());
       signal })"

text \<open>A registration left over from an earlier attempt is removed before a new one is made.\<close>

definition remove_stale_jit :: "'x env \<Rightarrow> handler \<Rightarrow> runner_record \<Rightarrow> ('x, bool) act" where
  "remove_stale_jit E h r =
    (if \<not> owned_jit r then return True
     else do {
       rm \<leftarrow> remove_jit E CtxWork r;
       case rm of
         Some e \<Rightarrow> do {
           _ \<leftarrow> provision_failed E h r (ErrWrap (''remove stale JIT runner '' @
                  itoa (r_github_runner_id r) @ '': '') e);
           return False }
       | None \<Rightarrow> do {
           err \<leftarrow> update E (r_key r) UClearJIT;
           case err of
             Some e \<Rightarrow> do {
               _ \<leftarrow> provision_failed E h r (ErrWrap ''clear stale JIT runner state: '' e);
               return False }
           | None \<Rightarrow> return True } })"

definition provision_params :: "handler \<Rightarrow> runner_record \<Rightarrow> string \<Rightarrow> jit_config \<Rightarrow> runner_params" where
  "provision_params h r name jit =
    \<lparr>p_job_key = r_key r, p_provision_epoch = r_provision_epoch r, p_runner_name = name,
     p_runner_jit_config = jit_encoded_config jit, p_runner_version = h_runner_version h,
     p_runner_sha256 = h_runner_sha256 h, p_chef_installer_sha256 = h_chef_installer_sha256 h\<rparr>"

text \<open>From the persisted registration on; the record carries its identity.\<close>

definition provision_instance ::
    "'x env \<Rightarrow> handler \<Rightarrow> runner_record \<Rightarrow> string \<Rightarrow> jit_config \<Rightarrow> ('x, unit) act" where
  "provision_instance E h r name jit = do {
     queued \<leftarrow> require_queued_job E h r;
     if \<not> queued then return ()
     else do {
       created \<leftarrow> create_runner_call E CtxWork (provision_params h r name jit);
       case created of
         Inl e \<Rightarrow> provision_failed E h r (ErrWrap ''create runner instance: '' e)
       | Inr inst \<Rightarrow> do {
           err \<leftarrow> store_do E (OpMarkProvisioned (r_key r) (ri_id inst) (jit_runner_id jit) name);
           case err of
             Some e \<Rightarrow> provision_failed E h r (ErrWrap ''persist provisioned runner: '' e)
           | None \<Rightarrow> signal } } }"

definition provision_jit :: "'x env \<Rightarrow> handler \<Rightarrow> runner_record \<Rightarrow> string \<Rightarrow> ('x, unit) act" where
  "provision_jit E h r name = do {
     jit \<leftarrow> generate_jit_call E CtxWork (r_owner r) (r_repository r) name (h_runner_group_id h) (r_labels r);
     case jit of
       Inl e \<Rightarrow> provision_failed E h r (ErrWrap ''generate JIT config: '' e)
     | Inr jit \<Rightarrow> do {
         err \<leftarrow> store_do E (OpMarkJITCreated (r_key r) (jit_runner_id jit) name);
         case err of
           Some e \<Rightarrow> do {
             _ \<leftarrow> remove_runner_call E CtxCleanup (r_owner r) (r_repository r) (jit_runner_id jit);
             provision_failed E h r (ErrWrap ''persist JIT runner identity: '' e) }
         | None \<Rightarrow>
             provision_instance E h
               (r\<lparr>r_github_runner_id := jit_runner_id jit, r_github_runner_owned := True,
                  r_runner_name := name\<rparr>) name jit } }"

definition provision :: "'x env \<Rightarrow> handler \<Rightarrow> runner_record \<Rightarrow> ('x, unit) act" where
  "provision E h r =
    (let name = runner_name (e_sha256 E) (r_repository r) (r_job_id r) in
     do {
       found \<leftarrow> find_runner_call E CtxWork (r_key r);
       case found of
         Inl e \<Rightarrow> provision_failed E h r (ErrWrap ''reconcile runner instance: '' e)
       | Inr (Some existing) \<Rightarrow> provision_existing E h r existing
       | Inr None \<Rightarrow> do {
           queued \<leftarrow> require_queued_job E h r;
           if \<not> queued then return ()
           else do {
             cleared \<leftarrow> remove_stale_jit E h r;
             if \<not> cleared then return () else provision_jit E h r name } } })"

section \<open>Deletion\<close>

definition release_canceled_delete ::
    "'x env \<Rightarrow> runner_record \<Rightarrow> go_error option \<Rightarrow> ('x, bool) act" where
  "release_canceled_delete E r err = do {
     dead \<leftarrow> ctx_err E CtxWork;
     if \<not> (case err of Some e \<Rightarrow> canceled e | None \<Rightarrow> False) \<and> dead = None then return False
     else do { _ \<leftarrow> release_claim_h E r WorkDelete; return True } }"

definition record_delete_failure ::
    "'x env \<Rightarrow> handler \<Rightarrow> runner_record \<Rightarrow> go_error \<Rightarrow> ('x, unit) act" where
  "record_delete_failure E h r e = do {
     now \<leftarrow> clock E;
     _ \<leftarrow> update E (r_key r) (UMarkDeleteFailed (error_text e) (now + retry_delay (r_delete_attempts r))
            (h_max_attempts h));
     signal }"

text \<open>
  The request to delete the instance, unless its acceptance is on record already, and the
  record of the acceptance.
\<close>

definition request_deletion :: "'x env \<Rightarrow> runner_record \<Rightarrow> ('x, go_error option) act" where
  "request_deletion E r =
    (if cc_absent E = None \<or> r_deletion_accepted_id r \<noteq> r_instance_id r then do {
       err \<leftarrow> delete_runner_call E CtxWork (r_instance_id r) (r_key r);
       if err = None \<and> cc_absent E \<noteq> None
       then store_do E (OpMarkDeletionAccepted (r_key r) (r_instance_id r))
       else return err }
     else return None)"

definition deletion_request_failed ::
    "'x env \<Rightarrow> handler \<Rightarrow> runner_record \<Rightarrow> go_error \<Rightarrow> ('x, unit) act" where
  "deletion_request_failed E h r e = do {
     released \<leftarrow> release_canceled_delete E r (Some e);
     if released then return ()
     else if errors_is e ErrOwnershipMismatch then do { _ \<leftarrow> mark_orphaned_h E r e; return () }
     else record_delete_failure E h r e }"

text \<open>Is the instance confirmed absent? Otherwise the confirmation has been deferred.\<close>

definition confirm_absence :: "'x env \<Rightarrow> runner_record \<Rightarrow> ('x, bool) act" where
  "confirm_absence E r =
    (case cc_absent E of
       None \<Rightarrow> return True
     | Some absent_fn \<Rightarrow> do {
         res \<leftarrow> runner_absent_call absent_fn CtxWork (r_instance_id r);
         if res = Inr True then return True
         else do {
           let err = failure res;
           released \<leftarrow> release_canceled_delete E r err;
           if released then return False
           else do {
             let message = (case err of
                 None \<Rightarrow> ''provider deletion accepted; awaiting confirmed absence''
               | Some e \<Rightarrow> ''confirm accepted provider deletion: '' @ error_text e);
             now \<leftarrow> clock E;
             state_err \<leftarrow> update E (r_key r) (UDeferDeletionConfirmation message (now + retry_delay 1));
             case state_err of
               None \<Rightarrow> return False
             | Some _ \<Rightarrow> do { _ \<leftarrow> release_claim_h E r WorkDelete; return False } } } })"

text \<open>The cleanup of duplicates; the tracked instance is left out when its absence was confirmed.\<close>

definition cleanup_deleted :: "'x env \<Rightarrow> runner_record \<Rightarrow> ('x, go_error option) act" where
  "cleanup_deleted E r =
    (case cc_cleanup_except E of
       Some f \<Rightarrow> if cc_absent E \<noteq> None then cleanup_except_call f CtxWork (r_key r) (r_instance_id r)
                 else cleanup_runner_call E CtxWork (r_key r)
     | None \<Rightarrow> cleanup_runner_call E CtxWork (r_key r))"

definition cleanup_failed ::
    "'x env \<Rightarrow> handler \<Rightarrow> runner_record \<Rightarrow> go_error \<Rightarrow> ('x, unit) act" where
  "cleanup_failed E h r e = do {
     released \<leftarrow> release_canceled_delete E r (Some e);
     if released then return () else record_delete_failure E h r e }"

definition deregistration_failed ::
    "'x env \<Rightarrow> handler \<Rightarrow> runner_record \<Rightarrow> go_error \<Rightarrow> ('x, unit) act" where
  "deregistration_failed E h r e = do {
     released \<leftarrow> release_canceled_delete E r (Some e);
     if released then return ()
     else case rate_limit_reset e of
       Some reset_at \<Rightarrow> do {
         now \<leftarrow> clock E;
         _ \<leftarrow> update E (r_key r) (UDeferRateLimitedWork WorkDelete (error_text e)
                (clamp_throttle_retry_at now reset_at) (h_max_attempts h));
         signal }
     | None \<Rightarrow> record_delete_failure E h r e }"

definition recheck_cleaned_runner_demand ::
    "'x env \<Rightarrow> runner_record \<Rightarrow> ('x, go_error + bool) act" where
  "recheck_cleaned_runner_demand E r =
    (if \<not> r_recheck_demand r \<or> r_job_completed r then return (Inr False)
     else do {
       got \<leftarrow> store_get E (r_key r);
       case got of
         Inl e \<Rightarrow> return (Inl (ErrWrap ''read reassigned demand: '' e))
       | Inr (current, False) \<Rightarrow> return (Inl (ErrText ''reassigned demand record is unavailable''))
       | Inr (current, True) \<Rightarrow>
           if r_job_completed current then return (Inr False)
           else do {
             status \<leftarrow> workflow_job_status_call E CtxWork (r_owner r) (r_repository r) (r_job_id r);
             case status of
               Inl e \<Rightarrow> return (Inl (ErrWrap ''confirm original job demand after reassignment: '' e))
             | Inr s \<Rightarrow> return (Inr (s = JobQueued)) } })"

definition recheck_failed :: "'x env \<Rightarrow> runner_record \<Rightarrow> go_error \<Rightarrow> ('x, unit) act" where
  "recheck_failed E r e = do {
     released \<leftarrow> release_canceled_delete E r (Some e);
     if released then return ()
     else do {
       now \<leftarrow> clock E;
       later \<leftarrow> clock E;
       let retry_at = (case rate_limit_reset e of
                         Some reset \<Rightarrow> clamp_throttle_retry_at later reset
                       | None \<Rightarrow> now + minute);
       _ \<leftarrow> update E (r_key r) (UDeferReassignmentDemand (error_text e) retry_at);
       return () } }"

definition finish_deletion ::
    "'x env \<Rightarrow> handler \<Rightarrow> runner_record \<Rightarrow> bool \<Rightarrow> ('x, unit) act" where
  "finish_deletion E h r queued = do {
     restored \<leftarrow> store_call E (OpUpdate (r_key r) (UFinishDeletedRunner queued))
                   (finish_deleted_runner (r_key r) queued);
     case restored of
       Inl e \<Rightarrow> do {
         now \<leftarrow> clock E;
         state_err \<leftarrow> update E (r_key r) (UMarkDeleteFailed (error_text e)
                        (now + retry_delay (r_delete_attempts r)) (h_max_attempts h));
         _ \<leftarrow> (case state_err of
                 Some _ \<Rightarrow> release_claim_h E r WorkDelete
               | None \<Rightarrow> return ());
         signal }
     | Inr was_restored \<Rightarrow> if was_restored then signal else return () }"

text \<open>The instance is gone and its duplicates are cleaned up.\<close>

definition settle_deletion :: "'x env \<Rightarrow> handler \<Rightarrow> runner_record \<Rightarrow> ('x, unit) act" where
  "settle_deletion E h r = do {
     queued \<leftarrow> recheck_cleaned_runner_demand E r;
     case queued of
       Inl e \<Rightarrow> recheck_failed E r e
     | Inr q \<Rightarrow> finish_deletion E h r q }"

definition delete_h :: "'x env \<Rightarrow> handler \<Rightarrow> runner_record \<Rightarrow> ('x, unit) act" where
  "delete_h E h r = do {
     err \<leftarrow> request_deletion E r;
     case err of
       Some e \<Rightarrow> deletion_request_failed E h r e
     | None \<Rightarrow> do {
         absent \<leftarrow> confirm_absence E r;
         if \<not> absent then return ()
         else do {
           err \<leftarrow> cleanup_deleted E r;
           case err of
             Some e \<Rightarrow> cleanup_failed E h r e
           | None \<Rightarrow>
               if owned_jit r then do {
                 rm \<leftarrow> remove_jit E CtxWork r;
                 case rm of
                   Some e \<Rightarrow> deregistration_failed E h r e
                 | None \<Rightarrow> settle_deletion E h r }
               else settle_deletion E h r } } }"

section \<open>The worker loop\<close>

definition process :: "'x env \<Rightarrow> handler \<Rightarrow> runner_record \<Rightarrow> work_kind \<Rightarrow> ('x, unit) act" where
  "process E h r kind = do {
     dead \<leftarrow> ctx_err E CtxWorker;
     if dead \<noteq> None then release_claim_h E r kind
     else if r_provider r \<noteq> h_provider h then do {
       _ \<leftarrow> mark_orphaned_h E r (ErrText (''state record belongs to provider '' @ go_quote (r_provider r) @
              '', controller is configured for '' @ go_quote (h_provider h)));
       return () }
     else (case kind of
             WorkProvision \<Rightarrow> provision E h r
           | WorkDelete \<Rightarrow> delete_h E h r
           | WorkNone \<Rightarrow> return ()) }"

definition claim_work ::
    "'x env \<Rightarrow> handler \<Rightarrow> ('x, go_error + (runner_record \<times> work_kind) option) act" where
  "claim_work E h = do {
     dead \<leftarrow> ctx_err E CtxWorker;
     store_call E (OpClaimNext dead (h_max_attempts h)) (\<lambda>now. claim_next dead now (h_max_attempts h)) }"

text \<open>
  The select at the end of an iteration: the context is done, or the pending signal is taken, or
  the ticker fires. The result of an iteration is whether the loop goes on.
\<close>

definition wait_for_work :: "'x env \<Rightarrow> ('x, bool) act" where
  "wait_for_work E = do {
     dead \<leftarrow> ctx_err E CtxWorker;
     if dead \<noteq> None then return False
     else State (\<lambda>w. (True, w\<lparr>w_notify := False\<rparr>)) }"

definition work_on_claim ::
    "'x env \<Rightarrow> handler \<Rightarrow> go_error + (runner_record \<times> work_kind) option \<Rightarrow> ('x, bool) act" where
  "work_on_claim E h claimed =
    (case claimed of
       Inl e \<Rightarrow> do {
         dead \<leftarrow> ctx_err E CtxWorker;
         if dead \<noteq> None then return False else wait_for_work E }
     | Inr (Some (r, kind)) \<Rightarrow> do {
         dead \<leftarrow> ctx_err E CtxWorker;
         if dead \<noteq> None then do { _ \<leftarrow> release_claim_h E r kind; return False }
         else do { _ \<leftarrow> process E h r kind; return True } }
     | Inr None \<Rightarrow> wait_for_work E)"

definition worker_step :: "'x env \<Rightarrow> handler \<Rightarrow> ('x, bool) act" where
  "worker_step E h = do {
     dead \<leftarrow> ctx_err E CtxWorker;
     if dead \<noteq> None then return False
     else do { claimed \<leftarrow> claim_work E h; work_on_claim E h claimed } }"

text \<open>The loop of \<open>worker\<close> for at most \<open>n\<close> iterations.\<close>

fun worker :: "nat \<Rightarrow> 'x env \<Rightarrow> handler \<Rightarrow> ('x, unit) act" where
  "worker 0 E h = return ()"
| "worker (Suc n) E h = do {
     more \<leftarrow> worker_step E h;
     if more then worker n E h else return () }"

end
