(* ===== verification/Webhook_Reaper.thy ===== *)
theory Webhook_Reaper
  imports Webhook_Worker
begin

text \<open>
  The reaper of \<open>internal/webhook/handler.go\<close>: one pass prunes deleted records, reconciles
  orphans and provisioned runners with the provider and with GitHub, sweeps unknown instances
  and expires what is too old. A pass returns the errors it met.
\<close>

section \<open>Backoff\<close>

text \<open>\<open>deferReconciliation\<close>: the cause, joined with a failure to persist the backoff.\<close>

definition defer_reconciliation_h ::
    "'x env \<Rightarrow> handler \<Rightarrow> runner_record \<Rightarrow> go_error \<Rightarrow> ('x, go_error) act" where
  "defer_reconciliation_h E h r cause = do {
     now \<leftarrow> clock E;
     let reset = rate_limit_reset cause;
     let rate_limited = (reset \<noteq> None);
     let retry_at = (case reset of
                       Some t \<Rightarrow> clamp_throttle_retry_at now t
                     | None \<Rightarrow> now + retry_delay (r_reconcile_failures r + 1));
     let count_failure = (\<not> rate_limited \<and> persistent_client_error cause);
     err \<leftarrow> update E (r_key r) (UDeferReconciliation (error_text cause) retry_at (h_max_attempts h)
              count_failure rate_limited);
     return (case err of
       None \<Rightarrow> cause
     | Some e \<Rightarrow> ErrJoin [cause, ErrWrap (''persist reconciliation backoff for '' @ r_key r @ '': '') e]) }"

section \<open>Orphans\<close>

definition release_absent_instance ::
    "'x env \<Rightarrow> handler \<Rightarrow> (ctx \<Rightarrow> string \<Rightarrow> 'x \<Rightarrow> (go_error + bool) \<times> 'x) \<Rightarrow> runner_record \<Rightarrow>
     ('x, go_error list) act" where
  "release_absent_instance E h absent_fn r =
    (if r_provider r \<noteq> h_provider h \<or> r_instance_id r = '''' then return []
     else do {
       res \<leftarrow> runner_absent_call absent_fn CtxReap (r_instance_id r);
       case res of
         Inl e \<Rightarrow> return [e]
       | Inr False \<Rightarrow> return []
       | Inr True \<Rightarrow> do {
           err \<leftarrow> update E (r_key r) (UReleaseAbsentOrphan (r_instance_id r));
           case err of
             Some e \<Rightarrow> return [ErrWrap (''release absent orphan '' @ r_key r @ '': '') e]
           | None \<Rightarrow> do { _ \<leftarrow> signal; return [] } } })"

text \<open>The loops over records collect the errors of their bodies.\<close>

fun for_each :: "('a \<Rightarrow> ('x, go_error list) act) \<Rightarrow> 'a list \<Rightarrow> ('x, go_error list) act" where
  "for_each f [] = return []"
| "for_each f (a # as) = do { es \<leftarrow> f a; es' \<leftarrow> for_each f as; return (es @ es') }"

definition reconcile_orphaned_instances :: "'x env \<Rightarrow> handler \<Rightarrow> ('x, go_error list) act" where
  "reconcile_orphaned_instances E h =
    (case cc_absent E of
       None \<Rightarrow> return []
     | Some absent_fn \<Rightarrow> do {
         records \<leftarrow> store_read E list_orphaned;
         for_each (release_absent_instance E h absent_fn) records })"

definition remove_orphaned_runner :: "'x env \<Rightarrow> runner_record \<Rightarrow> ('x, go_error list) act" where
  "remove_orphaned_runner E r = do {
     now \<leftarrow> clock E;
     if \<not> owned_jit r \<or> (\<not> is_zero (r_next_attempt_at r) \<and> r_next_attempt_at r > now)
     then return []
     else do {
       rm \<leftarrow> remove_jit E CtxReap r;
       case rm of
         Some e \<Rightarrow> do {
           now \<leftarrow> clock E;
           let retry_at = (case rate_limit_reset e of
                             Some t \<Rightarrow> clamp_throttle_retry_at now t
                           | None \<Rightarrow> now + retry_delay (r_reconcile_failures r + 1));
           state_err \<leftarrow> update E (r_key r) (UDeferOrphanCleanup (error_text e) retry_at);
           return [case state_err of
                     None \<Rightarrow> e
                   | Some se \<Rightarrow> ErrJoin [e, ErrWrap ''persist orphan GitHub cleanup backoff: '' se]] }
       | None \<Rightarrow> do {
           err \<leftarrow> update E (r_key r) UClearJIT;
           return (case err of
             None \<Rightarrow> []
           | Some e \<Rightarrow> [ErrWrap (''clear orphaned GitHub runner '' @ itoa (r_github_runner_id r) @ '': '') e]) } } }"

definition reconcile_orphaned_github_runners :: "'x env \<Rightarrow> ('x, go_error list) act" where
  "reconcile_orphaned_github_runners E = do {
     records \<leftarrow> store_read E list_orphaned;
     for_each (remove_orphaned_runner E) records }"

section \<open>Provisioned runners\<close>

text \<open>
  A reconciliation step returns an error or whether a replacement was queued. \<open>persisted\<close> turns
  the error of a store operation into the wrapped error of the step.
\<close>

type_synonym 'x requeue = "('x, go_error + bool) act"

definition persisted :: "string \<Rightarrow> bool \<Rightarrow> go_error option \<Rightarrow> go_error + bool" where
  "persisted prefix b err = (case err of None \<Rightarrow> Inr b | Some e \<Rightarrow> Inl (ErrWrap prefix e))"

definition defer_step :: "'x env \<Rightarrow> handler \<Rightarrow> runner_record \<Rightarrow> go_error \<Rightarrow> 'x requeue" where
  "defer_step E h r cause = do { e \<leftarrow> defer_reconciliation_h E h r cause; return (Inl e) }"

definition requeue :: "'x env \<Rightarrow> handler \<Rightarrow> runner_record \<Rightarrow> string \<Rightarrow> 'x requeue" where
  "requeue E h r what = do {
     err \<leftarrow> update E (r_key r) (URequeueMissingRunner (h_max_attempts h));
     return (persisted (''requeue '' @ what @ '' '' @ r_key r @ '': '') True err) }"

definition reconcile_duplicate_runners :: "'x env \<Rightarrow> handler \<Rightarrow> runner_record \<Rightarrow> 'x requeue" where
  "reconcile_duplicate_runners E h r = do {
     err \<leftarrow> cleanup_runner_call E CtxReap (r_key r);
     case err of
       Some e \<Rightarrow> return (Inl (ErrWrap (''clean up duplicate runners for '' @ r_key r @ '': '') e))
     | None \<Rightarrow>
         if owned_jit r then do {
           rm \<leftarrow> remove_jit E CtxReap r;
           case rm of
             Some e \<Rightarrow> defer_step E h r (ErrWrap (''remove duplicate-instance JIT runner '' @
                         itoa (r_github_runner_id r) @ '': '') e)
           | None \<Rightarrow> requeue E h r ''duplicate runners for'' }
         else requeue E h r ''duplicate runners for'' }"

definition requeue_unregistered_runner :: "'x env \<Rightarrow> handler \<Rightarrow> runner_record \<Rightarrow> 'x requeue" where
  "requeue_unregistered_runner E h r = do {
     rm \<leftarrow> (if owned_jit r then remove_jit E CtxReap r else return None);
     case rm of
       Some e \<Rightarrow> defer_step E h r (ErrWrap (''remove unregistered JIT runner '' @
                   itoa (r_github_runner_id r) @ '': '') e)
     | None \<Rightarrow> do {
         err \<leftarrow> delete_runner_call E CtxReap (r_instance_id r) (r_key r);
         case err of
           Some e \<Rightarrow> return (Inl (ErrWrap (''delete unregistered runner '' @ r_instance_id r @ '': '') e))
         | None \<Rightarrow> requeue E h r ''unregistered runner'' } }"

definition reconcile_github_missing_runner :: "'x env \<Rightarrow> handler \<Rightarrow> runner_record \<Rightarrow> 'x requeue" where
  "reconcile_github_missing_runner E h r = do {
     confirmed \<leftarrow> store_ask E
       (OpObserveGitHubMissing (r_key r) (h_liveness_settle_window h) (h_liveness_confirmations h))
       (\<lambda>now. observe_github_runner_missing (r_key r) now (h_liveness_settle_window h)
                (h_liveness_confirmations h));
     case confirmed of
       Inl e \<Rightarrow> return (Inl (ErrWrap (''record missing runner '' @ r_key r @ '': '') e))
     | Inr False \<Rightarrow> return (Inr False)
     | Inr True \<Rightarrow> do {
         now \<leftarrow> clock E;
         if is_zero (r_registered_at r) \<and> time_sub now (r_provisioned_at r) < h_registration_timeout h
         then return (Inr False)
         else do {
           err \<leftarrow> update E (r_key r) UScheduleDeletion;
           return (persisted (''schedule confirmed-missing GitHub runner '' @ r_key r @
                     '' for deletion: '') True err) } } }"

definition reconcile_provider_missing_runner :: "'x env \<Rightarrow> handler \<Rightarrow> runner_record \<Rightarrow> 'x requeue" where
  "reconcile_provider_missing_runner E h r = do {
     cleared \<leftarrow> (if r_github_missing_checks r \<noteq> 0 then update E (r_key r) UClearGitHubMissing
                  else return None);
     case cleared of
       Some e \<Rightarrow> return (Inl (ErrWrap (''clear GitHub-missing observations for '' @ r_key r @ '': '') e))
     | None \<Rightarrow> do {
         confirmed \<leftarrow> store_ask E
           (OpObserveRunnerMissing (r_key r) (h_liveness_settle_window h) (h_liveness_confirmations h))
           (\<lambda>now. observe_runner_missing (r_key r) now (h_liveness_settle_window h)
                    (h_liveness_confirmations h));
         case confirmed of
           Inl e \<Rightarrow> return (Inl (ErrWrap (''record missing runner '' @ r_key r @ '': '') e))
         | Inr False \<Rightarrow> return (Inr False)
         | Inr True \<Rightarrow> do {
             rm \<leftarrow> (if owned_jit r then remove_jit E CtxReap r else return None);
             case rm of
               Some e \<Rightarrow> defer_step E h r (ErrWrap (''remove missing instance JIT runner '' @
                           itoa (r_github_runner_id r) @ '': '') e)
             | None \<Rightarrow> requeue E h r ''missing runner'' } } }"

text \<open>The last part of \<open>reconcileProviderFoundRunner\<close>: the registration of a live instance.\<close>

definition reconcile_registration :: "'x env \<Rightarrow> handler \<Rightarrow> runner_record \<Rightarrow> 'x requeue" where
  "reconcile_registration E h r = do {
     status \<leftarrow> runner_status_call E CtxReap (r_owner r) (r_repository r) (r_github_runner_id r);
     case status of
       Inl e \<Rightarrow> defer_step E h r (ErrWrap (''check GitHub registration for '' @ r_key r @ '': '') e)
     | Inr s \<Rightarrow>
         if s = RunnerMissing then reconcile_github_missing_runner E h r
         else do {
           err \<leftarrow> update E (r_key r) UClearRunnerMissing;
           case err of
             Some e \<Rightarrow> return (Inl (ErrWrap (''clear successful reconciliation for '' @ r_key r @ '': '') e))
           | None \<Rightarrow> do {
               now \<leftarrow> clock E;
               if s = RunnerOffline \<and> is_zero (r_registered_at r) \<and>
                  time_sub now (r_provisioned_at r) \<ge> h_registration_timeout h
               then requeue_unregistered_runner E h r
               else if s \<noteq> RunnerOnline \<or> \<not> is_zero (r_registered_at r) then return (Inr False)
               else do {
                 err \<leftarrow> update E (r_key r) URecordRunnerSeen;
                 return (persisted (''record runner seen for '' @ r_key r @ '': '') False err) } } } }"

definition reconcile_provider_found_runner :: "'x env \<Rightarrow> handler \<Rightarrow> runner_record \<Rightarrow> 'x requeue" where
  "reconcile_provider_found_runner E h r = do {
     status \<leftarrow> (if r_job_completed r then return (Inr JobCompleted)
                 else workflow_job_status_call E CtxReap (r_owner r) (r_repository r) (r_job_id r));
     case status of
       Inl e \<Rightarrow> defer_step E h r (ErrWrap ''check original workflow job: '' e)
     | Inr s \<Rightarrow>
         if s = JobCompleted then do {
           err \<leftarrow> remove_idle_jit E CtxReap r;
           case err of
             Some e \<Rightarrow> defer_step E h r e
           | None \<Rightarrow> do {
               err \<leftarrow> update E (r_key r) UScheduleDeletion;
               return (case err of None \<Rightarrow> Inr False | Some e \<Rightarrow> Inl e) } }
         else do {
           cleared \<leftarrow> (if r_missing_checks r \<noteq> 0 then update E (r_key r) UClearProviderMissing
                        else return None);
           case cleared of
             Some e \<Rightarrow> return (Inl (ErrWrap (''clear provider-missing observations for '' @ r_key r @ '': '') e))
           | None \<Rightarrow> reconcile_registration E h r } }"

definition reconcile_provisioned_runner :: "'x env \<Rightarrow> handler \<Rightarrow> runner_record \<Rightarrow> 'x requeue" where
  "reconcile_provisioned_runner E h r = do {
     now \<leftarrow> clock E;
     later \<leftarrow> clock E;
     if \<not> is_zero (r_next_attempt_at r) \<and> r_next_attempt_at r > now then return (Inr False)
     else if \<not> is_zero (r_registered_at r) \<and>
             time_sub later (r_reconciled_at r) < h_liveness_check_interval h then return (Inr False)
     else do {
       found \<leftarrow> find_runner_call E CtxReap (r_key r);
       case found of
         Inl e \<Rightarrow>
           if errors_is e ErrDuplicateInstances then reconcile_duplicate_runners E h r
           else defer_step E h r (ErrWrap (''check runner liveness for '' @ r_key r @ '': '') e)
       | Inr (Some _) \<Rightarrow> reconcile_provider_found_runner E h r
       | Inr None \<Rightarrow> reconcile_provider_missing_runner E h r } }"

definition reconcile_one_provisioned :: "'x env \<Rightarrow> handler \<Rightarrow> runner_record \<Rightarrow> ('x, go_error list) act" where
  "reconcile_one_provisioned E h r =
    (if r_provider r \<noteq> h_provider h then return []
     else do {
       res \<leftarrow> reconcile_provisioned_runner E h r;
       case res of
         Inl e \<Rightarrow> return [e]
       | Inr requeued \<Rightarrow> do { _ \<leftarrow> (if requeued then signal else return ()); return [] } })"

definition reconcile_provisioned_runners :: "'x env \<Rightarrow> handler \<Rightarrow> ('x, go_error list) act" where
  "reconcile_provisioned_runners E h = do {
     records \<leftarrow> store_read E list_provisioned;
     for_each (reconcile_one_provisioned E h) records }"

section \<open>Expiry\<close>

definition prepare_deferred_deletion :: "'x env \<Rightarrow> runner_record \<Rightarrow> ('x, go_error option) act" where
  "prepare_deferred_deletion E r =
    (if \<not> r_defer_deletion r \<or> \<not> owned_jit r then return None
     else do {
       rm \<leftarrow> remove_jit E CtxReap r;
       case rm of
         Some e \<Rightarrow> return (Some (ErrWrap (''deregister deferred-cancellation runner '' @
                     itoa (r_github_runner_id r) @ '': '') e))
       | None \<Rightarrow> do {
           err \<leftarrow> update E (r_key r) UClearJIT;
           return (map_option (ErrWrap (''clear deferred-cancellation runner '' @
                     itoa (r_github_runner_id r) @ '': '')) err) } })"

text \<open>The error of a cleanup, joined with the error of the operation that records it.\<close>

definition with_state_error :: "go_error \<Rightarrow> string \<Rightarrow> go_error option \<Rightarrow> go_error" where
  "with_state_error e prefix state_err =
    (case state_err of None \<Rightarrow> e | Some se \<Rightarrow> ErrJoin [e, ErrWrap prefix se])"

definition untracked_cleanup_failed ::
    "'x env \<Rightarrow> handler \<Rightarrow> runner_record \<Rightarrow> int \<Rightarrow> go_error \<Rightarrow> ('x, go_error) act" where
  "untracked_cleanup_failed E h r attempt e =
    (if errors_is e ErrOwnershipMismatch then do {
       err \<leftarrow> mark_orphaned_h E r e;
       return (with_state_error e ''persist orphaned cleanup state: '' err) }
     else do {
       now \<leftarrow> clock E;
       case rate_limit_reset e of
         Some reset_at \<Rightarrow> do {
           err \<leftarrow> update E (r_key r) (UDeferRateLimitedCleanup (error_text e)
                    (clamp_throttle_retry_at now reset_at) (h_max_attempts h) True);
           return (with_state_error e ''persist rate-limited cleanup backoff: '' err) }
       | None \<Rightarrow> do {
           dead \<leftarrow> ctx_err E CtxReap;
           if canceled e \<or> dead \<noteq> None then do {
             now \<leftarrow> clock E;
             err \<leftarrow> update E (r_key r) (UDeferRateLimitedCleanup (error_text e) (now + minute)
                      (h_max_attempts h) False);
             return (with_state_error e ''persist controller-timeout cleanup backoff: '' err) }
           else do {
             now \<leftarrow> clock E;
             err \<leftarrow> update E (r_key r) (UMarkDeleteFailed (error_text e) (now + retry_delay attempt)
                      (h_max_attempts h));
             return (with_state_error e ''persist cleanup failure: '' err) } } })"

definition cleanup_untracked ::
    "'x env \<Rightarrow> handler \<Rightarrow> runner_record \<Rightarrow> int \<Rightarrow> ('x, go_error option) act" where
  "cleanup_untracked E h r attempt = do {
     err \<leftarrow> cleanup_runner_call E CtxReap (r_key r);
     case err of
       Some e \<Rightarrow> do {
         e \<leftarrow> untracked_cleanup_failed E h r attempt
                (ErrWrap (''clean up untracked provider resources for '' @ r_key r @ '': '') e);
         return (Some e) }
     | None \<Rightarrow> update E (r_key r) UMarkDeleted }"

definition delete_untracked_expired_runner ::
    "'x env \<Rightarrow> handler \<Rightarrow> runner_record \<Rightarrow> ('x, go_error option) act" where
  "delete_untracked_expired_runner E h r = do {
     begun \<leftarrow> store_call E (OpBeginCleanupAttempt (r_key r) (h_max_attempts h))
                (begin_cleanup_attempt (r_key r) (h_max_attempts h));
     case begun of
       Inl e \<Rightarrow> return (Some e)
     | Inr (attempt, ready) \<Rightarrow>
         if \<not> ready then return None
         else if owned_jit r then do {
           rm \<leftarrow> remove_jit E CtxReap r;
           case rm of
             Some e \<Rightarrow> do {
               e \<leftarrow> untracked_cleanup_failed E h r attempt
                      (ErrWrap (''remove expired JIT runner '' @ itoa (r_github_runner_id r) @ '': '') e);
               return (Some e) }
           | None \<Rightarrow> cleanup_untracked E h r attempt }
         else cleanup_untracked E h r attempt }"

definition expire_runner :: "'x env \<Rightarrow> handler \<Rightarrow> runner_record \<Rightarrow> ('x, go_error option) act" where
  "expire_runner E h r =
    (if r_provider r \<noteq> h_provider h then
       (let e = ErrText (''cannot expire runner '' @ r_key r @ '' owned by provider '' @
                  go_quote (r_provider r) @ '' with configured provider '' @ go_quote (h_provider h))
        in do {
          err \<leftarrow> mark_orphaned_h E r e;
          return (Some (with_state_error e ''persist provider-mismatch orphan: '' err)) })
     else if r_instance_id r = '''' then delete_untracked_expired_runner E h r
     else do {
       err \<leftarrow> prepare_deferred_deletion E r;
       case err of
         Some e \<Rightarrow> do { e \<leftarrow> defer_reconciliation_h E h r e; return (Some e) }
       | None \<Rightarrow> update E (r_key r) UScheduleDeletion })"

definition expire_one :: "'x env \<Rightarrow> handler \<Rightarrow> runner_record \<Rightarrow> ('x, go_error list) act" where
  "expire_one E h r = do {
     err \<leftarrow> expire_runner E h r;
     return (case err of None \<Rightarrow> [] | Some e \<Rightarrow> [e]) }"

definition expire_aged :: "'x env \<Rightarrow> handler \<Rightarrow> time \<Rightarrow> ('x, go_error list) act" where
  "expire_aged E h cutoff = do {
     now \<leftarrow> clock E;
     records \<leftarrow> store_read E (list_expired cutoff now);
     es \<leftarrow> for_each (expire_one E h) records;
     _ \<leftarrow> (if records \<noteq> [] then signal else return ());
     return es }"

section \<open>One pass\<close>

definition sweep_unknown_instances :: "'x env \<Rightarrow> handler \<Rightarrow> time \<Rightarrow> ('x, go_error list) act" where
  "sweep_unknown_instances E h cutoff = do {
     known \<leftarrow> store_read E known_instance_ids;
     swept \<leftarrow> sweep_call E CtxReap known cutoff;
     case snd swept of
       Some e \<Rightarrow> return [ErrWrap ''sweep orphaned provider instances: '' e]
     | None \<Rightarrow> do {
         released \<leftarrow> store_call E (OpReleaseSweptOrphans (h_provider h) cutoff)
                       (\<lambda>now. release_swept_orphans (h_provider h) cutoff now);
         return (case released of
           Inl e \<Rightarrow> [ErrWrap ''release swept orphan admission: '' e]
         | Inr n \<Rightarrow> []) } }"

definition reconcile_liveness :: "'x env \<Rightarrow> handler \<Rightarrow> time \<Rightarrow> ('x, go_error list) act" where
  "reconcile_liveness E h cutoff = do {
     e1 \<leftarrow> reconcile_orphaned_instances E h;
     e2 \<leftarrow> reconcile_orphaned_github_runners E;
     e3 \<leftarrow> sweep_unknown_instances E h cutoff;
     e4 \<leftarrow> reconcile_provisioned_runners E h;
     return (e1 @ e2 @ e3 @ e4) }"

definition expire_runners :: "'x env \<Rightarrow> handler \<Rightarrow> ('x, go_error option) act" where
  "expire_runners E h = do {
     now \<leftarrow> clock E;
     let cutoff = now + - h_max_runner_age h;
     pruned \<leftarrow> store_call E OpPruneDeleted prune_deleted;
     let e0 = (case pruned of Inl e \<Rightarrow> [ErrWrap ''prune deleted lifecycle records: '' e] | Inr n \<Rightarrow> []);
     e1 \<leftarrow> reconcile_liveness E h cutoff;
     e2 \<leftarrow> expire_aged E h cutoff;
     return (errors_join (map Some (e0 @ e1 @ e2))) }"

definition reap_once :: "'x env \<Rightarrow> handler \<Rightarrow> ('x, go_error option) act" where
  "reap_once E h = expire_runners E h"

text \<open>The loop of \<open>reaper\<close> for at most \<open>n\<close> passes.\<close>

fun reaper :: "nat \<Rightarrow> 'x env \<Rightarrow> handler \<Rightarrow> ('x, unit) act" where
  "reaper 0 E h = return ()"
| "reaper (Suc n) E h = do {
     _ \<leftarrow> reap_once E h;
     dead \<leftarrow> ctx_err E CtxWorker;
     if dead \<noteq> None then return () else reaper n E h }"

end
