(* ===== verification/Controller_Refinement.thy ===== *)
theory Controller_Refinement
  imports Webhook_Reaper
begin

text \<open>
  Every computation of the controller touches the store only through its well-formed
  operations. Inside the contract of the store each part of the handler, the worker and the
  reaper keeps the invariant; the interpretation on \<open>FileStore\<close> turns this into a refinement: a
  run of the controller is a run of store operations, so every invariant of the store holds of
  the controller.
\<close>

section \<open>Well-formed records of the webhook\<close>

lemma job_key_not_marker: "safe_name owner \<Longrightarrow> \<not> is_marker_key (job_key (owner @ s) i)"
proof
  assume "safe_name owner" and "is_marker_key (job_key (owner @ s) i)"
  then obtain c cs where c: "owner = c # cs" "is_alnum c"
    by (auto simp: safe_name_def matches_def split: list.splits)
  from \<open>is_marker_key _\<close> have "to_lower_char c = CHR ''_''"
    by (auto simp: is_marker_key_def has_prefix_def completion_marker_prefix_def job_key_def c to_lower_def)
  then have "of_char (to_lower_char c) = (95 :: nat)" by simp
  with c(2) show False
    by (auto simp: to_lower_char_def Let_def is_alnum_def is_digit_def is_lower_def is_upper_def code_def
        split: if_splits)
qed

lemma validated_key_not_marker:
  assumes "validate_repository h repo = Inr (repository, True)"
  shows "\<not> is_marker_key (job_key repository i)"
proof -
  have safe: "safe_name (ro_owner_login repo)"
    and r: "repository = to_lower (ro_owner_login repo @ ''/'' @ ro_name repo)"
    using assms by (auto simp: validate_repository_def Let_def split: if_splits)
  have "job_key repository i = job_key (ro_owner_login repo @ ''/'' @ ro_name repo) i"
    by (simp add: r job_key_def)
  with job_key_not_marker [OF safe] show ?thesis by simp
qed

lemma queued_record_fresh: "\<not> is_marker_key key \<Longrightarrow> fresh_request (queued_record h event key d labels)"
  by (simp add: queued_record_def fresh_request_def zero_record_def)

lemma completion_record_fresh: "\<not> is_marker_key key \<Longrightarrow> fresh_request (completion_record h event key now)"
  by (simp add: completion_record_def fresh_request_def zero_record_def)

section \<open>Every computation keeps the invariant\<close>

context store_contract
begin

lemma keeps_if [intro!]: "(b \<Longrightarrow> keeps m) \<Longrightarrow> (\<not> b \<Longrightarrow> keeps n) \<Longrightarrow> keeps (if b then m else n)"
  by simp

lemma keeps_option [intro!]:
  "keeps m \<Longrightarrow> (\<And>a. keeps (f a)) \<Longrightarrow> keeps (case x of None \<Rightarrow> m | Some a \<Rightarrow> f a)"
  by (cases x) simp_all

lemma keeps_sum [intro!]:
  "(\<And>a. keeps (f a)) \<Longrightarrow> (\<And>b. keeps (g b)) \<Longrightarrow> keeps (case x of Inl a \<Rightarrow> f a | Inr b \<Rightarrow> g b)"
  by (cases x) simp_all

lemma keeps_bool [intro!]:
  "keeps m \<Longrightarrow> keeps n \<Longrightarrow> keeps (case b of True \<Rightarrow> m | False \<Rightarrow> n)"
  by (cases b) simp_all

lemma keeps_prod [intro!]: "(\<And>a b. keeps (f a b)) \<Longrightarrow> keeps (case p of (a, b) \<Rightarrow> f a b)"
  by (cases p) simp

lemma keeps_kind [intro!]:
  "keeps a \<Longrightarrow> keeps b \<Longrightarrow> keeps c \<Longrightarrow>
   keeps (case k of WorkNone \<Rightarrow> a | WorkProvision \<Rightarrow> b | WorkDelete \<Rightarrow> c)"
  by (cases k) simp_all

lemma keeps_wait [intro!]: "keeps (wait_for_work E)"
  unfolding wait_for_work_def by (intro keeps_bind keeps_if keeps_clock keeps_return) (rule keepsI, auto)

lemma keeps_client [intro!]:
  "keeps (trusted_workflow_run_call E c o1 r i)" "keeps (workflow_job_status_call E c o1 r i)"
  "keeps (generate_jit_call E c o1 r n g ls)" "keeps (runner_status_call E c o1 r i)"
  "keeps (remove_runner_call E c o1 r i)" "keeps (find_runner_call E c key)"
  "keeps (create_runner_call E c params)" "keeps (delete_runner_call E c d key)"
  "keeps (cleanup_runner_call E c key)" "keeps (cleanup_except_call f c key d)"
  "keeps (runner_absent_call f' c d)" "keeps (sweep_call E c known cutoff)"
  unfolding client_call_defs by (rule keeps_call)+

text \<open>The webhook.\<close>

lemma keeps_serve_queued:
  assumes "others_satisfy E op_on_job" and "\<not> is_marker_key key"
  shows "keeps (serve_queued E h rq event key)"
  using assms queued_record_fresh
  by (auto simp: serve_queued_def handle_queued_def Let_def)

lemma keeps_serve_completed:
  assumes "others_satisfy E op_on_job" and "\<not> is_marker_key key"
  shows "keeps (serve_completed E h event key)"
  using assms completion_record_fresh
  by (auto simp: serve_completed_def accept_completion_def)

lemma keeps_serve_http:
  assumes "others_satisfy E op_on_job"
  shows "keeps (serve_http E h rq)"
proof -
  have "keeps (serve_event E h rq event)" for event
  proof (cases "validate_repository h (ev_repo event)")
    case (Inl e)
    then show ?thesis by (auto simp: serve_event_def)
  next
    case (Inr p)
    obtain repository targeted where p: "p = (repository, targeted)" by fastforce
    show ?thesis
    proof (cases targeted)
      case True
      with Inr p have "\<not> is_marker_key (job_key repository (wj_id (ev_job event)))"
        by (simp add: validated_key_not_marker)
      from keeps_serve_queued [OF assms this] keeps_serve_completed [OF assms this] show ?thesis
        by (auto simp: serve_event_def Let_def Inr p True)
    next
      case False
      with Inr p show ?thesis by (auto simp: serve_event_def)
    qed
  qed
  then show ?thesis by (auto simp: serve_http_def)
qed

text \<open>The workers.\<close>

lemma keeps_mark_orphaned [intro!]:
  "others_satisfy E op_on_job \<Longrightarrow> keeps (mark_orphaned_h E r e)"
  by (auto simp: mark_orphaned_h_def Let_def)

lemma keeps_release_claim [intro!]:
  "others_satisfy E op_on_job \<Longrightarrow> keeps (release_claim_h E r kind)"
  by (auto simp: release_claim_h_def)

lemma keeps_provision_failed [intro!]:
  "others_satisfy E op_on_job \<Longrightarrow> keeps (provision_failed E h r e)"
  by (auto simp: provision_failed_def cleanup_exhausted_provision_def remove_exhausted_jit_def
      record_provision_failure_def)

lemma keeps_demand [intro!]:
  assumes "others_satisfy E op_on_job"
  shows "keeps (remove_idle_jit E c r)" "keeps (defer_demand_check E h r e)"
    "keeps (retire_provisioning E key)" "keeps (retire_idle_job E h r wrap)"
    "keeps (require_queued_job E h r)"
proof -
  show *: "keeps (remove_idle_jit E c r)" "keeps (defer_demand_check E h r e)"
    "keeps (retire_provisioning E key)" for c r e key
    using assms by (auto simp: remove_idle_jit_def defer_demand_check_def retire_provisioning_def Let_def)
  show **: "keeps (retire_idle_job E h r wrap)" for wrap
    using assms * by (auto simp: retire_idle_job_def)
  show "keeps (require_queued_job E h r)"
    using assms * ** by (auto simp: require_queued_job_def)
qed

lemma keeps_provision:
  assumes E: "others_satisfy E op_on_job" and key: "\<not> is_marker_key (r_key r)"
  shows "keeps (provision E h r)"
proof -
  have 1: "keeps (provision_existing E h r i)" for i
    using E key by (auto simp: provision_existing_def)
  have 2: "keeps (remove_stale_jit E h r)"
    using E by (auto simp: remove_stale_jit_def)
  have 3: "keeps (provision_instance E h r' name jit)" if "r_key r' = r_key r" for r' name jit
    using E key that by (auto simp: provision_instance_def)
  then have "keeps (provision_jit E h r name)" for name
    using E key by (auto simp: provision_jit_def)
  with 1 2 E show ?thesis by (auto simp: provision_def Let_def)
qed

lemma keeps_delete_parts [intro!]:
  assumes "others_satisfy E op_on_job"
  shows "keeps (release_canceled_delete E r err)" "keeps (record_delete_failure E h r e)"
    "keeps (request_deletion E r)" "keeps (confirm_absence E r)" "keeps (cleanup_deleted E r)"
    "keeps (recheck_cleaned_runner_demand E r)" "keeps (finish_deletion E h r q)"
proof -
  show *: "keeps (release_canceled_delete E r err)" for err
    using assms by (auto simp: release_canceled_delete_def)
  show "keeps (record_delete_failure E h r e)" "keeps (request_deletion E r)"
    "keeps (cleanup_deleted E r)" "keeps (recheck_cleaned_runner_demand E r)"
    using assms by (auto simp: record_delete_failure_def request_deletion_def cleanup_deleted_def
        recheck_cleaned_runner_demand_def)
  show "keeps (confirm_absence E r)"
    using assms * by (auto simp: confirm_absence_def Let_def)
  show "keeps (finish_deletion E h r q)"
    using assms by (auto simp: finish_deletion_def finish_deleted_runner_exec)
qed

lemma keeps_delete_h [intro!]:
  assumes "others_satisfy E op_on_job"
  shows "keeps (delete_h E h r)"
proof -
  have "keeps (deletion_request_failed E h r e)" "keeps (cleanup_failed E h r e)"
    "keeps (deregistration_failed E h r e)" "keeps (recheck_failed E r e)" for e
    using assms by (auto simp: deletion_request_failed_def cleanup_failed_def
        deregistration_failed_def recheck_failed_def Let_def)
  with assms show ?thesis by (auto simp: delete_h_def settle_deletion_def)
qed

lemma keeps_process:
  assumes "others_satisfy E op_on_job" and "\<not> is_marker_key (r_key r)"
  shows "keeps (process E h r kind)"
  using assms keeps_provision by (auto simp: process_def)

text \<open>A claimed record is no marker, so processing it keeps the invariant.\<close>

lemma claim_work_result:
  assumes E: "others_satisfy E op_on_job" and I: "I (w_store w)"
    and run: "run_state (claim_work E h) w = (res, w')"
  shows "I (w_store w')" and "res = Inr (Some (r, kind)) \<Longrightarrow> \<not> is_marker_key (r_key r)"
proof -
  have k: "keeps (claim_work E h)" using E by (auto simp: claim_work_def)
  from keepsD [OF k I] run show "I (w_store w')" by simp
  obtain c x where c: "e_ctx_err E CtxWorker (w_outside w) = (c, x)" by fastforce
  obtain ops y where ops: "e_others E x = (ops, y)" by fastforce
  let ?s = "exec_ops ops (w_store w)"
  have "I ?s" using E ops ops_keep [OF I] by (metis others_satisfy_def fst_conv)
  moreover assume "res = Inr (Some (r, kind))"
  with run obtain now s' where "claim_next c now (h_max_attempts h) ?s = (Inr (Some (r, kind)), s')"
    by (auto simp: claim_work_def store_call_def ctx_err_def outside_def interleave_def clock_def
        on_store_def record_event_def c ops split: prod.splits)
  ultimately show "\<not> is_marker_key (r_key r)" by (rule claim_not_marker)
qed

lemma keeps_worker_step:
  assumes E: "others_satisfy E op_on_job"
  shows "keeps (worker_step E h)"
proof -
  have rest: "keeps (work_on_claim E h claimed)"
    if "\<And>r kind. claimed = Inr (Some (r, kind)) \<Longrightarrow> \<not> is_marker_key (r_key r)" for claimed
    using E that keeps_process [OF E] by (auto simp: work_on_claim_def split: sum.split option.split)
  have "keeps (do { claimed \<leftarrow> claim_work E h; work_on_claim E h claimed })"
  proof (rule keepsI)
    fix w a w'
    assume I: "I (w_store w)"
      and run: "run_state (do { claimed \<leftarrow> claim_work E h; work_on_claim E h claimed }) w = (a, w')"
    obtain claimed v where v: "run_state (claim_work E h) w = (claimed, v)" by fastforce
    note res = claim_work_result [OF E I v]
    have "keeps (work_on_claim E h claimed)" by (rule rest) (rule res(2))
    from keepsD [OF this res(1)] run v show "I (w_store w')" by simp
  qed
  then show ?thesis by (auto simp: worker_step_def)
qed

lemma keeps_worker:
  assumes "others_satisfy E op_on_job"
  shows "keeps (worker n E h)"
  by (induction n) (auto intro: keeps_worker_step [OF assms])

text \<open>The reaper.\<close>

lemma keeps_for_each: "(\<And>a. keeps (f a)) \<Longrightarrow> keeps (for_each f as)"
  by (induction as) auto

lemma keeps_backoff [intro!]:
  "others_satisfy E op_on_job \<Longrightarrow> keeps (defer_reconciliation_h E h r e)"
  "others_satisfy E op_on_job \<Longrightarrow> keeps (defer_step E h r e)"
  "others_satisfy E op_on_job \<Longrightarrow> keeps (requeue E h r what)"
  by (auto simp: defer_step_def defer_reconciliation_h_def requeue_def Let_def)

lemma keeps_orphans [intro!]:
  assumes "others_satisfy E op_on_job"
  shows "keeps (reconcile_orphaned_instances E h)" "keeps (reconcile_orphaned_github_runners E)"
proof -
  have "keeps (release_absent_instance E h f r)" "keeps (remove_orphaned_runner E r)" for f r
    using assms by (auto simp: release_absent_instance_def remove_orphaned_runner_def Let_def)
  with assms show "keeps (reconcile_orphaned_instances E h)"
    "keeps (reconcile_orphaned_github_runners E)"
    by (auto simp: reconcile_orphaned_instances_def reconcile_orphaned_github_runners_def
        intro!: keeps_for_each)
qed

lemma keeps_observation [intro!]:
  assumes "others_satisfy E op_on_job"
  shows "keeps (store_ask E (OpObserveGitHubMissing k d n) (\<lambda>now. observe_github_runner_missing k now d n))"
    "keeps (store_ask E (OpObserveRunnerMissing k d n) (\<lambda>now. observe_runner_missing k now d n))"
  unfolding store_ask_def using assms by (auto intro!: keeps_record)

lemma keeps_provisioned [intro!]:
  assumes "others_satisfy E op_on_job"
  shows "keeps (reconcile_provisioned_runners E h)"
proof -
  have 1: "keeps (reconcile_duplicate_runners E h r)" "keeps (requeue_unregistered_runner E h r)"
    "keeps (reconcile_github_missing_runner E h r)" "keeps (reconcile_provider_missing_runner E h r)" for r
    using assms
    by (auto simp: reconcile_duplicate_runners_def requeue_unregistered_runner_def
        reconcile_github_missing_runner_def reconcile_provider_missing_runner_def)
  then have 2: "keeps (reconcile_registration E h r)" for r
    using assms by (auto simp: reconcile_registration_def)
  then have 3: "keeps (reconcile_provider_found_runner E h r)" for r
    using assms by (auto simp: reconcile_provider_found_runner_def)
  with 1 have "keeps (reconcile_provisioned_runner E h r)" for r
    using assms by (auto simp: reconcile_provisioned_runner_def)
  then have "keeps (reconcile_one_provisioned E h r)" for r
    by (auto simp: reconcile_one_provisioned_def)
  with assms show ?thesis by (auto simp: reconcile_provisioned_runners_def intro!: keeps_for_each)
qed

lemma keeps_expiry [intro!]:
  assumes "others_satisfy E op_on_job"
  shows "keeps (expire_aged E h cutoff)"
proof -
  have 1: "keeps (untracked_cleanup_failed E h r n e)" "keeps (prepare_deferred_deletion E r)" for r n e
    using assms by (auto simp: untracked_cleanup_failed_def prepare_deferred_deletion_def)
  then have 2: "keeps (cleanup_untracked E h r n)" for r n
    using assms by (auto simp: cleanup_untracked_def)
  with 1 have 3: "keeps (delete_untracked_expired_runner E h r)" for r
    using assms by (auto simp: delete_untracked_expired_runner_def)
  with 1 have "keeps (expire_one E h r)" for r
    using assms by (auto simp: expire_one_def expire_runner_def Let_def)
  with assms show ?thesis by (auto simp: expire_aged_def intro!: keeps_for_each)
qed

lemma keeps_reap_once:
  assumes "others_satisfy E op_on_job"
  shows "keeps (reap_once E h)"
proof -
  have "keeps (sweep_unknown_instances E h cutoff)" for cutoff
    using assms by (auto simp: sweep_unknown_instances_def)
  with assms show ?thesis
    by (auto simp: reap_once_def expire_runners_def reconcile_liveness_def Let_def)
qed

lemma keeps_reaper:
  assumes "others_satisfy E op_on_job"
  shows "keeps (reaper n E h)"
  by (induction n) (auto intro: keeps_reap_once [OF assms])

end

section \<open>The store provides the contract\<close>

definition store_ready :: "file_store \<Rightarrow> bool" where
  "store_ready s \<longleftrightarrow> store_inv s \<and> cache_ok s \<and> markers_idle s"

text \<open>What the controller makes of the store \<open>s0\<close>.\<close>

definition reaches :: "file_store \<Rightarrow> file_store \<Rightarrow> bool" where
  "reaches s0 s \<longleftrightarrow> store_ready s0 \<and>
     (\<exists>ops. (\<forall>(now, op) \<in> set ops. op_on_job op) \<and> s = exec_ops ops s0)"

lemma exec_ops_append: "exec_ops (ops @ ops') s = exec_ops ops' (exec_ops ops s)"
  by (induction ops s rule: exec_ops.induct) auto

lemma reaches_refl: "store_ready s \<Longrightarrow> reaches s s"
  unfolding reaches_def by (intro conjI exI [of _ "[]"]) simp_all

lemma reaches_ready: "reaches s0 s \<Longrightarrow> store_ready s"
  unfolding reaches_def store_ready_def
  using mk.run_keeps [of s0] mk.allowed_run_stateless [of op_on_job] by blast

lemma reaches_step:
  assumes "reaches s0 s" and "op_on_job op" and "exec_op now op s = (err, s')"
  shows "reaches s0 s'"
proof -
  obtain ops where "store_ready s0" "\<forall>(now, op) \<in> set ops. op_on_job op" "s = exec_ops ops s0"
    using assms(1) by (auto simp: reaches_def)
  with assms(2,3) show ?thesis
    unfolding reaches_def
    by (intro conjI exI [of _ "ops @ [(now, op)]"]) (auto simp: exec_ops_append)
qed

interpretation fs: store_contract "reaches s0" for s0
proof
  show "reaches s0 s'" if "reaches s0 s" "op_on_job op" "exec_op now op s = (err, s')" for s op now err s'
    using reaches_step that .
  show "\<not> is_marker_key (r_key r)"
    if "reaches s0 s" "claim_next c now n s = (Inr (Some (r, kind)), s')" for s c now n r kind s'
    using claim_not_marker [OF _ _ _ that(2)] reaches_ready [OF that(1)] by (simp add: store_ready_def)
qed

lemma keeps_reaches:
  assumes "store_ready (w_store w)" and "\<And>s0. fs.keeps s0 m"
  shows "reaches (w_store w) (w_store (snd (run_state m w)))"
  using fs.keepsD [OF assms(2) reaches_refl [OF assms(1)]] .

end
