(* ===== verification/Store_Crash.thy ===== *)
theory Store_Crash
  imports Store_Runs
begin

text \<open>
  Crashes in the middle of a save, and opening the store again. A process that dies inside
  \<open>saveLocked\<close> leaves the files as the run leaves them in which every system call from the crash
  on fails, the repairing truncation of the journal included, and the interrupted write has
  transferred some number of bytes. So the crash points are runs of \<open>save_locked\<close> itself, under
  any outcomes of its system calls. Bytes written are taken to stay written; the rename of the
  snapshot is atomic.
\<close>

section \<open>Crash points\<close>

lemma reload_torn:
  assumes "disk_holds d (map_of ps)" and "d_journal_exists d"
  shows "\<exists>rs. reload (d\<lparr>d_tail := Some (JBad n)\<rparr>) = Some rs \<and> map_of rs = map_of ps"
proof -
  from assms(1) obtain rs where rs: "snapshot_records (d_snapshot d) = Some rs"
    "map_of (apply_changes (journal_changes (d_lines d)) rs) = map_of ps" and wf: "disk_wf d"
    by (auto simp: disk_holds_def)
  have "disk_wf (d\<lparr>d_tail := Some (JBad n)\<rparr>)" using wf assms(2) by (simp add: disk_wf_def)
  from reload_eq [OF this] rs show ?thesis by simp
qed

lemma reload_unterminated:
  assumes "disk_holds d (map_of ps)" and "d_journal_exists d"
  shows "\<exists>rs. reload (d\<lparr>d_tail := Some (JEntry ch n)\<rparr>) = Some rs \<and>
    map_of rs = map_of (apply_changes ch ps)"
proof -
  from assms(1) obtain rs where rs: "snapshot_records (d_snapshot d) = Some rs"
    "map_of (apply_changes (journal_changes (d_lines d)) rs) = map_of ps" and wf: "disk_wf d"
    by (auto simp: disk_holds_def)
  have "disk_wf (d\<lparr>d_tail := Some (JEntry ch n)\<rparr>)" using wf assms(2) by (simp add: disk_wf_def)
  from reload_eq [OF this] rs apply_changes_cong [OF rs(2)] show ?thesis
    by (simp add: apply_changes_append)
qed

lemma reload_written:
  assumes "disk_holds d (map_of ps)" and "d_journal_exists d"
  shows "\<exists>rs. reload (write_entry ch len n d) = Some rs \<and>
    (map_of rs = map_of ps \<or> map_of rs = map_of (apply_changes ch ps))"
proof -
  have tail: "d_tail d = None" using assms(1) by (simp add: disk_holds_def)
  consider (all) "n = len + 1" | (none) "n = 0" "n \<noteq> len + 1" | (unterminated) "n = len" "n \<noteq> 0"
    | (torn) "n \<noteq> len + 1" "n \<noteq> 0" "n \<noteq> len" by auto
  then show ?thesis
  proof cases
    case all
    then show ?thesis
      using disk_holds_reload [OF disk_holds_append [OF assms, of ch len]] tail
      by (auto simp: write_entry_def)
  next
    case none
    then show ?thesis
      using disk_holds_reload [OF assms(1)] by (auto simp: write_entry_def)
  next
    case unterminated
    then show ?thesis
      using reload_unterminated [OF assms, of ch len] tail by (auto simp: write_entry_def)
  next
    case torn
    then show ?thesis
      using reload_torn [OF assms, of n] tail by (auto simp: write_entry_def)
  qed
qed

text \<open>What an append leaves in the files, whatever its system calls do.\<close>

lemma append_journal_leaves:
  assumes "append_journal io ch d = (err, d')"
  shows "d' = d \<or> (\<exists>n. d' = write_entry ch (io_size io) n (d\<lparr>d_journal_exists := True\<rparr>))"
proof -
  have opened: "d\<lparr>d_journal_exists := True\<rparr> =
      write_entry ch (io_size io) 0 (d\<lparr>d_journal_exists := True\<rparr>)"
    by (simp add: write_entry_def)
  show ?thesis
    using assms opened
    by (auto simp: append_journal_def Let_def rollback_journal_def simp del: not_None_eq
        split: option.splits if_splits prod.splits)
qed

definition reads_old_or_new :: "file_store \<Rightarrow> disk \<Rightarrow> bool" where
  "reads_old_or_new s d \<longleftrightarrow> (\<exists>rs. reload d = Some rs \<and>
     (map_of rs = map_of (fs_persisted s) \<or> map_of rs = map_of (fs_records s)))"

lemma append_atomic:
  assumes ok: "store_ok s"
    and ch: "ch = pending_changes (fs_dirty_keys s) (fs_records s) (fs_persisted s)"
    and app: "append_journal io ch (fs_disk s) = (err, d)"
  shows "reads_old_or_new s d" and "err = None \<Longrightarrow> disk_holds d (map_of (fs_records s))"
proof -
  have holds: "disk_holds (fs_disk s) (map_of (fs_persisted s))"
    and dirty: "dirty_covers s" using ok by (simp_all add: store_ok_def)
  have new: "map_of (apply_changes ch (fs_persisted s)) = map_of (fs_records s)"
    unfolding ch by (rule pending_changes_sound [OF dirty])
  note holds' = disk_holds_exists [OF holds]
  show "reads_old_or_new s d"
    using append_journal_leaves [OF app] disk_holds_reload [OF holds]
      reload_written [OF holds', of ch "io_size io"] new
    by (fastforce simp: reads_old_or_new_def)
  show "disk_holds d (map_of (fs_records s))" if "err = None"
  proof -
    have "d_tail (fs_disk s) = None" using holds by (simp add: disk_holds_def)
    from append_journal_success [OF app [unfolded that] this]
      disk_holds_append [OF holds', of ch "io_size io"] new show ?thesis by simp
  qed
qed

text \<open>Whatever the system calls do, a restart reads the old records or the new ones.\<close>

lemma save_atomic:
  assumes ok: "store_ok s" and save: "save_locked (s\<lparr>fs_io := ios\<rparr>) = (err, s')"
  shows "reads_old_or_new s (fs_disk s')"
    and "err = None \<Longrightarrow> disk_holds (fs_disk s') (map_of (fs_records s))"
proof -
  have holds: "disk_holds (fs_disk s) (map_of (fs_persisted s))"
    and dirty: "dirty_covers s" and wf: "wf_map (fs_records s)"
    using ok by (simp_all add: store_ok_def)
  have old: "reads_old_or_new s (fs_disk s)"
    using disk_holds_reload [OF holds] by (auto simp: reads_old_or_new_def)
  have new: "reads_old_or_new s d" if "disk_holds d (map_of (fs_records s))" for d
    using disk_holds_reload [OF that] by (auto simp: reads_old_or_new_def)
  obtain io t where io: "next_io (s\<lparr>fs_io := ios\<rparr>) = (io, t)" by fastforce
  then obtain ios' where t: "t = s\<lparr>fs_io := ios'\<rparr>"
    by (cases ios) (auto simp: next_io_def)
  define ch where "ch = pending_changes (fs_dirty_keys s) (fs_records s) (fs_persisted s)"
  obtain aerr d where app: "append_journal io ch (fs_disk s) = (aerr, d)" by fastforce
  note atomic = append_atomic [OF ok ch_def app]
  have "reads_old_or_new s (fs_disk s') \<and>
    (err = None \<longrightarrow> disk_holds (fs_disk s') (map_of (fs_records s)))"
  proof (cases "fs_closed s \<or> io_mkdir io \<noteq> None \<or> (ch \<noteq> [] \<and> io_marshal io \<noteq> None)")
    case True
    with save io t old show ?thesis
      by (cases "fs_closed s"; cases "io_mkdir io"; cases "io_marshal io")
        (auto simp: save_locked_def Let_def ch_def [symmetric])
  next
    case run: False
    show ?thesis
    proof (cases "ch = []")
      case True
      with pending_changes_sound [OF dirty] have "map_of (fs_persisted s) = map_of (fs_records s)"
        by (simp add: ch_def)
      with save io t old run True holds show ?thesis
        by (auto simp: save_locked_def Let_def ch_def [symmetric])
    next
      case ch: False
      show ?thesis
      proof (cases aerr)
        case (Some e)
        with save io t run ch app atomic(1) show ?thesis
          by (auto simp: save_locked_def Let_def ch_def [symmetric])
      next
        case None
        let ?u = "t\<lparr>fs_disk := d, fs_persisted := apply_changes ch (fs_persisted s),
          fs_dirty_keys := [], fs_journal_entries := fs_journal_entries s + 1,
          fs_journal_bytes := fs_journal_bytes s + (io_size io + 1)\<rparr>"
        have d: "disk_holds (fs_disk ?u) (map_of (fs_records ?u))"
          using atomic(2) [OF None] t by simp
        have "disk_holds (fs_disk (snd (compact_locked (io_compact io) ?u))) (map_of (fs_records s))"
          using compact_locked_holds [OF d] wf t by simp
        with save io t run ch app None d new show ?thesis
          by (auto simp: save_locked_def Let_def ch_def [symmetric] split: if_splits)
      qed
    qed
  qed
  then show "reads_old_or_new s (fs_disk s')"
    and "err = None \<Longrightarrow> disk_holds (fs_disk s') (map_of (fs_records s))"
    by blast+
qed

section \<open>Opening again\<close>

text \<open>What recovery never touches, and the part of the invariant that every step keeps.\<close>

definition recovery_keeps :: "runner_record \<Rightarrow> runner_record \<Rightarrow> bool" where
  "recovery_keeps r r' \<longleftrightarrow> r_key r' = r_key r \<and> r_delivery_id r' = r_delivery_id r \<and>
     r_job_id r' = r_job_id r \<and> r_owner r' = r_owner r \<and> r_repository r' = r_repository r \<and>
     r_labels r' = r_labels r \<and> r_created_at r' = r_created_at r \<and>
     r_job_completed r' = r_job_completed r \<and> r_recheck_demand r' = r_recheck_demand r \<and>
     r_defer_deletion r' = r_defer_deletion r \<and> r_runner_name r' = r_runner_name r \<and>
     r_github_runner_id r' = r_github_runner_id r \<and>
     r_github_runner_owned r' = r_github_runner_owned r \<and>
     r_deletion_accepted_id r' = r_deletion_accepted_id r \<and>
     (r_instance_id r \<noteq> [] \<longrightarrow> r_instance_id r' = r_instance_id r)"

definition recovery_inv :: "runner_record \<Rightarrow> bool" where
  "recovery_inv r \<longleftrightarrow> acceptance_bound r \<and> \<not> (r_recheck_demand r \<and> r_job_completed r) \<and>
     r_attempts r \<ge> 0 \<and> r_delete_attempts r \<ge> 0 \<and> r_status r \<noteq> StatusUnset \<and> r_droplet_id r = 0"

definition settled_record :: "runner_record \<Rightarrow> bool" where
  "settled_record r \<longleftrightarrow> r_claimed_work r = WorkNone \<and> r_status r \<noteq> StatusProvisioning \<and>
     r_status r \<noteq> StatusDeleting \<and> r_provider r \<noteq> []"

fun recovered_status :: "status \<Rightarrow> status" where
  "recovered_status StatusProvisioning = StatusPending"
| "recovered_status StatusDeleting = StatusCompleted"
| "recovered_status st = st"

locale recovery_step =
  fixes step :: "recovery \<Rightarrow> recovery"
  assumes reports: "\<not> snd (step p) \<Longrightarrow> step p = p"
    and keeps: "recovery_keeps (fst p) (fst (step p))"
    and keeps_inv: "recovery_inv (fst p) \<Longrightarrow> recovery_inv (fst (step p))"
    and keeps_claim: "r_claimed_work (fst p) = WorkNone \<Longrightarrow> r_claimed_work (fst (step p)) = WorkNone"
    and keeps_provider: "r_provider (fst p) \<noteq> [] \<Longrightarrow> r_provider (fst (step p)) = r_provider (fst p)"
    and status: "r_status (fst (step p)) = r_status (fst p) \<or>
      r_status (fst (step p)) = recovered_status (r_status (fst p))"

lemma recovery_keeps_trans: "recovery_keeps r q \<Longrightarrow> recovery_keeps q t \<Longrightarrow> recovery_keeps r t"
  by (simp add: recovery_keeps_def)

lemma recovered_status_idem [simp]: "recovered_status (recovered_status st) = recovered_status st"
  by (cases st) simp_all

lemma recovery_step_compose:
  assumes f: "recovery_step f" and g: "recovery_step g"
  shows "recovery_step (\<lambda>p. g (f p))"
proof
  fix p
  show "g (f p) = p" if "\<not> snd (g (f p))"
    using recovery_step.reports [OF g that] that recovery_step.reports [OF f, of p] by simp
  show "recovery_keeps (fst p) (fst (g (f p)))"
    using recovery_keeps_trans recovery_step.keeps [OF f] recovery_step.keeps [OF g] by blast
  show "recovery_inv (fst (g (f p)))" if "recovery_inv (fst p)"
    using that recovery_step.keeps_inv [OF f] recovery_step.keeps_inv [OF g] by blast
  show "r_claimed_work (fst (g (f p))) = WorkNone" if "r_claimed_work (fst p) = WorkNone"
    using that recovery_step.keeps_claim [OF f] recovery_step.keeps_claim [OF g] by blast
  show "r_provider (fst (g (f p))) = r_provider (fst p)" if "r_provider (fst p) \<noteq> []"
    using that recovery_step.keeps_provider [OF f, of p] recovery_step.keeps_provider [OF g, of "f p"]
    by simp
  show "r_status (fst (g (f p))) = r_status (fst p) \<or>
      r_status (fst (g (f p))) = recovered_status (r_status (fst p))"
    using recovery_step.status [OF f, of p] recovery_step.status [OF g, of "f p"] by auto
qed

lemmas recovery_defs = recovery_keeps_def recovery_inv_def acceptance_bound_def

interpretation rc: recovery_step recover_claim
  by unfold_locales (auto simp: recover_claim_def recovery_defs split: prod.splits if_splits)

interpretation rp: recovery_step recover_provider
  by unfold_locales (auto simp: recover_provider_def recovery_defs split: prod.splits if_splits)

lemma recover_provisioned_at_eq:
  "recover_provisioned_at (r, c) =
    (if r_status r = StatusProvisioned \<and> is_zero (r_provisioned_at r)
     then (r\<lparr>r_provisioned_at := if is_zero (r_updated_at r) then r_created_at r else r_updated_at r\<rparr>,
       True)
     else (r, c))"
  by (simp add: recover_provisioned_at_def)

interpretation ra: recovery_step recover_provisioned_at
proof
  fix p :: recovery
  obtain r c where p: "p = (r, c)" by fastforce
  show "\<not> snd (recover_provisioned_at p) \<Longrightarrow> recover_provisioned_at p = p"
    "recovery_keeps (fst p) (fst (recover_provisioned_at p))"
    "recovery_inv (fst p) \<Longrightarrow> recovery_inv (fst (recover_provisioned_at p))"
    "r_claimed_work (fst p) = WorkNone \<Longrightarrow> r_claimed_work (fst (recover_provisioned_at p)) = WorkNone"
    "r_provider (fst p) \<noteq> [] \<Longrightarrow> r_provider (fst (recover_provisioned_at p)) = r_provider (fst p)"
    "r_status (fst (recover_provisioned_at p)) = r_status (fst p) \<or>
      r_status (fst (recover_provisioned_at p)) = recovered_status (r_status (fst p))"
    unfolding p recover_provisioned_at_eq
    by (cases "r_status r = StatusProvisioned \<and> is_zero (r_provisioned_at r)";
        simp add: recovery_defs)+
qed

interpretation rw: recovery_step recover_interrupted
proof
  fix p :: recovery
  obtain r c where p: "p = (r, c)" by fastforce
  show "\<not> snd (recover_interrupted p) \<Longrightarrow> recover_interrupted p = p"
    "recovery_keeps (fst p) (fst (recover_interrupted p))"
    "recovery_inv (fst p) \<Longrightarrow> recovery_inv (fst (recover_interrupted p))"
    "r_claimed_work (fst p) = WorkNone \<Longrightarrow> r_claimed_work (fst (recover_interrupted p)) = WorkNone"
    "r_provider (fst p) \<noteq> [] \<Longrightarrow> r_provider (fst (recover_interrupted p)) = r_provider (fst p)"
    "r_status (fst (recover_interrupted p)) = r_status (fst p) \<or>
      r_status (fst (recover_interrupted p)) = recovered_status (r_status (fst p))"
    unfolding p
    by (cases "r_status r"; auto simp: recover_interrupted_def recover_interrupted_work_def
        recovery_defs Let_def)+
qed

interpretation ri: recovery_step recover_instance_id
proof
  fix p :: recovery
  obtain r c where p: "p = (r, c)" by fastforce
  show "\<not> snd (recover_instance_id p) \<Longrightarrow> recover_instance_id p = p"
    "recovery_keeps (fst p) (fst (recover_instance_id p))"
    "recovery_inv (fst p) \<Longrightarrow> recovery_inv (fst (recover_instance_id p))"
    "r_claimed_work (fst p) = WorkNone \<Longrightarrow> r_claimed_work (fst (recover_instance_id p)) = WorkNone"
    "r_provider (fst p) \<noteq> [] \<Longrightarrow> r_provider (fst (recover_instance_id p)) = r_provider (fst p)"
    "r_status (fst (recover_instance_id p)) = r_status (fst p) \<or>
      r_status (fst (recover_instance_id p)) = recovered_status (r_status (fst p))"
    unfolding p
    by (cases "r_instance_id r = [] \<and> r_droplet_id r \<noteq> 0";
        simp add: recover_instance_id_def recovery_defs)+
qed

interpretation rs: recovery_step recover_steps
  unfolding recover_steps_def
  by (rule recovery_step_compose [OF recovery_step_compose [OF recovery_step_compose
        [OF recovery_step_compose [OF rc.recovery_step_axioms rp.recovery_step_axioms]
        ra.recovery_step_axioms] rw.recovery_step_axioms] ri.recovery_step_axioms])

lemma recover_steps_settled: "settled_record (fst (recover_steps (r, c)))"
proof -
  let ?a = "recover_claim (r, c)"
  let ?b = "recover_provider ?a"
  let ?d = "recover_provisioned_at ?b"
  let ?e = "recover_interrupted ?d"
  let ?f = "recover_instance_id ?e"
  have "r_claimed_work (fst ?a) = WorkNone" by (simp add: recover_claim_def)
  then have "r_claimed_work (fst ?f) = WorkNone"
    by (intro ri.keeps_claim rw.keeps_claim ra.keeps_claim rp.keeps_claim)
  moreover have b: "r_provider (fst ?b) \<noteq> []"
    by (simp add: recover_provider_def split: prod.split)
  then have "r_provider (fst ?f) \<noteq> []"
    using ri.keeps_provider [of ?e] rw.keeps_provider [of ?d] ra.keeps_provider [of ?b] by simp
  moreover have "r_status (fst ?e) = recovered_status (r_status (fst ?d))"
    by (cases ?d; cases "r_status (fst ?d)")
      (simp_all add: recover_interrupted_def recover_interrupted_work_def Let_def)
  then have "r_status (fst ?f) = recovered_status (r_status (fst ?d))"
    using ri.status [of ?e] by auto
  moreover have "recovered_status st \<noteq> StatusProvisioning \<and> recovered_status st \<noteq> StatusDeleting" for st
    by (cases st) simp_all
  ultimately show ?thesis by (simp add: settled_record_def recover_steps_def)
qed

lemma record_inv_recovery: "record_inv r \<Longrightarrow> recovery_inv r"
  by (simp add: record_inv_def recovery_inv_def)

lemma settled_inv: "settled_record r \<Longrightarrow> recovery_inv r \<Longrightarrow> record_inv r"
  by (cases "r_status r")
    (simp_all add: settled_record_def recovery_inv_def record_inv_def claim_consistent_def)

lemma restamp_simps [simp]:
  "settled_record (r\<lparr>r_next_attempt_at := t, r_updated_at := u\<rparr>) = settled_record r"
  "recovery_inv (r\<lparr>r_next_attempt_at := t, r_updated_at := u\<rparr>) = recovery_inv r"
  "recovery_keeps q (r\<lparr>r_next_attempt_at := t, r_updated_at := u\<rparr>) = recovery_keeps q r"
  by (simp_all add: settled_record_def recovery_defs)

lemma recover_record_kept:
  assumes "recover_record r now d = (r', True, changed)"
  shows "settled_record r'" and "recovery_keeps r r'"
    and "r_status r' = recovered_status (r_status r)"
    and "\<not> changed \<Longrightarrow> r' = r" and "record_inv r \<Longrightarrow> record_inv r'"
    and "\<not> (r_status r = StatusDeleted \<and> r_updated_at r < now - d)"
proof -
  obtain q c where steps: "recover_steps (r, False) = (q, c)" by fastforce
  from assms have old: "\<not> (r_status r = StatusDeleted \<and> r_updated_at r < now - d)"
    by (auto simp: recover_record_def split: if_splits)
  with assms steps have r': "changed = c"
    "r' = (if c then q\<lparr>r_next_attempt_at := zero_time, r_updated_at := now\<rparr> else q)"
    by (auto simp: recover_record_def)
  have q: "settled_record q" "recovery_keeps r q"
    using recover_steps_settled [of r False] rs.keeps [of "(r, False)"] steps by simp_all
  have "r_status q = r_status r \<or> r_status q = recovered_status (r_status r)"
    using rs.status [of "(r, False)"] steps by simp
  then have st: "r_status q = recovered_status (r_status r)"
    using q(1) by (cases "r_status r") (auto simp: settled_record_def)
  show "settled_record r'" "recovery_keeps r r'" using q by (simp_all add: r')
  show "r_status r' = recovered_status (r_status r)" using st by (simp add: r')
  show "\<not> changed \<Longrightarrow> r' = r" using rs.reports [of "(r, False)"] steps by (simp add: r')
  show "\<not> (r_status r = StatusDeleted \<and> r_updated_at r < now - d)" by (rule old)
  show "record_inv r'" if "record_inv r"
  proof (rule settled_inv)
    show "settled_record r'" using q by (simp add: r')
    have "recovery_inv q"
      using rs.keeps_inv [of "(r, False)"] steps record_inv_recovery [OF that] by simp
    then show "recovery_inv r'" by (simp add: r')
  qed
qed

lemma recover_record_dropped:
  "recover_record r now d = (r', False, changed) \<Longrightarrow>
   changed \<and> r_status r = StatusDeleted \<and> r_updated_at r < now - d"
  by (auto simp: recover_record_def split: if_splits prod.splits)

section \<open>Loading\<close>

lemma load_snapshot_Inr:
  "load_snapshot io d = Inr (missing, rs) \<Longrightarrow>
   snapshot_records (d_snapshot d) = Some rs \<and> (missing \<longleftrightarrow> d_snapshot d = SnapMissing)"
  by (cases "d_snapshot d") (auto simp: load_snapshot_def split: option.splits)

lemma replay_lines_Inr:
  "replay_lines i ls rs n = Inr (rs', n') \<Longrightarrow>
   list_all (\<lambda>l. \<not> is_bad l) ls \<and> rs' = apply_changes (journal_changes ls) rs"
  by (induction i ls rs n rule: replay_lines.induct) (auto simp: apply_changes_append)

text \<open>A successful load repairs the tail, so the disk then holds exactly what was loaded.\<close>

lemma load_journal_holds:
  assumes wf: "\<not> d_journal_exists d \<longrightarrow> d_lines d = [] \<and> d_tail d = None"
    and snap: "snapshot_records (d_snapshot d) = Some rs"
    and load: "load_journal io d rs = (Inr (rs', n, b), d')" and wfs: "wf_map rs"
  shows "disk_holds d' (map_of rs')" and "d_snapshot d' = d_snapshot d"
    and "wf_map rs'"
proof -
  have "disk_holds d' (map_of rs') \<and> d_snapshot d' = d_snapshot d \<and> wf_map rs'"
  proof (cases "d_journal_exists d")
    case False
    with load wf snap wfs show ?thesis
      by (auto simp: load_journal_def disk_holds_def disk_wf_def)
  next
    case True
    from True load obtain rs1 n1 where replay: "replay_lines 0 (d_lines d) rs 0 = Inr (rs1, n1)"
      by (auto simp: load_journal_def split: option.splits sum.splits)
    note good = replay_lines_Inr [OF replay]
    have del: "append_journal_delimiter io d = (None, e) \<Longrightarrow> d_tail d = Some t \<Longrightarrow>
        e = d\<lparr>d_lines := d_lines d @ [t], d_tail := None\<rparr>" for e t
      by (auto simp: append_journal_delimiter_def Let_def split: option.splits)
    have rep: "repair_journal_tail io d = (None, e) \<Longrightarrow> e = d\<lparr>d_tail := None\<rparr>" for e
      by (auto simp: repair_journal_tail_def Let_def split: option.splits)
    show ?thesis
    proof (cases "d_tail d")
      case None
      with True load replay good snap wfs show ?thesis
        by (auto simp: load_journal_def disk_holds_def disk_wf_def split: option.splits)
    next
      case (Some t)
      show ?thesis
      proof (cases t)
        case (JBad l)
        with True load replay Some have "d' = d\<lparr>d_tail := None\<rparr>" "rs' = rs1"
          by (auto simp: load_journal_def Let_def split: option.splits prod.splits dest!: rep)
        with True good snap wfs show ?thesis by (simp add: disk_holds_def disk_wf_def)
      next
        case (JEntry ch l)
        with True load replay Some have "d' = d\<lparr>d_lines := d_lines d @ [t], d_tail := None\<rparr>"
          "rs' = apply_changes ch rs1"
          by (auto simp: load_journal_def Let_def split: option.splits prod.splits dest!: del)
        with True good snap JEntry wfs show ?thesis
          by (simp add: disk_holds_def disk_wf_def apply_changes_append)
      next
        case (JBlank l)
        with True load replay Some have "d' = d\<lparr>d_lines := d_lines d @ [t], d_tail := None\<rparr>"
          "rs' = rs1"
          by (auto simp: load_journal_def Let_def split: option.splits prod.splits dest!: del)
        with True good snap JBlank wfs show ?thesis
          by (simp add: disk_holds_def disk_wf_def apply_changes_append)
      qed
    qed
  qed
  then show "disk_holds d' (map_of rs')" and "d_snapshot d' = d_snapshot d"
    and "wf_map rs'" by simp_all
qed

section \<open>Recovery of the whole store\<close>

text \<open>The edits of \<open>recoverRecords\<close>.\<close>

fun recovery_edits ::
    "records \<Rightarrow> time \<Rightarrow> duration \<Rightarrow> (string \<times> runner_record option) list" where
  "recovery_edits [] now d = []"
| "recovery_edits ((k, r) # rs) now d =
    (case recover_record r now d of (r', keep, changed) \<Rightarrow>
       (if \<not> keep then [(k, None)] else if changed then [(k, Some r')] else []) @
       recovery_edits rs now d)"

definition recovered :: "time \<Rightarrow> duration \<Rightarrow> runner_record \<Rightarrow> runner_record option" where
  "recovered now d r =
    (case recover_record r now d of (r', keep, changed) \<Rightarrow> if keep then Some r' else None)"

lemma retention_edit [simp]:
  "fs_deleted_retention (edit_record k v s) = fs_deleted_retention s"
  by (simp add: edit_defs split: option.split)

lemma recover_records_eq:
  "\<exists>b. (fs_keys_dirty s \<longrightarrow> b) \<and> recover_records rs now s rec =
    ((fold (\<lambda>(k, v). edit_record k v) (recovery_edits rs now (fs_deleted_retention s)) s)
      \<lparr>fs_keys_dirty := b\<rparr>, rec \<or> recovery_edits rs now (fs_deleted_retention s) \<noteq> [])"
proof (induction rs arbitrary: s rec)
  case Nil
  show ?case by (rule exI [of _ "fs_keys_dirty s"]) simp
next
  case (Cons e rs)
  obtain k r where e: "e = (k, r)" by fastforce
  obtain r' keep ch where rr: "recover_record r now (fs_deleted_retention s) = (r', keep, ch)"
    using prod_cases3 by blast
  let ?s1 = "(edit_record k None s)\<lparr>fs_keys_dirty := True\<rparr>" and ?s2 = "edit_record k (Some r') s"
  have d: "mark_dirty k (drop_record k s) = edit_record k None s"
    "mark_dirty k (put_record k r' s) = ?s2" by (simp_all add: edit_record_def set_record_def)
  obtain b1 where b1: "fs_keys_dirty ?s1 \<longrightarrow> b1" "recover_records rs now ?s1 True =
      ((fold (\<lambda>(k, v). edit_record k v) (recovery_edits rs now (fs_deleted_retention ?s1)) ?s1)
        \<lparr>fs_keys_dirty := b1\<rparr>, True \<or> recovery_edits rs now (fs_deleted_retention ?s1) \<noteq> [])"
    using Cons.IH [of ?s1 True] by metis
  obtain b2 where b2: "fs_keys_dirty ?s2 \<longrightarrow> b2" "recover_records rs now ?s2 True =
      ((fold (\<lambda>(k, v). edit_record k v) (recovery_edits rs now (fs_deleted_retention ?s2)) ?s2)
        \<lparr>fs_keys_dirty := b2\<rparr>, True \<or> recovery_edits rs now (fs_deleted_retention ?s2) \<noteq> [])"
    using Cons.IH [of ?s2 True] by metis
  have s2: "fs_keys_dirty ?s2 = fs_keys_dirty s" by (simp add: edit_defs)
  show ?case
  proof (cases keep)
    case False
    with b1 show ?thesis by (intro exI [of _ b1]) (simp add: e rr d edits_keys_dirty)
  next
    case k: True
    show ?thesis
    proof (cases ch)
      case True
      with b2 k s2 show ?thesis by (intro exI [of _ b2]) (simp add: e rr d)
    next
      case False
      with Cons.IH [of s rec] k show ?thesis by (simp add: e rr)
    qed
  qed
qed

lemma recovery_edits_map_of:
  "wf_map rs \<Longrightarrow> fold (\<lambda>(k, v) m. m(k := v)) (recovery_edits rs now d) m k =
    (case map_of rs k of None \<Rightarrow> m k
     | Some r \<Rightarrow> (case recover_record r now d of (r', keep, changed) \<Rightarrow>
         if \<not> keep then None else if changed then Some r' else m k))"
proof (induction rs arbitrary: m)
  case (Cons e rs)
  obtain k' r where e: "e = (k', r)" by fastforce
  obtain r' keep ch where rr: "recover_record r now d = (r', keep, ch)"
    using prod_cases3 by blast
  have "map_of rs k' = None" using Cons.prems e by (simp add: map_of_eq_None_iff)
  with Cons e rr show ?case
    by (cases keep; cases ch; cases "k = k'") auto
qed simp

lemma recovery_lookup:
  assumes "wf_map (fs_records s)"
  shows "fold (\<lambda>(k, v) m. m(k := v)) (recovery_edits (fs_records s) now d) (map_of (fs_records s)) k =
    Option.bind (lookup_record s k) (recovered now d)"
proof (cases "lookup_record s k")
  case None
  then show ?thesis by (simp add: recovery_edits_map_of [OF assms])
next
  case (Some r)
  obtain r' keep ch where rr: "recover_record r now d = (r', keep, ch)"
    using prod_cases3 by blast
  show ?thesis
    using Some rr recover_record_kept(4) [of r now d r' ch]
    by (cases keep; cases ch) (simp_all add: recovery_edits_map_of [OF assms] recovered_def)
qed

section \<open>Opening a store\<close>

text \<open>A disk a controller may find: what a previous one left, or a first start.\<close>

definition disk_loadable :: "disk \<Rightarrow> bool" where
  "disk_loadable d \<longleftrightarrow>
     (\<not> d_journal_exists d \<longrightarrow> d_lines d = [] \<and> d_tail d = None) \<and>
     (\<forall>rs. snapshot_records (d_snapshot d) = Some rs \<longrightarrow> wf_map rs)"

lemma apply_retentions:
  "apply_options (map with_deleted_retention ds) s = Inr s' \<Longrightarrow>
   (\<exists>d. s' = s\<lparr>fs_deleted_retention := d\<rparr>) \<and>
   (24 * hour \<le> fs_deleted_retention s \<longrightarrow> 24 * hour \<le> fs_deleted_retention s')"
proof (induction ds arbitrary: s)
  case Nil
  then show ?case by (auto intro: exI [of _ "fs_deleted_retention s"])
next
  case (Cons d ds)
  have step: "with_deleted_retention d s =
      (if d < 24 * hour then Inl (ErrText ''deleted record retention must be at least 24 hours'')
       else Inr (s\<lparr>fs_deleted_retention := d\<rparr>))"
    by (rule with_deleted_retention_def)
  from Cons.prems step have d: "\<not> d < 24 * hour"
    and rest: "apply_options (map with_deleted_retention ds) (s\<lparr>fs_deleted_retention := d\<rparr>) = Inr s'"
    by (auto split: if_splits)
  from Cons.IH [OF rest] d show ?case by auto
qed

lemma compact_config:
  "config (snd (compact_locked io s)) = config s"
  "fs_keys_dirty (snd (compact_locked io s)) = fs_keys_dirty s"
  "fs_runner_keys (snd (compact_locked io s)) = fs_runner_keys s"
  "fs_records (snd (compact_locked io s)) = fs_records s"
  using core_fields [OF compact_locked_core [of io s]] by (simp_all add: config_def)

lemma clean_ok_iff:
  "clean_ok s \<longleftrightarrow> wf_map (fs_records s) \<and> wf_map (fs_persisted s) \<and>
     map_of (fs_persisted s) = map_of (fs_records s) \<and>
     disk_holds (fs_disk s) (map_of (fs_records s)) \<and>
     list_all (\<lambda>io. io_truncate io = None) (fs_io s)"
  unfolding clean_ok_def store_ok_def dirty_covers_def by metis

lemma finalize_open_ok:
  assumes ok: "clean_ok s" and fin: "finalize_open io missing s = (None, s')"
  shows "clean_ok s'" and "fs_records s' = fs_records s"
    and "fs_runner_keys s' = fs_runner_keys s" and "fs_keys_dirty s' = fs_keys_dirty s"
    and "config s' = config s"
proof -
  have holds: "disk_holds (fs_disk s) (map_of (fs_records s))"
    using ok by (simp add: clean_ok_iff)
  have wf: "wf_map (fs_records s)" using ok by (simp add: clean_ok_iff)
  have "clean_ok s' \<and> fs_records s' = fs_records s \<and> fs_runner_keys s' = fs_runner_keys s \<and>
    fs_keys_dirty s' = fs_keys_dirty s \<and> config s' = config s"
  proof (cases "compaction_due s")
    case True
    with fin have s': "s' = snd (compact_locked (li_compact io) s)"
      by (simp add: finalize_open_def)
    have "clean_ok s'"
      using ok compact_locked_holds [OF holds wf, of "li_compact io"]
        compact_locked_persist [of "li_compact io" s] compact_config(4) [of "li_compact io" s]
      by (simp add: s' clean_ok_iff)
    moreover have "fs_io s' = fs_io s" by (simp add: s' compact_locked_persist)
    ultimately show ?thesis by (simp add: s' compact_config)
  next
    case False
    show ?thesis
    proof (cases missing)
      case True
      obtain err d where w: "write_snapshot (li_compact io) (fs_records s) (fs_disk s) = (err, d)"
        by fastforce
      with fin False True have s': "s' = s\<lparr>fs_disk := d\<rparr>" by (simp add: finalize_open_def)
      have "disk_holds d (map_of (fs_records s))"
        using write_snapshot_cases [OF w] holds disk_holds_snapshot wf by blast
      with ok s' show ?thesis
        by (simp add: clean_ok_iff config_def)
    next
      case m: False
      with fin False ok show ?thesis by (simp add: finalize_open_def)
    qed
  qed
  then show "clean_ok s'" and "fs_records s' = fs_records s"
    and "fs_runner_keys s' = fs_runner_keys s" and "fs_keys_dirty s' = fs_keys_dirty s"
    and "config s' = config s" by simp_all
qed

text \<open>Opening, from the disk to the records in memory.\<close>

lemma recover_store:
  assumes ok: "clean_ok s" and dirty: "fs_keys_dirty s"
    and rec: "recover_records (fs_records s) now s False = (t, changed)"
    and save: "(if changed then save_locked t else (None, t)) = (None, u)"
  shows "clean_ok u" and "fs_keys_dirty u" and "config u = config s"
    and "map_of (fs_records u) =
      (\<lambda>k. Option.bind (lookup_record s k) (recovered now (fs_deleted_retention s)))"
proof -
  let ?es = "recovery_edits (fs_records s) now (fs_deleted_retention s)"
  obtain b where "fs_keys_dirty s \<longrightarrow> b" and "(t, changed) =
      ((fold (\<lambda>(k, v). edit_record k v) ?es s)\<lparr>fs_keys_dirty := b\<rparr>, False \<or> ?es \<noteq> [])"
    using recover_records_eq [of s "fs_records s" now False] rec by metis
  with dirty have b: "b" and t: "t = (fold (\<lambda>(k, v). edit_record k v) ?es s)\<lparr>fs_keys_dirty := b\<rparr>"
    and changed: "changed \<longleftrightarrow> ?es \<noteq> []" by simp_all
  have wf: "wf_map (fs_records s)" using ok by (simp add: clean_ok_def store_ok_def)
  have ok': "clean_ok (s\<lparr>fs_keys_dirty := b\<rparr>)" using ok by simp
  have t': "t = fold (\<lambda>(k, v). edit_record k v) ?es (s\<lparr>fs_keys_dirty := b\<rparr>)"
    by (simp add: t edits_keys_dirty)
  have "clean_ok u \<and> fs_keys_dirty u \<and> config u = config s \<and>
    map_of (fs_records u) = fold (\<lambda>(k, v) m. m(k := v)) ?es (map_of (fs_records s))"
  proof (cases changed)
    case False
    with save changed t ok b show ?thesis by (auto simp: config_def)
  next
    case True
    with save have sv: "save_locked (fold (\<lambda>(k, v). edit_record k v) ?es (s\<lparr>fs_keys_dirty := b\<rparr>)) = (None, u)"
      by (simp add: t')
    have "config u = config s" using save_config [OF sv] by simp
    moreover have "fs_keys_dirty u" using txn_frame [OF ok' sv] b by (simp add: same_frame_def)
    ultimately show ?thesis using txn_commit_clean [OF ok' sv] by simp
  qed
  moreover have "fold (\<lambda>(k, v) m. m(k := v)) ?es (map_of (fs_records s)) =
      (\<lambda>k. Option.bind (lookup_record s k) (recovered now (fs_deleted_retention s)))"
    by (rule ext) (rule recovery_lookup [OF wf])
  ultimately show "clean_ok u" and "fs_keys_dirty u" and "config u = config s"
    and "map_of (fs_records u) =
      (\<lambda>k. Option.bind (lookup_record s k) (recovered now (fs_deleted_retention s)))"
    by simp_all
qed

text \<open>What \<open>openFileStore\<close> has loaded when it succeeds, and the store it returns.\<close>

lemma open_file_store_cases:
  assumes disk: "disk_loadable d" and ios: "list_all (\<lambda>io. io_truncate io = None) ios"
    and run: "open_file_store path (map with_deleted_retention ds) io ios now d = (Inr s', d')"
  obtains rs n b d1 s0 where "load_journal io d rs = (Inr (fs_records s0, n, b), d1)"
    and "snapshot_records (d_snapshot d) = Some rs" and "clean_ok s0"
    and "24 * hour \<le> fs_deleted_retention s0"
    and "clean_ok s'" and "fs_keys_dirty s'" and "d' = fs_disk s'"
    and "config s' = config s0"
    and "map_of (fs_records s') =
      (\<lambda>k. Option.bind (lookup_record s0 k) (recovered now (fs_deleted_retention s0)))"
    and "\<exists>rs. map_of rs = map_of (fs_records s') \<and> fs_runner_keys s' = rebuild_runner_index (fs_records s') []"
proof -
  from run obtain s1 where new: "new_file_store path io ios d = Inr s1"
    by (auto simp: open_file_store_def split: if_splits sum.splits)
  then have s1: "fs_records s1 = []" "fs_dirty_keys s1 = []" "fs_keys_dirty s1"
    "fs_deleted_retention s1 = default_deleted_retention" "fs_io s1 = ios"
    by (auto simp: new_file_store_def split: option.splits flock_result.splits)
  from run new obtain s2 where opts: "apply_options (map with_deleted_retention ds) s1 = Inr s2"
    by (auto simp: open_file_store_def split: if_splits sum.splits)
  note s2 = apply_retentions [OF opts]
  from run new opts obtain m rs where snap: "load_snapshot io d = Inr (m, rs)"
    by (auto simp: open_file_store_def split: if_splits sum.splits)
  from run new opts snap obtain rs' n b d1 where jrn: "load_journal io d rs = (Inr (rs', n, b), d1)"
    by (auto simp: open_file_store_def split: if_splits sum.splits prod.splits)
  define s3 where "s3 = s2\<lparr>fs_disk := d1, fs_records := rs', fs_journal_entries := n,
    fs_journal_bytes := b, fs_persisted := rs'\<rparr>"
  obtain t changed where rec: "recover_records (fs_records s3) now s3 False = (t, changed)" by fastforce
  obtain err u where save: "(if changed then save_locked t else (None, t)) = (err, u)" by fastforce
  define u' where "u' = u\<lparr>fs_runner_keys := rebuild_runner_index (fs_records u) []\<rparr>"
  obtain fe v where fin: "finalize_open io m u' = (fe, v)" by fastforce
  from run new opts snap jrn rec save fin have err: "err = None" and fe: "fe = None"
    and res: "s' = v" "d' = fs_disk v"
    unfolding s3_def u'_def
    by (auto simp: open_file_store_def Let_def split: if_splits option.splits)
  note sr = load_snapshot_Inr [OF snap]
  have jwf: "\<not> d_journal_exists d \<longrightarrow> d_lines d = [] \<and> d_tail d = None"
    using disk by (simp add: disk_loadable_def)
  have wf: "wf_map rs" using disk sr by (simp add: disk_loadable_def)
  note lj = load_journal_holds [OF jwf conjunct1 [OF sr] jrn wf]
  have s3: "fs_records s3 = rs'" "fs_keys_dirty s3" "24 * hour \<le> fs_deleted_retention s3"
    using s1 s2 by (auto simp: s3_def default_deleted_retention_def)
  have ok3: "clean_ok s3"
    using lj wf s1 s2 ios by (auto simp: s3_def clean_ok_iff)
  note rc = recover_store [OF ok3 s3(2) rec save [unfolded err]]
  have oku: "clean_ok u'" using rc(1) by (simp add: u'_def clean_ok_iff)
  note fo = finalize_open_ok [OF oku fin [unfolded fe]]
  show ?thesis
  proof (rule that [of rs s3 n b d1])
    show "load_journal io d rs = (Inr (fs_records s3, n, b), d1)" using jrn s3 by simp
    show "map_of (fs_records s') =
      (\<lambda>k. Option.bind (lookup_record s3 k) (recovered now (fs_deleted_retention s3)))"
      using fo rc res by (simp add: u'_def)
    show "fs_keys_dirty s'" "config s' = config s3" using fo rc res by (simp_all add: u'_def)
    show "\<exists>rs. map_of rs = map_of (fs_records s') \<and> fs_runner_keys s' = rebuild_runner_index (fs_records s') []"
      using fo res by (auto simp: u'_def)
  qed (use sr ok3 s3 fo res in auto)
qed

section \<open>A restart after any run\<close>

lemma disk_holds_loadable: "disk_holds d m \<Longrightarrow> disk_loadable d"
  by (auto simp: disk_holds_def disk_wf_def disk_loadable_def)

lemma load_journal_value:
  assumes "disk_holds d m" and "snapshot_records (d_snapshot d) = Some rs"
    and "load_journal io d rs = (Inr (rs', n, b), d')"
  shows "map_of rs' = m"
proof -
  have tail: "d_tail d = None" and m: "map_of (apply_changes (journal_changes (d_lines d)) rs) = m"
    and wf: "\<not> d_journal_exists d \<longrightarrow> d_lines d = []"
    using assms(1,2) by (auto simp: disk_holds_def disk_wf_def)
  show ?thesis
  proof (cases "d_journal_exists d")
    case False
    with assms(3) wf m show ?thesis by (simp add: load_journal_def)
  next
    case True
    with assms(3) tail obtain k where "replay_lines 0 (d_lines d) rs 0 = Inr (rs', k)"
      by (auto simp: load_journal_def Let_def split: option.splits sum.splits)
    with replay_lines_Inr m show ?thesis by blast
  qed
qed

lemma recovered_Some:
  "recovered now d r = Some r' \<Longrightarrow> settled_record r' \<and> recovery_keeps r r' \<and>
     r_status r' = recovered_status (r_status r) \<and> (record_inv r \<longrightarrow> record_inv r')"
  by (cases "recover_record r now d")
    (auto simp: recovered_def dest: recover_record_kept split: if_splits)

lemma recovered_None:
  "recovered now d r = None \<Longrightarrow> r_status r = StatusDeleted \<and> r_updated_at r < now - d"
  by (cases "recover_record r now d")
    (auto simp: recovered_def dest: recover_record_dropped split: if_splits)

lemma reopen_step:
  assumes inv: "store_inv s" and ios: "list_all (\<lambda>io. io_truncate io = None) ios"
    and run: "open_file_store path (map with_deleted_retention ds) io ios now (fs_disk s) = (Inr s', d')"
  shows "store_inv s'" and "cache_ok s'" and "24 * hour \<le> fs_deleted_retention s'"
    and "lookup_record s' k =
      Option.bind (lookup_record s k) (recovered now (fs_deleted_retention s'))"
    and "fs_runner_keys s' = rebuild_runner_index (fs_records s') []"
proof -
  have holds: "disk_holds (fs_disk s) (map_of (fs_records s))" and recs: "records_inv s"
    using inv by (simp_all add: store_inv_def clean_ok_iff)
  from disk_holds_loadable [OF holds] ios run
  have "store_inv s' \<and> cache_ok s' \<and> 24 * hour \<le> fs_deleted_retention s' \<and>
    (\<forall>k. lookup_record s' k =
      Option.bind (lookup_record s k) (recovered now (fs_deleted_retention s'))) \<and>
    fs_runner_keys s' = rebuild_runner_index (fs_records s') []"
  proof (cases rule: open_file_store_cases)
    case (1 rs n b d1 s0)
    have "map_of (fs_records s0) = map_of (fs_records s)"
      using load_journal_value [OF holds 1(2,1)] .
    moreover have ret: "fs_deleted_retention s' = fs_deleted_retention s0"
      using 1(8) by (simp add: config_def)
    ultimately have look: "lookup_record s' k =
        Option.bind (lookup_record s k) (recovered now (fs_deleted_retention s'))" for k
      using 1(9) by simp
    have "records_inv s'"
      unfolding records_inv_def look
      by (auto simp: bind_eq_Some_conv recovery_keeps_def dest!: recovered_Some records_invD [OF recs])
    with 1 look ret show ?thesis
      by (auto simp: store_inv_def intro: cache_okI_dirty)
  qed
  then show "store_inv s'" and "cache_ok s'" and "24 * hour \<le> fs_deleted_retention s'"
    and "lookup_record s' k =
      Option.bind (lookup_record s k) (recovered now (fs_deleted_retention s'))"
    and "fs_runner_keys s' = rebuild_runner_index (fs_records s') []"
    by blast+
qed

section \<open>The index of runner identities\<close>

definition indexable :: "string \<Rightarrow> runner_record \<Rightarrow> bool" where
  "indexable key r \<longleftrightarrow> r_status r \<noteq> StatusDeleted \<and> r_github_runner_owned r \<and>
     r_github_runner_id r \<noteq> 0 \<and> key \<noteq> record_marker_key r"

text \<open>\<open>#\<close> and the digits after it determine the runner number.\<close>

lemma runner_identity_inject:
  assumes "runner_identity_key o1 p1 i = runner_identity_key o2 p2 j"
  shows "i = j" and "to_lower (o1 @ ''/'' @ p1) = to_lower (o2 @ ''/'' @ p2)"
proof -
  have hash: "CHR ''#'' \<notin> set (itoa k)" for k
    using itoa_chars [of "CHR ''#''" k] by auto
  have split: "xs @ CHR ''#'' # ys = us @ CHR ''#'' # vs \<Longrightarrow>
      CHR ''#'' \<notin> set ys \<Longrightarrow> CHR ''#'' \<notin> set vs \<Longrightarrow> xs = us \<and> ys = vs"
    for xs ys us vs :: string
    by (auto simp: append_eq_append_conv2 Cons_eq_append_conv append_eq_Cons_conv)
  from assms have "to_lower (o1 @ ''/'' @ p1) @ CHR ''#'' # itoa i =
      to_lower (o2 @ ''/'' @ p2) @ CHR ''#'' # itoa j"
    by (simp add: runner_identity_key_def)
  from split [OF this hash hash] itoa_inject show "i = j"
    and "to_lower (o1 @ ''/'' @ p1) = to_lower (o2 @ ''/'' @ p2)" by blast+
qed

lemma rebuild_index_sound:
  "map_of (rebuild_runner_index rs idx) ident = Some k \<Longrightarrow>
   map_of idx ident = Some k \<or> (\<exists>r. (k, r) \<in> set rs \<and> indexable k r \<and> record_identity r = ident)"
  by (induction rs idx rule: rebuild_runner_index.induct)
    (auto simp: indexable_def split: if_splits)

lemma rebuild_index_mono:
  "ident \<in> dom (map_of idx) \<Longrightarrow> ident \<in> dom (map_of (rebuild_runner_index rs idx))"
proof (induction rs idx rule: rebuild_runner_index.induct)
  case (2 key x rest idx)
  from "2.prems" show ?case
    unfolding rebuild_runner_index.simps by (intro "2.IH") (auto split: if_splits)
qed simp

lemma rebuild_index_total:
  "(k, r) \<in> set rs \<Longrightarrow> indexable k r \<Longrightarrow>
   \<exists>k'. map_of (rebuild_runner_index rs idx) (record_identity r) = Some k'"
proof (induction rs idx rule: rebuild_runner_index.induct)
  case (2 key x rest idx)
  show ?case
  proof (cases "(k, r) = (key, x)")
    case True
    with "2.prems"(2) rebuild_index_mono
      [of "record_identity r" "AList.update (record_identity r) key idx" rest]
    show ?thesis by (auto simp: indexable_def dom_def)
  next
    case False
    with 2 show ?thesis by auto
  qed
qed simp

lemma owns_runner_rebuilt:
  assumes wf: "wf_map (fs_records s)" and idx: "fs_runner_keys s = rebuild_runner_index (fs_records s) []"
  shows "owns_runner owner repo i s \<longleftrightarrow>
    (\<exists>k r. lookup_record s k = Some r \<and> indexable k r \<and> r_github_runner_id r = i \<and>
      to_lower (r_owner r @ ''/'' @ r_repository r) = to_lower (owner @ ''/'' @ repo))"
    (is "_ \<longleftrightarrow> ?ex")
proof -
  let ?id = "runner_identity_key owner repo i"
  have sound: "\<exists>r. lookup_record s k = Some r \<and> indexable k r \<and> record_identity r = ?id"
    if "map_of (fs_runner_keys s) ?id = Some k" for k
    using rebuild_index_sound [of "fs_records s" "[]" ?id k] that wf by (auto simp: idx)
  show ?thesis
  proof
    assume "owns_runner owner repo i s"
    then obtain k where k: "map_of (fs_runner_keys s) ?id = Some k"
      by (auto simp: owns_runner_def split: option.splits)
    from sound [OF k] obtain r where r: "lookup_record s k = Some r" "indexable k r"
      "record_identity r = ?id" by blast
    with runner_identity_inject [of "r_owner r" "r_repository r" "r_github_runner_id r" owner repo i]
    show ?ex by (auto simp: record_identity_def)
  next
    assume ?ex
    then obtain k r where r: "lookup_record s k = Some r" "indexable k r" "r_github_runner_id r = i"
      "to_lower (r_owner r @ ''/'' @ r_repository r) = to_lower (owner @ ''/'' @ repo)" by blast
    have "record_identity r = ?id"
      using r(3,4) by (simp add: record_identity_def runner_identity_key_def)
    with rebuild_index_total [OF map_of_SomeD [OF r(1)] r(2), of "[]"]
    obtain k' where k': "map_of (fs_runner_keys s) ?id = Some k'" by (auto simp: idx)
    from sound [OF k'] obtain r' where r': "lookup_record s k' = Some r'" "indexable k' r'"
      "record_identity r' = ?id" by blast
    have "r_github_runner_id r' = i"
      using r'(3) runner_identity_inject(1) by (simp add: record_identity_def)
    with k' r' show "owns_runner owner repo i s"
      by (simp add: owns_runner_def indexable_def)
  qed
qed

end
