(* ===== verification/Store_Properties.thy ===== *)
theory Store_Properties
  imports Store_Crash
begin

text \<open>
  The properties of the state store. Each one is a theorem of its own; the example stores below
  are the concrete inputs of the witnesses.
\<close>

section \<open>Examples\<close>

text \<open>A store just opened on a snapshot of \<open>rs\<close>.\<close>

definition store_with :: "records \<Rightarrow> file_store" where
  "store_with rs = fresh_store\<lparr>fs_records := rs, fs_persisted := rs,
     fs_disk := \<lparr>d_snapshot = SnapRecords rs, d_journal_exists = True, d_lines = [], d_tail = None\<rparr>\<rparr>"

lemma store_with_fields [simp]:
  "fs_records (store_with rs) = rs" "fs_persisted (store_with rs) = rs"
  "fs_dirty_keys (store_with rs) = []" "fs_keys_dirty (store_with rs)"
  "fs_runner_keys (store_with rs) = []" "fs_closed (store_with rs) = False"
  "fs_io (store_with rs) = []" "fs_max_live_runners (store_with rs) = 20"
  "fs_journal_entries (store_with rs) = 0" "fs_journal_bytes (store_with rs) = 0"
  "fs_deleted_retention (store_with rs) = default_deleted_retention"
  "fs_disk (store_with rs) =
    \<lparr>d_snapshot = SnapRecords rs, d_journal_exists = True, d_lines = [], d_tail = None\<rparr>"
  by (simp_all add: store_with_def fresh_store_def)

lemma store_with_inv:
  assumes "wf_map rs" and "\<forall>(k, r) \<in> set rs. record_inv r \<and> r_key r = k"
  shows "store_inv (store_with rs)" and "cache_ok (store_with rs)"
proof -
  have "clean_ok (store_with rs)"
    using assms(1) by (simp add: clean_ok_iff disk_holds_def disk_wf_def)
  moreover have "records_inv (store_with rs)"
    using assms(2) by (auto simp: records_inv_def dest!: map_of_SomeD)
  ultimately show "store_inv (store_with rs)" by (simp add: store_inv_def)
  show "cache_ok (store_with rs)" by (simp add: cache_okI_dirty)
qed

definition sample_request :: runner_record where
  "sample_request = zero_record\<lparr>r_key := ''acme/app/7'', r_delivery_id := ''d1'', r_job_id := 7,
     r_owner := ''acme'', r_repository := ''app'', r_labels := [''self-hosted''],
     r_provider := ''digitalocean''\<rparr>"

text \<open>The completion of job 8 by runner 42, which was created for job 7.\<close>

definition sample_completion :: runner_record where
  "sample_completion = sample_request\<lparr>r_key := ''acme/app/8'', r_job_id := 8,
     r_delivery_id := ''d2'', r_github_runner_id := 42\<rparr>"

definition sample_pending :: runner_record where
  "sample_pending = sample_request\<lparr>r_status := StatusPending\<rparr>"

definition sample_running :: runner_record where
  "sample_running = sample_request\<lparr>r_status := StatusProvisioned, r_instance_id := ''i-1'',
     r_github_runner_id := 42, r_github_runner_owned := True, r_provisioned_at := 5\<rparr>"

definition sample_deleting :: runner_record where
  "sample_deleting = sample_running\<lparr>r_status := StatusDeleting, r_claimed_work := WorkDelete,
     r_delete_attempts := 1\<rparr>"

definition sample_deleted :: runner_record where
  "sample_deleted = sample_running\<lparr>r_status := StatusDeleted, r_updated_at := 1\<rparr>"

definition sample_orphan :: runner_record where
  "sample_orphan = sample_request\<lparr>r_status := StatusOrphaned, r_github_runner_id := 42,
     r_github_runner_owned := True\<rparr>"

lemmas sample_defs = sample_request_def sample_completion_def sample_pending_def sample_running_def
  sample_deleting_def sample_deleted_def sample_orphan_def zero_record_def

definition one_record :: "runner_record \<Rightarrow> file_store" where
  "one_record r = store_with [(r_key r, r)]"

lemma one_record_inv: "record_inv r \<Longrightarrow> store_inv (one_record r) \<and> cache_ok (one_record r)"
  using store_with_inv [of "[(r_key r, r)]"] by (simp add: one_record_def)

lemma one_record_fields [simp]:
  "fs_records (one_record r) = [(r_key r, r)]"
  "fs_deleted_retention (one_record r) = default_deleted_retention"
  "fs_max_live_runners (one_record r) = 20" "fs_runner_keys (one_record r) = []"
  by (simp_all add: one_record_def)

lemma sample_inv:
  "record_inv sample_pending" "record_inv sample_running" "record_inv sample_deleting"
  "record_inv sample_deleted" "record_inv sample_orphan"
  by (simp_all add: sample_defs record_inv_defs)

lemma sample_fresh: "fresh_request sample_request" "fresh_request sample_completion"
  by (simp_all add: sample_defs fresh_request_def is_marker_key_def has_prefix_def
      completion_marker_prefix_def)

lemma sample_keys [simp]:
  "r_key sample_request = ''acme/app/7''" "r_key sample_pending = ''acme/app/7''"
  "r_key sample_running = ''acme/app/7''" "r_key sample_deleting = ''acme/app/7''"
  "r_key sample_deleted = ''acme/app/7''" "r_key sample_orphan = ''acme/app/7''"
  "r_key sample_completion = ''acme/app/8''"
  by (simp_all add: sample_defs)

text \<open>Evaluation of a save whose system calls all succeed.\<close>

lemmas save_eval = save_locked_def next_io_def append_journal_def write_entry_def
  compaction_due_def mark_dirty_def put_record_def Let_def

definition healthy :: "file_store \<Rightarrow> bool" where
  "healthy s \<longleftrightarrow> \<not> fs_closed s \<and> fs_io s = []"

lemma append_healthy: "fst (append_journal save_ok ch d) = None"
  by (simp add: append_journal_def Let_def)

lemma save_healthy:
  assumes "healthy s" shows "fst (save_locked s) = None"
proof -
  obtain e d where a: "append_journal save_ok
      (pending_changes (fs_dirty_keys s) (fs_records s) (fs_persisted s)) (fs_disk s) = (e, d)"
    by fastforce
  with append_healthy have "e = None" by (metis fst_conv)
  with a assms show ?thesis
    by (simp add: save_locked_def healthy_def next_io_def Let_def)
qed

lemma healthy_edits [simp]:
  "healthy (edit_record k v s) = healthy s" "healthy (s\<lparr>fs_keys_dirty := b\<rparr>) = healthy s"
  "healthy (s\<lparr>fs_runner_keys := m\<rparr>) = healthy s" "healthy (store_with rs)"
  "healthy (put_record k r s) = healthy s" "healthy (mark_dirty k s) = healthy s"
  by (simp_all add: healthy_def edit_defs split: option.split)

lemma healthy_fold [simp]: "healthy (fold (\<lambda>(k, v). edit_record k v) es s) = healthy s"
  by (induction es arbitrary: s) (simp_all add: case_prod_unfold)

lemma replace_eval:
  "r \<noteq> r' \<Longrightarrow> fst (replace_record (r_key r) r r' (one_record r)) = None"
  by (simp add: replace_record_def save_eval one_record_def split: prod.split option.split)
lemma one_record_replace:
  assumes "record_inv r" and "r \<noteq> r'"
  obtains s' where "replace_record (r_key r) r r' (one_record r) = (None, s')"
    and "map_of (fs_records s') = [r_key r \<mapsto> r']"
proof -
  obtain s' where rep: "replace_record (r_key r) r r' (one_record r) = (None, s')"
    using replace_eval [OF assms(2)] by (auto simp: prod_eq_iff)
  have ok: "clean_ok (one_record r)" using one_record_inv [OF assms(1)] by (simp add: store_inv_def)
  have old: "lookup_record (one_record r) (r_key r) = Some r" by simp
  have "map_of (fs_records s') = [r_key r \<mapsto> r']"
    using replace_record_spec(3) [OF ok old rep] by (auto simp: fun_eq_iff)
  with rep show ?thesis by (rule that)
qed

lemma one_record_update:
  assumes "record_inv r" and "(f r)\<lparr>r_updated_at := t\<rparr> \<noteq> r"
  obtains s' where "update_record (r_key r) f t (one_record r) = (None, s')"
    and "map_of (fs_records s') = [r_key r \<mapsto> (f r)\<lparr>r_updated_at := t\<rparr>]"
proof -
  obtain s' where "replace_record (r_key r) r ((f r)\<lparr>r_updated_at := t\<rparr>) (one_record r) = (None, s')"
    and m: "map_of (fs_records s') = [r_key r \<mapsto> (f r)\<lparr>r_updated_at := t\<rparr>]"
    using one_record_replace [OF assms(1)] assms(2) by metis
  then have "update_record (r_key r) f t (one_record r) = (None, s')"
    by (simp add: update_record_def)
  with m show ?thesis by (rule that [rotated])
qed

lemma sample_status [simp]:
  "r_status sample_pending = StatusPending" "r_status sample_running = StatusProvisioned"
  "r_status sample_deleting = StatusDeleting" "r_status sample_deleted = StatusDeleted"
  "r_status sample_orphan = StatusOrphaned"
  by (simp_all add: sample_defs)

lemma sample_not_marker [simp]: "\<not> is_marker_key ''acme/app/7''" "\<not> is_marker_key ''acme/app/8''"
  by (simp_all add: is_marker_key_def has_prefix_def completion_marker_prefix_def)

definition sample_ops :: "(time \<times> store_op) list" where
  "sample_ops = [(100, OpCreate sample_request), (200, OpClaimNext None 3),
     (300, OpMarkJITCreated ''acme/app/7'' 42 ''runner-7''),
     (400, OpMarkProvisioned ''acme/app/7'' ''i-1'' 42 ''runner-7''),
     (500, OpRecordCompletion sample_completion), (600, OpClaimNext None 3)]"

lemma sample_wf: "\<forall>(now, op) \<in> set sample_ops. op_wf op"
  using sample_fresh
  by (simp add: sample_ops_def is_marker_key_def has_prefix_def completion_marker_prefix_def)

text \<open>A disk whose next journal sync fails.\<close>

definition failing_sync :: save_io where
  "failing_sync = save_ok\<lparr>io_sync := Some (ErrText ''input/output error'')\<rparr>"

definition failing_store :: "runner_record \<Rightarrow> file_store" where
  "failing_store r = (one_record r)\<lparr>fs_io := [failing_sync]\<rparr>"

lemma failing_sync_simps [simp]:
  "io_mkdir failing_sync = None" "io_marshal failing_sync = None" "io_stat failing_sync = None"
  "io_open failing_sync = None" "io_chmod failing_sync = None" "io_dirsync failing_sync = None"
  "io_fstat failing_sync = None" "io_written failing_sync = None"
  "io_write_err failing_sync = None" "io_size failing_sync = 100" "io_truncate failing_sync = None"
  "io_sync failing_sync = Some (ErrText ''input/output error'')"
  by (simp_all add: failing_sync_def)

lemma failing_store_inv:
  assumes "record_inv r"
  shows "store_inv (failing_store r)" and "cache_ok (failing_store r)"
proof -
  have "clean_ok (failing_store r)"
    by (simp add: failing_store_def one_record_def clean_ok_iff disk_holds_def disk_wf_def)
  moreover have "records_inv (failing_store r)"
    using assms by (simp add: records_inv_def failing_store_def)
  ultimately show "store_inv (failing_store r)" by (simp add: store_inv_def)
  show "cache_ok (failing_store r)"
    by (rule cache_okI_dirty) (simp add: failing_store_def one_record_def)
qed

lemma failing_store_fields [simp]: "fs_records (failing_store r) = [(r_key r, r)]"
  by (simp add: failing_store_def)

lemma append_failing: "fst (append_journal failing_sync ch d) \<noteq> None"
  by (simp add: append_journal_def Let_def del: not_None_eq split: prod.split)

lemma save_failing:
  assumes "\<not> fs_closed s" and "fs_io s = [failing_sync]"
    and "pending_changes (fs_dirty_keys s) (fs_records s) (fs_persisted s) \<noteq> []"
  shows "fst (save_locked s) \<noteq> None"
  using assms append_failing
    [of "pending_changes (fs_dirty_keys s) (fs_records s) (fs_persisted s)" "fs_disk s"]
  by (auto simp: save_locked_def next_io_def Let_def simp del: not_None_eq
      split: prod.splits option.splits)

lemma failing_update:
  assumes "(f r)\<lparr>r_updated_at := t\<rparr> \<noteq> r"
  shows "fst (update_record (r_key r) f t (failing_store r)) \<noteq> None"
proof -
  define r' where "r' = (f r)\<lparr>r_updated_at := t\<rparr>"
  have "fst (save_locked (mark_dirty (r_key r) (put_record (r_key r) r' (failing_store r)))) \<noteq> None"
    using assms
    by (intro save_failing)
      (auto simp: r'_def [symmetric] mark_dirty_def put_record_def failing_store_def one_record_def)
  then show ?thesis
    by (auto simp: update_record_def replace_record_def r'_def split: prod.splits option.splits)
qed

lemma save_keeps_healthy:
  assumes "save_locked s = (err, s')" and "healthy s"
  shows "healthy s'"
  using assms core_fields(3) [OF save_core [OF assms(1)]]
  by (auto simp: healthy_def save_locked_def next_io_def Let_def compact_locked_persist
      split: option.splits prod.splits if_splits)

lemma healthy_saves:
  assumes "healthy s" obtains s' where "save_locked s = (None, s')" and "healthy s'"
proof -
  obtain err s' where save: "save_locked s = (err, s')" by fastforce
  with save_healthy [OF assms] have "err = None" by simp
  with save save_keeps_healthy [OF save assms] show ?thesis by (intro that [of s']) simp_all
qed

lemma healthy_replace:
  assumes "healthy s" and "clean_ok s" and "lookup_record s k = Some q"
    and "replace_record k q q' s = (err, s')"
  shows "err = None" and "healthy s'" and "clean_ok s'" and "lookup_record s' k = Some q'"
proof -
  have "healthy (mark_dirty k (put_record k q' s))" using assms(1) by simp
  then obtain u where "save_locked (mark_dirty k (put_record k q' s)) = (None, u)" and "healthy u"
    by (rule healthy_saves)
  with assms(4) have e: "err = None" and "s' = u" by (auto simp: replace_record_def)
  with \<open>healthy u\<close> show "err = None" and "healthy s'" by simp_all
  show "clean_ok s'" using replace_record_spec(1) [OF assms(2,3,4)] .
  show "lookup_record s' k = Some q'" using replace_record_spec(3) [OF assms(2,3,4)] e by simp
qed

text \<open>The claim of the pending sample record.\<close>

definition claimed_sample :: "time \<Rightarrow> runner_record" where
  "claimed_sample now = sample_pending\<lparr>r_status := StatusProvisioning, r_attempts := 1,
     r_updated_at := now, r_next_attempt_at := zero_time, r_claimed_work := WorkProvision\<rparr>"

lemma sample_claim_at:
  assumes "0 \<le> now" and "0 < n"
  obtains s' where "claim_next None now n (one_record sample_pending) =
      (Inr (Some (claimed_sample now, WorkProvision)), s')"
    and "healthy s'" and "clean_ok s'" and "map_of (fs_records s') = [''acme/app/7'' \<mapsto> claimed_sample now]"
proof -
  let ?s = "(one_record sample_pending)\<lparr>fs_ordered_keys := [''acme/app/7''], fs_keys_dirty := False\<rparr>"
  have keys: "ordered_keys (one_record sample_pending) = ([''acme/app/7''], ?s)"
    by (simp add: ordered_keys_def keys_of_def one_record_def Let_def)
  have live: "live_runner_count ?s = 0"
    by (simp add: live_runner_count_def is_live_def sample_defs)
  have idle: "\<not> r_next_attempt_at sample_pending > now"
    using assms by (simp add: sample_defs zero_time_def)
  define c where "c = sample_pending\<lparr>r_status := StatusProvisioning, r_attempts := 1\<rparr>"
  have cr: "claim_record 0 20 n sample_pending = Some (c, WorkProvision)"
    using assms by (simp add: claim_record_def sample_defs c_def)
  have ex: "\<not> provision_exhausted n sample_pending" "\<not> deletion_exhausted n sample_pending"
    using assms by (simp_all add: provision_exhausted_def deletion_exhausted_def sample_defs)
  have ok: "healthy ?s" "clean_ok ?s"
    using one_record_inv [OF sample_inv(1)] by (simp_all add: healthy_def one_record_def store_inv_def)
  have look: "lookup_record ?s ''acme/app/7'' = Some sample_pending" by simp
  obtain err t where rep: "replace_record ''acme/app/7'' sample_pending (claimed_sample now) ?s = (err, t)"
    by fastforce
  note rp = healthy_replace [OF ok look rep] replace_record_spec(3) [OF ok(2) look rep]
  have "claim_next None now n (one_record sample_pending) =
      (Inr (Some (claimed_sample now, WorkProvision)), t)"
    using cr live idle ex rep rp(1)
    by (simp add: claim_next_def keys Let_def c_def claimed_sample_def)
  then show ?thesis by (rule that) (use rp in auto)
qed

lemma sample_claim:
  "\<exists>s' r. claim_next None 200 3 (one_record sample_pending) = (Inr (Some (r, WorkProvision)), s')"
  by (rule sample_claim_at [of 200 3]) auto

section \<open>Durability\<close>

lemma run_inv:
  assumes "store_inv s" and "cache_ok s" and "\<forall>(now, op) \<in> set ops. op_wf op"
  shows "store_inv (exec_ops ops s)" and "cache_ok (exec_ops ops s)"
  using oi.run_keeps [of s ops] oi.allowed_run_stateless [of op_wf ops s] assms by simp_all

lemma inv_reload:
  "store_inv s \<Longrightarrow> \<exists>rs. reload (fs_disk s) = Some rs \<and> map_of rs = map_of (fs_records s)"
  using disk_holds_reload by (simp add: store_inv_def clean_ok_iff)

text \<open>C1: After any sequence of operations of the store, whatever the outcomes of their system
calls short of a failed rollback, a process that reads the snapshot and replays the journal sees
exactly the records that the store holds in memory.\<close>

theorem durable_run:
  assumes "store_inv s" and "cache_ok s" and "\<forall>(now, op) \<in> set ops. op_wf op"
  shows "\<exists>rs. reload (fs_disk (exec_ops ops s)) = Some rs \<and>
    map_of rs = map_of (fs_records (exec_ops ops s))"
  by (rule inv_reload [OF run_inv(1) [OF assms]])

theorem durable_run_witness:
  "\<exists>rs. reload (fs_disk (exec_ops sample_ops fresh_store)) = Some rs \<and>
    map_of rs = map_of (fs_records (exec_ops sample_ops fresh_store))"
  using durable_run [OF fresh_store_inv(1,2) sample_wf] .

text \<open>C2: A save is atomic under every outcome of its system calls, the failing ones included, and
so at every point where the process can die (a death is the run in which all calls from then on
fail and the interrupted write has transferred some bytes): a restart reads either the records
before the operation or the records after it, and after a save that reported success only the
records after it. This covers the journal append, its rollback and a compaction cut short.\<close>

theorem save_crash_atomic:
  assumes "store_ok s" and "save_locked (s\<lparr>fs_io := ios\<rparr>) = (err, s')"
  shows "\<exists>rs. reload (fs_disk s') = Some rs \<and>
    (map_of rs = map_of (fs_records s) \<or> err \<noteq> None \<and> map_of rs = map_of (fs_persisted s))"
proof (cases "err = None")
  case True
  with disk_holds_reload [OF save_atomic(2) [OF assms]] show ?thesis by blast
next
  case False
  with save_atomic(1) [OF assms] show ?thesis by (auto simp: reads_old_or_new_def)
qed

text \<open>The process dies when three bytes of the entry of a removal are in the journal.\<close>

definition dying_write :: save_io where
  "dying_write = save_ok\<lparr>io_written := Some 3, io_write_err := Some (ErrText ''killed''),
     io_truncate := Some (ErrText ''killed''), io_resync := Some (ErrText ''killed'')\<rparr>"

lemma dying_write_torn:
  assumes "ch \<noteq> []" and "d_tail d = None"
  shows "append_journal dying_write ch d =
    (fst (append_journal dying_write ch d), d\<lparr>d_journal_exists := True, d_tail := Some (JBad 3)\<rparr>)"
    and "fst (append_journal dying_write ch d) \<noteq> None"
  using assms
  by (simp_all add: append_journal_def dying_write_def write_entry_def rollback_journal_def
      del: not_None_eq)

theorem save_crash_atomic_witness:
  "let s = edit_record ''acme/app/7'' None (one_record sample_pending);
       d = fs_disk (snd (save_locked (s\<lparr>fs_io := [dying_write]\<rparr>)))
   in d_tail d = Some (JBad 3) \<and> (\<exists>rs. reload d = Some rs \<and>
     (map_of rs = map_of (fs_records s) \<or> map_of rs = map_of (fs_persisted s)))"
proof -
  let ?s = "edit_record ''acme/app/7'' None (one_record sample_pending)"
  obtain err s' where run: "save_locked (?s\<lparr>fs_io := [dying_write]\<rparr>) = (err, s')" by fastforce
  have ok: "store_ok ?s"
    using one_record_inv [OF sample_inv(1)] ds.ok_edit by (simp add: store_inv_def clean_ok_def)
  have ch: "pending_changes (fs_dirty_keys ?s) (fs_records ?s) (fs_persisted ?s) \<noteq> []"
    by (simp add: edit_defs one_record_def)
  have open_io: "\<not> fs_closed ?s" "d_tail (fs_disk ?s) = None"
    "io_mkdir dying_write = None" "io_marshal dying_write = None"
    by (simp_all add: edit_defs one_record_def dying_write_def)
  have "d_tail (fs_disk s') = Some (JBad 3)"
    using run ch open_io dying_write_torn [OF ch open_io(2)]
    by (auto simp: save_locked_def next_io_def Let_def simp del: not_None_eq
        split: prod.splits option.splits)
  with save_crash_atomic [OF ok run] run show ?thesis by (auto simp: Let_def)
qed

text \<open>C3: An operation that reports an error has changed no record and a restart after it reads
the records held. The one exception is \<open>ClaimNext\<close>: before the save that failed it may have
moved due records that had used up their attempts, a pending one to failed and a completed one to
orphaned, and those moves are on disk too; nothing has been claimed.\<close>

theorem failed_op_changes_nothing:
  assumes "store_inv s" and "cache_ok s" and "op_wf op" and "exec_op now op s = (Some e, s')"
  shows "(\<forall>k. lookup_record s' k = lookup_record s k \<or>
      (\<exists>ctx n r r'. op = OpClaimNext ctx n \<and> lookup_record s k = Some r \<and>
        exhaustion_outcome now n r r' \<and> lookup_record s' k = Some r')) \<and>
    (\<exists>rs. reload (fs_disk s') = Some rs \<and> map_of rs = map_of (fs_records s'))"
  using exec_op_failed_records [OF assms] exec_op_step [OF assms] inv_reload [of s'] by blast

theorem failed_op_changes_nothing_witness:
  "let s = failing_store sample_running;
       s' = snd (exec_op 900 (OpUpdate ''acme/app/7'' UMarkCompleted) s)
   in (\<forall>k. lookup_record s' k = lookup_record s k) \<and>
      (\<exists>rs. reload (fs_disk s') = Some rs \<and> map_of rs = map_of (fs_records s'))"
proof -
  let ?op = "OpUpdate ''acme/app/7'' UMarkCompleted"
  have "(mark_completed_mut sample_running)\<lparr>r_updated_at := 900\<rparr> \<noteq> sample_running"
    by (simp add: mark_completed_mut_def sample_defs)
  from failing_update [where f = mark_completed_mut and r = sample_running, OF this] obtain e where
    "exec_op 900 ?op (failing_store sample_running) =
      (Some e, snd (exec_op 900 ?op (failing_store sample_running)))"
    by (auto simp: prod_eq_iff)
  from failed_op_changes_nothing [OF _ _ _ this] failing_store_inv [OF sample_inv(2)]
  show ?thesis by simp
qed

section \<open>Records over runs\<close>

text \<open>C4: Whatever sequence of operations runs, every record stays under its own key, a record in
provisioning or deletion carries the matching claim and a pending, provisioned or failed one
carries none, an accepted deletion names the present instance, a job known to be completed is not
marked for a demand recheck, and no attempt counter is negative.\<close>

theorem run_keeps_records_consistent:
  assumes "store_inv s" and "cache_ok s" and "\<forall>(now, op) \<in> set ops. op_wf op"
    and "lookup_record (exec_ops ops s) k = Some r"
  shows "r_key r = k \<and>
    (r_status r = StatusProvisioning \<longrightarrow> r_claimed_work r = WorkProvision) \<and>
    (r_status r = StatusDeleting \<longrightarrow> r_claimed_work r = WorkDelete) \<and>
    (r_status r \<in> {StatusPending, StatusProvisioned, StatusFailed} \<longrightarrow> r_claimed_work r = WorkNone) \<and>
    (r_deletion_accepted_id r \<noteq> '''' \<and> r_instance_id r \<noteq> '''' \<longrightarrow>
       r_deletion_accepted_id r = r_instance_id r) \<and>
    \<not> (r_recheck_demand r \<and> r_job_completed r) \<and> r_attempts r \<ge> 0 \<and> r_delete_attempts r \<ge> 0"
  using records_invD [of "exec_ops ops s" k r] run_inv(1) [OF assms(1-3)] assms(4)
  by (auto simp: store_inv_def record_inv_defs)

theorem run_keeps_records_consistent_witness:
  "\<exists>r. lookup_record (exec_ops [(200, OpClaimNext None 3)] (one_record sample_pending))
       ''acme/app/7'' = Some r \<and>
     r_key r = ''acme/app/7'' \<and> r_status r = StatusProvisioning \<and> r_claimed_work r = WorkProvision"
proof -
  let ?s = "one_record sample_pending" and ?ops = "[(200, OpClaimNext None 3)]"
  have inv: "store_inv ?s" "cache_ok ?s" using one_record_inv [OF sample_inv(1)] by simp_all
  obtain s' where run: "claim_next None 200 3 ?s = (Inr (Some (claimed_sample 200, WorkProvision)), s')"
    and m: "map_of (fs_records s') = [''acme/app/7'' \<mapsto> claimed_sample 200]"
    by (rule sample_claim_at [of 200 3]) simp_all
  have wf: "\<forall>(now, op) \<in> set ?ops. op_wf op" by simp
  have look: "lookup_record (exec_ops ?ops ?s) ''acme/app/7'' = Some (claimed_sample 200)"
    using run m by simp
  have "r_status (claimed_sample 200) = StatusProvisioning" by (simp add: claimed_sample_def)
  with run_keeps_records_consistent [OF inv wf look] look show ?thesis by auto
qed

text \<open>C5: No sequence of guarded operations takes the number of live runners over the configured
ceiling: only \<open>ClaimNext\<close> admits a runner, and it does so only below the ceiling.\<close>

theorem run_respects_ceiling:
  assumes "store_inv s" and "cache_ok s" and "int (live_runner_count s) \<le> fs_max_live_runners s"
    and "guarded_run ops s"
  shows "int (live_runner_count (exec_ops ops s)) \<le> fs_max_live_runners (exec_ops ops s)"
  using ad.run_keeps [of s ops] assms guarded_run_allowed [of ops s]
  by (simp add: within_ceiling_def)

lemma admission_guarded:
  "guarded_run [(a, OpCreate sample_request), (b, OpClaimNext None 3),
     (c, OpUpdate k u), (d, OpPruneDeleted), (e, OpClaimNext None 3)] s"
  using sample_fresh by (simp add: op_guarded_def)

theorem run_respects_ceiling_witness:
  "let s' = exec_ops [(100, OpCreate sample_request), (200, OpClaimNext None 3),
      (300, OpUpdate ''acme/app/7'' (UMarkProvisionFailed ''boot'' 900 3)), (400, OpPruneDeleted),
      (600, OpClaimNext None 3)] fresh_store
   in int (live_runner_count s') \<le> fs_max_live_runners s'"
  unfolding Let_def
  by (rule run_respects_ceiling [OF fresh_store_inv(1,2) _ admission_guarded])
    (use fresh_store_inv(3) in \<open>simp add: within_ceiling_def\<close>)

text \<open>C6: A deleted record stays deleted: only \<open>PruneDeleted\<close> removes it, and only when it has
been unchanged for the retention period. The one record that comes back is a spent completion
marker, which a further completion event of the same runner writes anew as a marker without an
instance; no record of a job is ever revived.\<close>

theorem deleted_is_final:
  assumes "store_inv s" and "cache_ok s" and "op_wf op"
    and "lookup_record s k = Some r" and "r_status r = StatusDeleted"
    and "exec_op now op s = (err, s')"
  shows "(\<exists>r'. lookup_record s' k = Some r' \<and> r_status r' = StatusDeleted) \<or>
    op = OpPruneDeleted \<and> lookup_record s' k = None \<and>
      r_updated_at r < now - fs_deleted_retention s \<or>
    (\<exists>c. op = OpRecordCompletion c \<and> is_marker_key k \<and> k = record_marker_key c \<and>
      lookup_record s' k = Some (marker_of c now) \<and> \<not> is_live (marker_of c now))"
proof (cases "lookup_record s' k")
  case None
  show ?thesis
  proof (cases "op = OpPruneDeleted")
    case True
    with assms(6) obtain res where pd: "prune_deleted now s = (res, s')"
      by (auto dest: failure_run)
    note step = prune_deleted_step [OF assms(1) pd]
    show ?thesis
      using True None assms(4) step(4,5)
      by (cases res) (auto simp: prunable_def Let_def split: if_splits)
  next
    case False
    with None assms(4) exec_op_dom [OF assms(1,2,3,6)] show ?thesis by auto
  qed
next
  case (Some r')
  have evolves: "store_evolves_but (op_replaces_marker op now s') s s'"
    using exec_op_step [OF assms(1,2,3,6)] by simp
  show ?thesis
  proof (cases "op_replaces_marker op now s' k")
    case True
    then obtain c where "op = OpRecordCompletion c" "marker_replaced c now s' k"
      by (auto simp: op_replaces_marker_def split: store_op.splits)
    with assms(3) fresh_completion_inv [of c now] show ?thesis
      by (auto simp: marker_replaced_def)
  next
    case False
    with evolves Some assms(4,5) show ?thesis
      by (auto simp: store_evolves_but_def evolve_defs dest!: spec [of _ k])
  qed
qed

theorem deleted_is_final_witness:
  "let s = one_record sample_deleted; s' = snd (exec_op 7 (OpUpdate ''acme/app/7'' UMarkCompleted) s)
   in \<exists>r'. lookup_record s' ''acme/app/7'' = Some r' \<and> r_status r' = StatusDeleted"
proof -
  let ?s = "one_record sample_deleted" and ?op = "OpUpdate ''acme/app/7'' UMarkCompleted"
  obtain err s' where run: "exec_op 7 ?op ?s = (err, s')" by fastforce
  have "lookup_record ?s ''acme/app/7'' = Some sample_deleted" by simp
  from deleted_is_final [OF _ _ _ this _ run] one_record_inv [OF sample_inv(4)] run
  show ?thesis by (simp add: Let_def)
qed

text \<open>C7: Once a record knows that its job has completed, no operation makes it forget.\<close>

theorem job_completion_is_final:
  assumes "store_inv s" and "cache_ok s" and "op_wf op" and "\<not> is_marker_key k"
    and "lookup_record s k = Some r" and "r_job_completed r"
    and "exec_op now op s = (err, s')" and "lookup_record s' k = Some r'"
  shows "r_job_completed r'"
proof -
  have "store_evolves_but (op_replaces_marker op now s') s s'"
    using exec_op_step [OF assms(1,2,3,7)] by simp
  with assms(4,5,6,8) op_replaces_marker_key [of op now s' k] show ?thesis
    by (auto simp: store_evolves_but_def evolve_defs dest!: spec [of _ k])
qed

definition sample_finished :: runner_record where
  "sample_finished = sample_deleted\<lparr>r_job_completed := True\<rparr>"

lemma sample_finished_inv: "record_inv sample_finished" "r_key sample_finished = ''acme/app/7''"
  by (simp_all add: sample_finished_def sample_defs record_inv_defs)

theorem job_completion_is_final_witness:
  "\<exists>s' r'. exec_op 7 (OpUpdate ''acme/app/7'' UMarkDeleted) (one_record sample_finished) = (None, s') \<and>
     lookup_record s' ''acme/app/7'' = Some r' \<and> r_job_completed r'"
proof -
  let ?s = "one_record sample_finished" and ?op = "OpUpdate ''acme/app/7'' UMarkDeleted"
  let ?r = "(mark_deleted_mut sample_finished)\<lparr>r_updated_at := 7\<rparr>"
  have "?r \<noteq> sample_finished"
    by (simp add: sample_finished_def sample_defs mark_deleted_mut_def)
  then obtain s' where up: "update_record (r_key sample_finished) mark_deleted_mut 7 ?s = (None, s')"
    and m: "map_of (fs_records s') = [r_key sample_finished \<mapsto> ?r]"
    by (rule one_record_update [where f = mark_deleted_mut, OF sample_finished_inv(1)])
  have run: "exec_op 7 ?op ?s = (None, s')" using up by (simp add: sample_finished_inv)
  have look': "lookup_record s' ''acme/app/7'' = Some ?r" using m by (simp add: sample_finished_inv)
  have look: "lookup_record ?s ''acme/app/7'' = Some sample_finished"
    by (simp add: sample_finished_inv)
  have "r_job_completed sample_finished" by (simp add: sample_finished_def)
  from job_completion_is_final [OF _ _ _ _ look this run look'] run look'
    one_record_inv [OF sample_finished_inv(1)]
  show ?thesis by auto
qed

section \<open>Claims\<close>

text \<open>C8: The scan of \<open>ClaimNext\<close> computes a search: it hands out the first record in key order
that is due, unclaimed, within its retry budget and, to be provisioned, within the ceiling.\<close>

theorem claim_next_is_search:
  assumes "store_inv s" and "cache_ok s" and "claim_next ctx_err now n s = (Inr v, s')"
  shows "v = first_claim (sorted_list_of_set (dom (map_of (fs_records s))))
    (int (live_runner_count s)) (fs_max_live_runners s) now n (map_of (fs_records s))"
  by (rule claim_next_spec(5) [OF assms refl])

theorem claim_next_is_search_witness:
  "\<exists>r. first_claim (sorted_list_of_set (dom (map_of (fs_records (one_record sample_pending)))))
    (int (live_runner_count (one_record sample_pending)))
    (fs_max_live_runners (one_record sample_pending)) 200 3
    (map_of (fs_records (one_record sample_pending))) = Some (r, WorkProvision)"
proof -
  obtain s' r where "claim_next None 200 3 (one_record sample_pending) =
      (Inr (Some (r, WorkProvision)), s')" using sample_claim by blast
  from claim_next_is_search [OF _ _ this] one_record_inv [OF sample_inv(1)]
  show ?thesis by metis
qed

text \<open>What is known of a record just claimed.\<close>

lemma claimed_record:
  assumes "store_inv s" and "cache_ok s"
    and "claim_next ctx_err now n s = (Inr (Some (r, kind)), s')"
  obtains key r0 where "lookup_record s key = Some r0" and "r_claimed_work r0 = WorkNone"
    and "r_next_attempt_at r0 \<le> now" and "lookup_record s' key = Some r" and "r_claimed_work r = kind"
    and "kind = WorkProvision \<and> r_status r = StatusProvisioning \<and>
       r_attempts r = r_attempts r0 + 1 \<and> r_attempts r \<le> n \<or>
     kind = WorkDelete \<and> r_status r = StatusDeleting \<and> r_instance_id r \<noteq> '''' \<and>
       r_delete_attempts r = r_delete_attempts r0 + 1 \<and> r_delete_attempts r \<le> n"
proof -
  from claim_next_spec(6) [OF assms(1,2,3) refl] obtain key r0 c where
    c: "lookup_record s key = Some r0" "\<not> r_next_attempt_at r0 > now"
      "claim_record (int (live_runner_count s)) (fs_max_live_runners s) n r0 = Some c"
      "r = stamp_claim now c" "kind = snd c" "lookup_record s' key = Some r" by blast
  obtain r1 where c': "c = (r1, kind)" using c(5) by (cases c) simp
  from c(3) [unfolded c'] have "r_claimed_work r0 = WorkNone \<and> r_claimed_work r = kind \<and>
    (kind = WorkProvision \<and> r_status r = StatusProvisioning \<and>
       r_attempts r = r_attempts r0 + 1 \<and> r_attempts r \<le> n \<or>
     kind = WorkDelete \<and> r_status r = StatusDeleting \<and> r_instance_id r \<noteq> '''' \<and>
       r_delete_attempts r = r_delete_attempts r0 + 1 \<and> r_delete_attempts r \<le> n)"
    by (cases rule: claim_record_Some) (simp_all add: c(4) c' stamp_claim_def)
  with c show ?thesis by (intro that [of key r0]) simp_all
qed

text \<open>C9: A record handed out by \<open>ClaimNext\<close> was unclaimed, due and within its budget, carries the
claim it was handed out with, has its attempt counted, and the claim is on disk before the caller
gets it.\<close>

theorem claim_next_is_exclusive:
  assumes "store_inv s" and "cache_ok s"
    and "claim_next ctx_err now n s = (Inr (Some (r, kind)), s')"
  shows "\<exists>key r0 rs. lookup_record s key = Some r0 \<and> r_claimed_work r0 = WorkNone \<and>
    r_next_attempt_at r0 \<le> now \<and> lookup_record s' key = Some r \<and> r_claimed_work r = kind \<and>
    (kind = WorkProvision \<and> r_status r = StatusProvisioning \<and>
       r_attempts r = r_attempts r0 + 1 \<and> r_attempts r \<le> n \<or>
     kind = WorkDelete \<and> r_status r = StatusDeleting \<and> r_instance_id r \<noteq> '''' \<and>
       r_delete_attempts r = r_delete_attempts r0 + 1 \<and> r_delete_attempts r \<le> n) \<and>
    reload (fs_disk s') = Some rs \<and> map_of rs key = Some r"
proof -
  obtain rs where "reload (fs_disk s') = Some rs" "map_of rs = map_of (fs_records s')"
    using inv_reload [OF claim_next_spec(1) [OF assms]] by blast
  with claimed_record [OF assms] show ?thesis by metis
qed

theorem claim_next_is_exclusive_witness:
  "\<exists>r s' key. claim_next None 200 3 (one_record sample_pending) = (Inr (Some (r, WorkProvision)), s') \<and>
    lookup_record s' key = Some r \<and> r_status r = StatusProvisioning"
proof -
  obtain s' r where run: "claim_next None 200 3 (one_record sample_pending) =
      (Inr (Some (r, WorkProvision)), s')" using sample_claim by blast
  from claim_next_is_exclusive [OF _ _ run] one_record_inv [OF sample_inv(1)] run
  show ?thesis by auto
qed

section \<open>Completion events\<close>

text \<open>C10: A completion event that names a runner changes the status of no record but the one
that owns that registration: the record of the event's own job, if it is another one, at most
learns that its job is done.\<close>

theorem completion_is_bound_to_runner:
  assumes "store_inv s" and "fresh_request c" and "r_github_runner_id c \<noteq> 0"
    and "record_completion c now s = (None, s')"
    and "\<not> is_marker_key k" and "lookup_record s k = Some r"
    and "\<forall>r'. runner_target c s \<noteq> Some (k, r')"
  shows "lookup_record s' k = Some r \<or>
    (k = r_key c \<and> lookup_record s' k =
      Some (r\<lparr>r_job_completed := True, r_recheck_demand := False, r_updated_at := now\<rparr>))"
proof -
  have ok: "clean_ok s" using assms(1) by (simp add: store_inv_def)
  have key: "\<not> is_marker_key (r_key c)" using assms(2) by (simp add: fresh_request_def)
  from assms(4) ok key show ?thesis
  proof (cases rule: record_completion_cases)
    case recorded
    note look = record_completion_lookup [OF key recorded(3)]
    show ?thesis
    proof (cases "map_of (completion_edits c now s) k")
      case None
      with assms(6) show ?thesis by (simp add: look)
    next
      case (Some v)
      from map_of_SomeD [OF Some] show ?thesis
        by (cases rule: completion_edits_cases)
          (use assms Some marker_key_is_marker in
            \<open>auto simp: look complete_event_def Let_def\<close>)
    qed
  qed simp
qed

lemma completion_stays:
  assumes "store_inv s" and "fresh_request c" and "record_completion c now s = (None, s')"
    and "runner_target c s = None" and "lookup_record s k = Some r" and "k \<noteq> r_key c"
    and "\<not> is_marker_key k"
  shows "lookup_record s' k = Some r"
proof -
  have ok: "clean_ok s" using assms(1) by (simp add: store_inv_def)
  have key: "\<not> is_marker_key (r_key c)" using assms(2) by (simp add: fresh_request_def)
  have mk: "k \<noteq> record_marker_key c" using assms(7) marker_key_is_marker by metis
  from assms(3) ok key show ?thesis
  proof (cases rule: record_completion_cases)
    case recorded
    have "map_of (completion_edits c now s) k = None"
      using assms(4,6) mk
      by (auto simp: completion_edits_def runner_edit_def event_edit_def split: option.split)
    with assms(5) show ?thesis by (simp add: record_completion_lookup [OF key recorded(3)])
  qed simp
qed

lemma healthy_completion:
  assumes "healthy s" and "\<not> is_marker_key (r_key c)"
  shows "\<exists>s'. record_completion c now s = (None, s') \<and> healthy s'"
proof -
  obtain mk stale b1 s1 where
    r1: "reconcile_runner_completion c now [] s = ((mk, stale), b1, s1)"
    using prod_cases4 by (metis surj_pair)
  note e1 = reconcile_runner_completion_edits [OF r1]
  obtain b2 s2 where r2: "reconcile_event_completion c mk now b1 s1 = (b2, s2)" by fastforce
  note e2 = reconcile_event_completion_edits [OF assms(2) e1(2) r2 [unfolded e1(1,3)]]
  have "healthy s2" using assms(1) by (simp add: e2(2))
  then obtain s3 where "save_locked s2 = (None, s3)" "healthy s3" by (rule healthy_saves)
  with r1 r2 show ?thesis by (simp add: record_completion_def Let_def)
qed

text \<open>Runner 42 of job 7 and the still pending job 8.\<close>

definition sample_other :: runner_record where
  "sample_other = sample_pending\<lparr>r_key := ''acme/app/8'', r_job_id := 8\<rparr>"

definition two_jobs :: file_store where
  "two_jobs = (store_with [(''acme/app/7'', sample_running), (''acme/app/8'', sample_other)])
     \<lparr>fs_runner_keys := [(''acme/app#42'', ''acme/app/7'')]\<rparr>"

lemma two_jobs_inv: "store_inv two_jobs" "cache_ok two_jobs" "healthy two_jobs"
proof -
  let ?rs = "[(''acme/app/7'', sample_running), (''acme/app/8'', sample_other)]"
  have "\<forall>(k, r) \<in> set ?rs. record_inv r \<and> r_key r = k"
    by (simp add: sample_other_def sample_defs record_inv_defs)
  from store_with_inv [OF _ this] show "store_inv two_jobs" "cache_ok two_jobs" "healthy two_jobs"
    by (simp_all add: two_jobs_def cache_ok_def)
qed

lemma two_jobs_fields [simp]:
  "lookup_record two_jobs ''acme/app/7'' = Some sample_running"
  "lookup_record two_jobs ''acme/app/8'' = Some sample_other"
  "fs_runner_keys two_jobs = [(''acme/app#42'', ''acme/app/7'')]"
  by (simp_all add: two_jobs_def)

lemma sample_identity: "record_identity sample_completion = ''acme/app#42''"
proof -
  have "itoa 42 = ''42''" by code_simp
  then show ?thesis
    by (simp add: record_identity_def runner_identity_key_def sample_defs to_lower_def to_lower_char_def)
qed

lemma two_jobs_target: "runner_target sample_completion two_jobs = Some (''acme/app/7'', sample_running)"
  using sample_identity
  by (simp add: runner_target_def) (simp add: completion_matches_def sample_defs equal_fold_def)

theorem completion_is_bound_to_runner_witness:
  "\<exists>s'. record_completion sample_completion 50 two_jobs = (None, s') \<and>
     (lookup_record s' ''acme/app/8'' = Some sample_other \<or>
      lookup_record s' ''acme/app/8'' = Some (sample_other
        \<lparr>r_job_completed := True, r_recheck_demand := False, r_updated_at := 50\<rparr>))"
proof -
  have "\<not> is_marker_key (r_key sample_completion)" by simp
  from healthy_completion [OF two_jobs_inv(3) this] obtain s' where
    run: "record_completion sample_completion 50 two_jobs = (None, s')" by blast
  have id: "r_github_runner_id sample_completion \<noteq> 0" by (simp add: sample_defs)
  have "\<forall>r'. runner_target sample_completion two_jobs \<noteq> Some (''acme/app/8'', r')"
    by (simp add: two_jobs_target)
  from completion_is_bound_to_runner [OF two_jobs_inv(1) sample_fresh(2) id run _ two_jobs_fields(2) this]
    run show ?thesis by auto
qed

text \<open>C11: A completion that arrives before the runner's registration is recorded is not lost:
\<open>RecordCompletion\<close> leaves a marker, and the later \<open>MarkJITCreated\<close> of the same runner (owner and
repository compared without case) finds it, completes the record, knows whether it was its own job
that ran or must be requeued, and spends the marker.\<close>

theorem early_completion_is_not_lost:
  assumes "store_inv s" and "fresh_request c" and "r_github_runner_id c \<noteq> 0"
    and "runner_target c s = None" and "record_completion c t1 s = (None, s1)"
    and "lookup_record s1 k = Some r" and "\<not> is_marker_key k" and "\<not> retired r"
    and "to_lower (r_owner r @ ''/'' @ r_repository r) = to_lower (r_owner c @ ''/'' @ r_repository c)"
    and "mark_jit_created k (r_github_runner_id c) nm t2 s1 = (None, s2)"
  shows "\<exists>r' m. lookup_record s2 k = Some r' \<and> r_status r' = StatusCompleted \<and>
    \<not> r_defer_deletion r' \<and> r_github_runner_id r' = r_github_runner_id c \<and>
    r_job_completed r' = (r_job_completed r \<or> r_job_id r = r_job_id c) \<and>
    r_recheck_demand r' = (r_job_id r \<noteq> r_job_id c \<and> \<not> r_job_completed r) \<and>
    lookup_record s2 (record_marker_key c) = Some m \<and> r_status m = StatusDeleted"
proof -
  have ok: "clean_ok s" using assms(1) by (simp add: store_inv_def)
  have key: "\<not> is_marker_key (r_key c)" using assms(2) by (simp add: fresh_request_def)
  let ?mk = "record_marker_key c"
  have mk: "completion_marker_key (r_owner r) (r_repository r) (r_github_runner_id c) = ?mk"
    using assms(9) by (simp add: record_marker_key_def completion_marker_key_def runner_identity_key_def)
  have ok1: "clean_ok s1" and m1: "lookup_record s1 ?mk = Some (marker_of c t1)"
    using assms(5) ok key
  proof (atomize (full), cases rule: record_completion_cases)
    case recorded
    have "map_of (completion_edits c t1 s) ?mk = Some (Some (marker_of c t1))"
      using assms(3,4) by (simp add: completion_edits_def runner_edit_def)
    with recorded record_completion_lookup [OF key recorded(3)]
    show "clean_ok s1 \<and> lookup_record s1 ?mk = Some (marker_of c t1)" by simp
  qed simp
  have live: "live_marker s1 ?mk = Some (marker_of c t1)"
    using m1 by (simp add: live_marker_def marker_of_def)
  have ne: "k \<noteq> ?mk" using assms(7) marker_key_is_marker by metis
  from assms(10) ok1 show ?thesis
  proof (cases rule: mark_jit_created_cases)
    case (registered r0 m)
    then have r0: "r0 = r" using assms(6) by simp
    have m: "m = Some (marker_of c t1)" using registered(4) live by (simp add: r0 mk)
    show ?thesis
      using registered(6) ne unfolding r0 m mk
      by (auto simp: jit_edits_def jit_result_def register_jit_def apply_marker_def marker_of_def
          spend_marker_def Let_def)
  qed (use assms(6,8) in auto)
qed

lemma healthy_jit:
  assumes "healthy s" and "lookup_record s k = Some r"
  shows "\<exists>s'. mark_jit_created k i nm now s = (None, s')"
proof (cases "retired r")
  case True
  with assms show ?thesis by (simp add: mark_jit_created_def)
next
  case False
  let ?r = "register_jit i nm now r"
  let ?mk = "completion_marker_key (r_owner ?r) (r_repository ?r) i"
  show ?thesis
  proof (cases "live_marker s ?mk")
    case None
    have "healthy (mark_dirty k (put_record k ?r s))" using assms(1) by simp
    then obtain u where "save_locked (mark_dirty k (put_record k ?r s)) = (None, u)"
      by (rule healthy_saves)
    with assms(2) False None show ?thesis by (simp add: mark_jit_created_def Let_def)
  next
    case (Some m)
    let ?t = "mark_dirty k (put_record k (apply_marker m ?r)
      (mark_dirty ?mk (put_record ?mk (spend_marker now m) s)))"
    have "healthy ?t" using assms(1) by simp
    then obtain u where "save_locked ?t = (None, u)" by (rule healthy_saves)
    with assms(2) False Some show ?thesis by (simp add: mark_jit_created_def Let_def)
  qed
qed

theorem early_completion_is_not_lost_witness:
  "\<exists>s1 s2 r'. record_completion sample_completion 50 (one_record sample_pending) = (None, s1) \<and>
     mark_jit_created ''acme/app/7'' 42 ''runner-7'' 60 s1 = (None, s2) \<and>
     lookup_record s2 ''acme/app/7'' = Some r' \<and> r_status r' = StatusCompleted \<and> r_recheck_demand r'"
proof -
  let ?s = "one_record sample_pending"
  have inv: "store_inv ?s" using one_record_inv [OF sample_inv(1)] by simp
  have key: "\<not> is_marker_key (r_key sample_completion)" by simp
  have "healthy ?s" by (simp add: one_record_def)
  from healthy_completion [OF this key] obtain s1 where
    c: "record_completion sample_completion 50 ?s = (None, s1)" and h: "healthy s1" by blast
  have target: "runner_target sample_completion ?s = None" by (simp add: runner_target_def)
  have id: "r_github_runner_id sample_completion \<noteq> 0" "r_github_runner_id sample_completion = 42"
    by (simp_all add: sample_defs)
  have look: "lookup_record ?s ''acme/app/7'' = Some sample_pending" by simp
  have "lookup_record s1 ''acme/app/7'' = Some sample_pending"
    using completion_stays [OF inv sample_fresh(2) c target look] by simp
  then have r: "lookup_record s1 ''acme/app/7'' = Some sample_pending" .
  from healthy_jit [OF h r] obtain s2 where
    j: "mark_jit_created ''acme/app/7'' 42 ''runner-7'' 60 s1 = (None, s2)" by blast
  have own: "to_lower (r_owner sample_pending @ ''/'' @ r_repository sample_pending) =
      to_lower (r_owner sample_completion @ ''/'' @ r_repository sample_completion)"
    by (simp add: sample_defs)
  from early_completion_is_not_lost [OF inv sample_fresh(2) id(1) target c r _ _ own, of "''runner-7''" 60 s2] j
  obtain r' where "lookup_record s2 ''acme/app/7'' = Some r'" "r_status r' = StatusCompleted"
    "r_recheck_demand r' = (r_job_id sample_pending \<noteq> r_job_id sample_completion \<and>
       \<not> r_job_completed sample_pending)" by (auto simp: id(2))
  moreover have "r_job_id sample_pending \<noteq> r_job_id sample_completion \<and> \<not> r_job_completed sample_pending"
    by (simp add: sample_defs)
  ultimately show ?thesis using c j by blast
qed

section \<open>Deletion\<close>

text \<open>C12: Finishing a deletion makes the record deleted, except that a record whose runner
executed another job goes back to pending - with no instance, no registration, no claim and fresh
budgets - exactly when its job is still queued, a recheck was asked for and the job is not known to
be completed.\<close>

theorem finish_deleted_runner_restores_demand:
  assumes "store_inv s" and "lookup_record s k = Some r" and "\<not> retired r"
    and "finish_deleted_runner k queued now s = (Inr restored, s')"
  shows "restored = (queued \<and> r_recheck_demand r \<and> \<not> r_job_completed r) \<and>
    (\<exists>r'. lookup_record s' k = Some r' \<and> r_claimed_work r' = WorkNone \<and> \<not> r_recheck_demand r' \<and>
      (if restored
       then r_status r' = StatusPending \<and> r_instance_id r' = '''' \<and> r_github_runner_id r' = 0 \<and>
         \<not> r_github_runner_owned r' \<and> r_attempts r' = 0 \<and> r_delete_attempts r' = 0 \<and>
         r_provision_epoch r' = r_provision_epoch r + 1
       else r_status r' = StatusDeleted \<and> r_instance_id r' = r_instance_id r))"
proof -
  let ?f = "\<lambda>r. fst (finish_deleted_runner_mut queued r)"
  obtain s1 where up: "update_record k ?f now s = (None, s1)" and s': "s' = s1"
    and res: "restored = snd (finish_deleted_runner_mut queued r)"
    using assms(2,4) by (auto simp: finish_deleted_runner_def Let_def split: prod.splits option.splits)
  have rep: "replace_record k r ((?f r)\<lparr>r_updated_at := now\<rparr>) s = (None, s1)"
    using up assms(2) by (simp add: update_record_def)
  have "clean_ok s" using assms(1) by (simp add: store_inv_def)
  from replace_record_spec(3) [OF this assms(2) rep]
  have "lookup_record s' k = Some ((?f r)\<lparr>r_updated_at := now\<rparr>)" by (simp add: s')
  with assms(3) show ?thesis
    by (simp add: res finish_deleted_runner_mut_def Let_def)
qed

definition sample_reassigned :: runner_record where
  "sample_reassigned = sample_deleting\<lparr>r_recheck_demand := True\<rparr>"

lemma sample_reassigned_inv: "record_inv sample_reassigned" "r_key sample_reassigned = ''acme/app/7''"
  by (simp_all add: sample_reassigned_def sample_defs record_inv_defs)

theorem finish_deleted_runner_restores_demand_witness:
  "\<exists>s' r'. finish_deleted_runner ''acme/app/7'' True 70 (one_record sample_reassigned) = (Inr True, s') \<and>
     lookup_record s' ''acme/app/7'' = Some r' \<and> r_status r' = StatusPending \<and> r_instance_id r' = ''''"
proof -
  let ?s = "one_record sample_reassigned"
  let ?f = "\<lambda>r. fst (finish_deleted_runner_mut True r)"
  have look: "lookup_record ?s ''acme/app/7'' = Some sample_reassigned"
    by (simp add: sample_reassigned_inv)
  have ret: "\<not> retired sample_reassigned" by (simp add: sample_reassigned_def)
  have "r_status ((?f sample_reassigned)\<lparr>r_updated_at := 70\<rparr>) \<noteq> r_status sample_reassigned"
    by (simp add: finish_deleted_runner_mut_def Let_def sample_reassigned_def sample_defs)
  then have "(?f sample_reassigned)\<lparr>r_updated_at := 70\<rparr> \<noteq> sample_reassigned" by metis
  then obtain s' where "update_record (r_key sample_reassigned) ?f 70 ?s = (None, s')"
    by (rule one_record_update [where f = ?f, OF sample_reassigned_inv(1)])
  moreover have "snd (finish_deleted_runner_mut True sample_reassigned)"
    by (simp add: finish_deleted_runner_mut_def Let_def sample_reassigned_def sample_defs)
  ultimately have run: "finish_deleted_runner ''acme/app/7'' True 70 ?s = (Inr True, s')"
    using look by (simp add: finish_deleted_runner_def sample_reassigned_inv)
  have "store_inv ?s" using one_record_inv [OF sample_reassigned_inv(1)] by simp
  from finish_deleted_runner_restores_demand [OF this look ret run] run show ?thesis by auto
qed

text \<open>C13: An accepted deletion is recorded only for the exact instance the record holds, while the
record is being deleted under a delete claim; otherwise the call is refused and changes nothing.\<close>

theorem deletion_acceptance_is_exact:
  assumes "store_inv s" and "mark_deletion_accepted k i now s = (err, s')"
  shows "(err = None \<longrightarrow> (\<exists>r. lookup_record s k = Some r \<and> i \<noteq> '''' \<and> r_instance_id r = i \<and>
      r_status r = StatusDeleting \<and> r_claimed_work r = WorkDelete \<and>
      lookup_record s' k = Some (r\<lparr>r_deletion_accepted_id := i, r_updated_at := now\<rparr>))) \<and>
    (err \<noteq> None \<longrightarrow> map_of (fs_records s') = map_of (fs_records s))"
  using assms(2)
proof (cases rule: mark_deletion_accepted_cases)
  case refused
  then show ?thesis by auto
next
  case (accepted r)
  have "clean_ok s" using assms(1) by (simp add: store_inv_def)
  from replace_record_spec(3) [OF this accepted(1,6)] accepted show ?thesis
    by (cases err) auto
qed

theorem deletion_acceptance_is_exact_witness:
  "\<exists>s' r. mark_deletion_accepted ''acme/app/7'' ''i-1'' 80 (one_record sample_deleting) = (None, s') \<and>
     lookup_record s' ''acme/app/7'' = Some r \<and> r_deletion_accepted_id r = ''i-1''"
proof -
  let ?s = "one_record sample_deleting"
  let ?r = "sample_deleting\<lparr>r_deletion_accepted_id := ''i-1'', r_updated_at := 80\<rparr>"
  have "r_deletion_accepted_id sample_deleting \<noteq> r_deletion_accepted_id ?r"
    by (simp add: sample_defs)
  then have "sample_deleting \<noteq> ?r" by metis
  then obtain s' where "replace_record (r_key sample_deleting) sample_deleting ?r ?s = (None, s')"
    by (rule one_record_replace [OF sample_inv(3)])
  moreover have "r_instance_id sample_deleting = ''i-1''" "r_claimed_work sample_deleting = WorkDelete"
    by (simp_all add: sample_defs)
  ultimately have run: "mark_deletion_accepted ''acme/app/7'' ''i-1'' 80 ?s = (None, s')"
    by (simp add: mark_deletion_accepted_def)
  have "store_inv ?s" using one_record_inv [OF sample_inv(3)] by simp
  from deletion_acceptance_is_exact [OF this run] run show ?thesis by auto
qed

section \<open>Restart\<close>

text \<open>C14: Opening the files a store left yields a store with the same invariant in which every
record of before is there with the same job, registration and instance - only deleted records past
the retention period are dropped -, no work is claimed, interrupted provisioning is pending again
and interrupted deletion is completed again; the retention is at least 24 hours.\<close>

theorem restart_recovers_records:
  assumes "store_inv s" and "list_all (\<lambda>io. io_truncate io = None) ios"
    and "open_file_store path (map with_deleted_retention ds) io ios now (fs_disk s) = (Inr s', d)"
  shows "store_inv s' \<and> fs_deleted_retention s' \<ge> 24 * hour \<and>
    (\<forall>k. case lookup_record s k of
       None \<Rightarrow> lookup_record s' k = None
     | Some r \<Rightarrow>
         (case lookup_record s' k of
            None \<Rightarrow> r_status r = StatusDeleted \<and> r_updated_at r < now - fs_deleted_retention s'
          | Some r' \<Rightarrow> recovery_keeps r r' \<and> settled_record r' \<and>
              r_status r' = recovered_status (r_status r)))"
proof -
  note step = reopen_step [OF assms]
  have "case lookup_record s k of None \<Rightarrow> lookup_record s' k = None
     | Some r \<Rightarrow> (case lookup_record s' k of
            None \<Rightarrow> r_status r = StatusDeleted \<and> r_updated_at r < now - fs_deleted_retention s'
          | Some r' \<Rightarrow> recovery_keeps r r' \<and> settled_record r' \<and>
              r_status r' = recovered_status (r_status r))" for k
    unfolding step(4)
    by (auto split: option.split dest: recovered_Some recovered_None)
  with step(1,3) show ?thesis by blast
qed

lemma finalize_open_healthy: "fst (finalize_open load_ok m s) = None"
  by (simp add: finalize_open_def compact_locked_def write_snapshot_def Let_def)

lemma healthy_open_retaining:
  assumes "os = [] \<and> retention = default_deleted_retention \<or>
    os = [with_deleted_retention retention] \<and> 24 * hour \<le> retention" and "path \<noteq> ''''"
  shows "\<exists>s' d. open_file_store path os load_ok [] now (fs_disk (one_record r)) = (Inr s', d)"
proof -
  define s0 where "s0 = \<lparr>fs_locked = True, fs_closed = False, fs_records = [(r_key r, r)],
    fs_persisted = [(r_key r, r)], fs_dirty_keys = [], fs_runner_keys = [],
    fs_deleted_retention = retention, fs_ordered_keys = [], fs_keys_dirty = True,
    fs_journal_entries = 0, fs_journal_bytes = 0, fs_max_live_runners = 20,
    fs_disk = fs_disk (one_record r), fs_io = []\<rparr>"
  obtain t changed where rec: "recover_records (fs_records s0) now s0 False = (t, changed)" by fastforce
  have "healthy t"
  proof -
    obtain b where "t = (fold (\<lambda>(k, v). edit_record k v)
        (recovery_edits (fs_records s0) now (fs_deleted_retention s0)) s0)\<lparr>fs_keys_dirty := b\<rparr>"
      using recover_records_eq [of s0 "fs_records s0" now False] rec by auto
    moreover have "healthy s0" by (simp add: healthy_def s0_def)
    ultimately show ?thesis by simp
  qed
  then obtain u0 where u0: "save_locked t = (None, u0)" by (rule healthy_saves)
  define u where "u = (if changed then u0 else t)"
  have save: "(if changed then save_locked t else (None, t)) = (None, u)"
    by (simp add: u_def u0)
  obtain v where fin: "finalize_open load_ok False
      (u\<lparr>fs_runner_keys := rebuild_runner_index (fs_records u) []\<rparr>) = (None, v)"
    using finalize_open_healthy by (metis prod.collapse)
  define rs0 where "rs0 = [(r_key r, r)]"
  define n0 where "n0 = s0\<lparr>fs_records := [], fs_persisted := []\<rparr>"
  have "load_journal load_ok (fs_disk (one_record r)) rs0 = (Inr (rs0, 0, 0), fs_disk (one_record r))"
    by (simp add: load_journal_def one_record_def journal_size_def)
  moreover have "load_snapshot load_ok (fs_disk (one_record r)) = Inr (False, rs0)"
    by (simp add: load_snapshot_def one_record_def rs0_def)
  moreover have "new_file_store path load_ok [] (fs_disk (one_record r)) =
      Inr (n0\<lparr>fs_deleted_retention := default_deleted_retention\<rparr>)"
    by (simp add: new_file_store_def s0_def n0_def)
  moreover have "apply_options os (n0\<lparr>fs_deleted_retention := default_deleted_retention\<rparr>) = Inr n0"
    using assms(1) by (auto simp: n0_def s0_def with_deleted_retention_def)
  moreover have "n0\<lparr>fs_disk := fs_disk (one_record r), fs_records := rs0, fs_journal_entries := 0,
      fs_journal_bytes := 0, fs_persisted := rs0\<rparr> = s0" by (simp add: n0_def s0_def rs0_def)
  moreover have "fs_records s0 = rs0" by (simp add: s0_def rs0_def)
  ultimately show ?thesis
    using rec save fin assms(2) unfolding open_file_store_def
    by (simp del: one_record_fields add: Let_def)
qed

lemma healthy_open:
  "\<exists>s' d. open_file_store ''state.json'' [] load_ok [] now (fs_disk (one_record r)) = (Inr s', d)"
  by (rule healthy_open_retaining) simp_all

theorem restart_recovers_records_witness:
  "\<exists>s' d r'. open_file_store ''state.json'' [] load_ok [] 90 (fs_disk (one_record sample_deleting)) =
      (Inr s', d) \<and>
     lookup_record s' ''acme/app/7'' = Some r' \<and> r_status r' = StatusCompleted \<and>
     r_claimed_work r' = WorkNone \<and> r_instance_id r' = ''i-1''"
proof -
  let ?s = "one_record sample_deleting"
  obtain s' d where run: "open_file_store ''state.json'' [] load_ok [] 90 (fs_disk ?s) = (Inr s', d)"
    using healthy_open by blast
  have "store_inv ?s" using one_record_inv [OF sample_inv(3)] by simp
  from restart_recovers_records [OF this _ , of "[]" "''state.json''" "[]" load_ok 90 s' d] run
  have "case lookup_record ?s ''acme/app/7'' of None \<Rightarrow> lookup_record s' ''acme/app/7'' = None
     | Some r \<Rightarrow> (case lookup_record s' ''acme/app/7'' of
            None \<Rightarrow> r_status r = StatusDeleted \<and> r_updated_at r < 90 - fs_deleted_retention s'
          | Some r' \<Rightarrow> recovery_keeps r r' \<and> settled_record r' \<and>
              r_status r' = recovered_status (r_status r))" by fastforce
  moreover have "r_instance_id sample_deleting = ''i-1''" by (simp add: sample_defs)
  ultimately show ?thesis using run
    by (auto simp: recovery_keeps_def settled_record_def split: option.splits)
qed

text \<open>C15: After a restart \<open>OwnsRunner\<close> answers yes exactly for the registrations that some
record owns, the repository compared without case, whatever updates of the index preceded.\<close>

theorem restart_owns_runner:
  assumes "store_inv s" and "list_all (\<lambda>io. io_truncate io = None) ios"
    and "open_file_store path (map with_deleted_retention ds) io ios now (fs_disk s) = (Inr s', d)"
  shows "owns_runner owner repository i s' \<longleftrightarrow>
    (\<exists>k r. lookup_record s' k = Some r \<and> r_status r \<noteq> StatusDeleted \<and> r_github_runner_owned r \<and>
       r_github_runner_id r \<noteq> 0 \<and> k \<noteq> record_marker_key r \<and> r_github_runner_id r = i \<and>
       to_lower (r_owner r @ ''/'' @ r_repository r) = to_lower (owner @ ''/'' @ repository))"
proof -
  note step = reopen_step [OF assms]
  have "wf_map (fs_records s')" using step(1) by (simp add: store_inv_def clean_ok_iff)
  from owns_runner_rebuilt [OF this step(5)] show ?thesis
    by (auto simp: indexable_def)
qed

theorem restart_owns_runner_witness:
  "\<exists>s' d. open_file_store ''state.json'' [] load_ok [] 90 (fs_disk (one_record sample_deleting)) =
      (Inr s', d) \<and> \<not> owns_runner ''acme'' ''app'' 0 s'"
proof -
  let ?s = "one_record sample_deleting"
  obtain s' d where run: "open_file_store ''state.json'' [] load_ok [] 90 (fs_disk ?s) = (Inr s', d)"
    using healthy_open by blast
  have "store_inv ?s" using one_record_inv [OF sample_inv(3)] by simp
  from restart_owns_runner [OF this, of "[]" "''state.json''" "[]" load_ok 90 s' d "''acme''" "''app''" 0] run
  show ?thesis by auto
qed

section \<open>Sweeps and creation\<close>

text \<open>C16: A successful \<open>PruneDeleted\<close> removes exactly the records that are deleted, or orphaned
with neither instance nor registration, and unchanged for the retention period; all others stay as
they are.\<close>

theorem prune_is_exact:
  assumes "store_inv s" and "prune_deleted now s = (Inr n, s')"
  shows "lookup_record s' k =
    (case lookup_record s k of None \<Rightarrow> None
     | Some r \<Rightarrow>
         if (r_status r = StatusDeleted \<or>
             r_status r = StatusOrphaned \<and> r_instance_id r = '''' \<and> r_github_runner_id r = 0) \<and>
            r_updated_at r < now - fs_deleted_retention s
         then None else Some r)"
  using prune_deleted_step(5) [OF assms refl, of k]
  by (simp add: prunable_def Let_def split: option.split)

theorem prune_is_exact_witness:
  "\<exists>s'. prune_deleted (25 * hour) (one_record sample_deleted) = (Inr 1, s') \<and>
     lookup_record s' ''acme/app/7'' = None"
proof -
  let ?s = "one_record sample_deleted"
  have old: "r_updated_at sample_deleted < 25 * hour - default_deleted_retention"
    by (simp add: sample_defs default_deleted_retention_def hour_def minute_def second_def)
  have p: "prunable (25 * hour - default_deleted_retention) sample_deleted"
    using old by (simp add: prunable_def Let_def)
  have "healthy (edit_record ''acme/app/7'' None ?s)" by (simp add: one_record_def)
  then have "healthy ((mark_dirty ''acme/app/7'' (drop_record ''acme/app/7'' ?s))\<lparr>fs_keys_dirty := True\<rparr>)"
    by (simp add: edit_record_def set_record_def)
  then obtain u where "save_locked ((mark_dirty ''acme/app/7'' (drop_record ''acme/app/7'' ?s))
      \<lparr>fs_keys_dirty := True\<rparr>) = (None, u)" by (rule healthy_saves)
  then have run: "prune_deleted (25 * hour) ?s = (Inr 1, u)"
    using p by (simp add: prune_deleted_def Let_def)
  have "store_inv ?s" using one_record_inv [OF sample_inv(4)] by simp
  from prune_is_exact [OF this run, of "''acme/app/7''"] run old show ?thesis by simp
qed

text \<open>C17: A successful \<open>ReleaseSweptOrphans\<close> clears the instance of exactly the orphans of the
swept provider whose instance was created before the cutoff.\<close>

theorem release_swept_is_exact:
  assumes "store_inv s" and "release_swept_orphans provider cutoff now s = (Inr n, s')"
  shows "lookup_record s' k =
    map_option (\<lambda>r.
      if r_status r = StatusOrphaned \<and> r_provider r = provider \<and> r_instance_id r \<noteq> '''' \<and>
         (if is_zero (r_provisioned_at r) then r_created_at r else r_provisioned_at r) < cutoff
      then r\<lparr>r_instance_id := '''', r_updated_at := now\<rparr> else r) (lookup_record s k)"
  using release_swept_orphans_step(5) [OF assms refl, of k]
  by (cases "lookup_record s k") (auto simp: swept_orphan_def forget_instance_def Let_def)

definition sample_swept :: runner_record where
  "sample_swept = sample_orphan\<lparr>r_instance_id := ''i-1'', r_provisioned_at := 5\<rparr>"

lemma sample_swept_inv: "record_inv sample_swept" "r_key sample_swept = ''acme/app/7''"
  by (simp_all add: sample_swept_def sample_defs record_inv_defs)

theorem release_swept_is_exact_witness:
  "\<exists>s'. release_swept_orphans ''digitalocean'' 99 100 (one_record sample_swept) = (Inr 1, s') \<and>
    lookup_record s' ''acme/app/7'' = Some (sample_swept\<lparr>r_instance_id := '''', r_updated_at := 100\<rparr>)"
proof -
  let ?s = "one_record sample_swept"
  let ?r = "sample_swept\<lparr>r_instance_id := '''', r_updated_at := 100\<rparr>"
  have swept: "swept_orphan ''digitalocean'' 99 sample_swept"
    by (simp add: swept_orphan_def sample_swept_def sample_defs is_zero_def zero_time_def Let_def)
  have "healthy (mark_dirty ''acme/app/7'' (put_record ''acme/app/7'' ?r ?s))"
    by (simp add: one_record_def)
  then obtain u where "save_locked (mark_dirty ''acme/app/7'' (put_record ''acme/app/7'' ?r ?s)) =
      (None, u)" by (rule healthy_saves)
  then have run: "release_swept_orphans ''digitalocean'' 99 100 ?s = (Inr 1, u)"
    using swept by (simp add: release_swept_orphans_def sample_swept_inv)
  have inv: "store_inv ?s" using one_record_inv [OF sample_swept_inv(1)] by simp
  have "r_status sample_swept = StatusOrphaned \<and> r_provider sample_swept = ''digitalocean'' \<and>
      r_instance_id sample_swept \<noteq> '''' \<and>
      (if is_zero (r_provisioned_at sample_swept) then r_created_at sample_swept
       else r_provisioned_at sample_swept) < 99"
    by (simp add: sample_swept_def sample_defs is_zero_def zero_time_def)
  with release_swept_is_exact [OF inv run, of "''acme/app/7''"] run show ?thesis
    by (simp add: sample_swept_inv)
qed

text \<open>C18: \<open>Create\<close> admits one record per key: it stores the request as pending with both stamps
set when the key is free, and reports false and changes nothing when it is taken.\<close>

theorem create_is_once:
  assumes "store_inv s" and "create r now s = (res, s')"
  shows "(case lookup_record s (r_key r) of
      Some r0 \<Rightarrow> res = Inr False \<and> s' = s
    | None \<Rightarrow>
        (res = Inr True \<and> map_of (fs_records s') = (map_of (fs_records s))(r_key r \<mapsto>
           r\<lparr>r_status := StatusPending, r_created_at := now, r_updated_at := now\<rparr>)) \<or>
        (\<exists>e. res = Inl e \<and> map_of (fs_records s') = map_of (fs_records s)))"
proof -
  have ok: "clean_ok s" using assms(1) by (simp add: store_inv_def)
  from assms(2) ok show ?thesis by (cases rule: create_cases) auto
qed

theorem create_is_once_witness:
  "create sample_request 100 (one_record sample_pending) = (Inr False, one_record sample_pending)"
proof -
  let ?s = "one_record sample_pending"
  have inv: "store_inv ?s" using one_record_inv [OF sample_inv(1)] by simp
  have key: "lookup_record ?s (r_key sample_request) = Some sample_pending" by simp
  obtain res t where run: "create sample_request 100 ?s = (res, t)" by (cases "create sample_request 100 ?s")
  from create_is_once [OF inv run] key have "res = Inr False \<and> t = ?s"
    by (simp only: option.case)
  then show ?thesis by (simp only: run)
qed

text \<open>C19: An instance is reported missing only after the settle time and the number of checks:
\<open>ObserveRunnerMissing\<close> answers yes only for a provisioned record whose count of consecutive checks
has reached the confirmations and whose first check is at least the settle time ago.\<close>

theorem missing_needs_confirmations:
  assumes "store_inv s" and "observe_runner_missing k now settle confirmations s = (Inr True, s')"
  shows "\<exists>r r'. lookup_record s k = Some r \<and> r_status r = StatusProvisioned \<and>
    lookup_record s' k = Some r' \<and> r_missing_checks r' \<ge> confirmations \<and>
    r_missing_since r' + settle \<le> now \<and>
    (is_zero (r_missing_since r) \<and> r_missing_since r' = now \<and> r_missing_checks r' = 1 \<or>
     r_missing_since r' = r_missing_since r \<and> r_missing_checks r' = r_missing_checks r + 1)"
proof -
  from assms(2) obtain r where r: "lookup_record s k = Some r" "r_status r = StatusProvisioned"
    by (auto simp: observe_runner_missing_def split: option.splits if_splits)
  let ?r = "(if is_zero (r_missing_since r) then r\<lparr>r_missing_since := now, r_missing_checks := 1\<rparr>
     else r\<lparr>r_missing_checks := r_missing_checks r + 1\<rparr>)\<lparr>r_updated_at := now\<rparr>"
  obtain err t where rep: "replace_record k r ?r s = (err, t)" by fastforce
  with assms(2) r have err: "err = None" and t: "t = s'"
    and res: "r_missing_checks ?r \<ge> confirmations" "\<not> r_missing_since ?r + settle > now"
    by (cases err; simp add: observe_runner_missing_def Let_def)+
  have ok: "clean_ok s" using assms(1) by (simp add: store_inv_def)
  from replace_record_spec(3) [OF ok r(1) rep] have "lookup_record s' k = Some ?r" by (simp add: err t)
  moreover have "is_zero (r_missing_since r) \<and> r_missing_since ?r = now \<and> r_missing_checks ?r = 1 \<or>
     r_missing_since ?r = r_missing_since r \<and> r_missing_checks ?r = r_missing_checks r + 1"
    by simp
  moreover have "r_missing_since ?r + settle \<le> now" using res(2) by (simp only: not_less)
  ultimately show ?thesis using r res(1) by blast
qed

theorem missing_needs_confirmations_witness:
  "\<exists>s'. observe_runner_missing ''acme/app/7'' 50 0 1 (one_record sample_running) = (Inr True, s') \<and>
     (\<exists>r'. lookup_record s' ''acme/app/7'' = Some r' \<and> r_missing_checks r' \<ge> 1)"
proof -
  let ?s = "one_record sample_running"
  let ?r = "sample_running\<lparr>r_missing_since := 50, r_missing_checks := 1, r_updated_at := 50\<rparr>"
  have z: "is_zero (r_missing_since sample_running)" by (simp add: sample_defs is_zero_def)
  have "r_missing_checks sample_running \<noteq> r_missing_checks ?r" by (simp add: sample_defs)
  then have "sample_running \<noteq> ?r" by metis
  then obtain s' where "replace_record (r_key sample_running) sample_running ?r ?s = (None, s')"
    by (rule one_record_replace [OF sample_inv(2)])
  with z have run: "observe_runner_missing ''acme/app/7'' 50 0 1 ?s = (Inr True, s')"
    by (simp add: observe_runner_missing_def Let_def)
  have "store_inv ?s" using one_record_inv [OF sample_inv(2)] by simp
  from missing_needs_confirmations [OF this run] run show ?thesis by blast
qed

section \<open>Limits\<close>

text \<open>A journal write that stops after three bytes, and a truncation that fails as well.\<close>

definition double_fault :: save_io where
  "double_fault = save_ok\<lparr>io_written := Some 3, io_truncate := Some (ErrText ''read-only file system'')\<rparr>"

lemma double_fault_simps [simp]:
  "io_mkdir double_fault = None" "io_marshal double_fault = None" "io_stat double_fault = None"
  "io_open double_fault = None" "io_chmod double_fault = None" "io_dirsync double_fault = None"
  "io_fstat double_fault = None" "io_written double_fault = Some 3"
  "io_write_err double_fault = None" "io_size double_fault = 100"
  "io_truncate double_fault = Some (ErrText ''read-only file system'')"
  by (simp_all add: double_fault_def)

lemma errors_join_cons: "errors_join (Some e # es) = Some (ErrJoin (e # List.map_filter id es))"
  by (simp add: errors_join_def map_filter_simps Let_def)

text \<open>C20: The durability above needs the rollback of a failed append to succeed: when a write is
torn and the truncation after it fails too, the next successful save lands on the torn line, is
reported as success, and no later start can read the journal.\<close>

theorem torn_write_and_failed_rollback_lose_journal:
  "let s = (one_record sample_running)\<lparr>fs_io := [double_fault]\<rparr>;
       (err1, s1) = mark_completed ''acme/app/7'' 10 s;
       (err2, s2) = mark_completed ''acme/app/7'' 20 s1
   in err1 \<noteq> None \<and> err2 = None \<and> reload (fs_disk s2) = None"
proof -
  let ?k = "''acme/app/7''"
  define s where "s = (one_record sample_running)\<lparr>fs_io := [double_fault]\<rparr>"
  define r1 where "r1 = (mark_completed_mut sample_running)\<lparr>r_updated_at := 10\<rparr>"
  define r2 where "r2 = (mark_completed_mut sample_running)\<lparr>r_updated_at := 20\<rparr>"
  have ne: "r1 \<noteq> sample_running" "r2 \<noteq> sample_running"
    by (simp_all add: r1_def r2_def mark_completed_mut_def sample_defs)
  define s1 where "s1 = (one_record sample_running)\<lparr>fs_dirty_keys := [?k],
    fs_disk := (fs_disk (one_record sample_running))\<lparr>d_tail := Some (JBad 3)\<rparr>\<rparr>"
  have "replace_record ?k sample_running r1 s =
      (Some (ErrJoin [ErrWrap ''append state journal: '' (ErrText ''short write''),
         ErrWrap ''roll back partial state journal entry: '' (ErrText ''read-only file system'')]), s1)"
    using ne by (simp add: s_def s1_def replace_record_def save_eval one_record_def
        rollback_journal_def errors_join_cons map_filter_simps)
  then have one: "\<exists>e. mark_completed ?k 10 s = (Some e, s1)"
    by (simp add: mark_completed_def update_record_def s_def flip: r1_def)
  obtain s2 where two: "replace_record ?k sample_running r2 s1 = (None, s2)"
    and disk: "d_journal_exists (fs_disk s2)" "d_lines (fs_disk s2) = [JBad 103]"
    using ne by (simp add: s1_def replace_record_def save_eval one_record_def)
  from two have "mark_completed ?k 20 s1 = (None, s2)"
    by (simp add: mark_completed_def update_record_def s1_def flip: r2_def)
  with one reload_bad_line [of "fs_disk s2"] disk show ?thesis
    by (auto simp: s_def)
qed

text \<open>C21: The ceiling needs the guard on completions: a late completion event that names the
registration of an orphan without an instance revives the record, which \<open>MarkOrphaned\<close> calls
terminal, and counts one more live runner than the ceiling allows.\<close>

definition orphan_store :: file_store where
  "orphan_store = (store_with [(''acme/app/7'', sample_orphan),
      (''acme/app/8'', sample_running\<lparr>r_key := ''acme/app/8'', r_github_runner_id := 43\<rparr>)])
    \<lparr>fs_runner_keys := [(''acme/app#42'', ''acme/app/7'')], fs_max_live_runners := 1\<rparr>"

theorem completion_revives_orphan:
  "\<exists>s'. record_completion sample_completion 50 orphan_store = (None, s') \<and>
     int (live_runner_count orphan_store) = fs_max_live_runners orphan_store \<and>
     lookup_record orphan_store ''acme/app/7'' = Some sample_orphan \<and>
     map_option r_status (lookup_record s' ''acme/app/7'') = Some StatusCompleted \<and>
     int (live_runner_count s') = 2"
proof -
  let ?o = "sample_running\<lparr>r_key := ''acme/app/8'', r_github_runner_id := 43\<rparr>"
  have inv: "store_inv orphan_store" "healthy orphan_store"
  proof -
    let ?rs = "[(''acme/app/7'', sample_orphan), (''acme/app/8'', ?o)]"
    have "\<forall>(k, r) \<in> set ?rs. record_inv r \<and> r_key r = k"
      by (simp add: sample_defs record_inv_defs)
    from store_with_inv(1) [OF _ this] show "store_inv orphan_store" "healthy orphan_store"
      by (simp_all add: orphan_store_def healthy_def store_inv_def clean_ok_iff records_inv_def)
  qed
  have target: "runner_target sample_completion orphan_store = Some (''acme/app/7'', sample_orphan)"
    using sample_identity
    by (simp add: runner_target_def orphan_store_def)
      (simp add: completion_matches_def sample_defs equal_fold_def)
  have key: "\<not> is_marker_key (r_key sample_completion)" by simp
  obtain s' where run: "record_completion sample_completion 50 orphan_store = (None, s')"
    using healthy_completion [OF inv(2) key] by blast
  have ok: "clean_ok orphan_store" using inv(1) by (simp add: store_inv_def)
  let ?m = "complete_matched sample_orphan sample_completion 50"
  let ?e = "complete_event ?o sample_completion 50"
  have id: "r_github_runner_id sample_completion \<noteq> 0" by (simp add: sample_defs)
  have "completion_edits sample_completion 50 orphan_store =
      [(''acme/app/7'', Some ?m), (''acme/app/8'', Some ?e)]"
    using target id
    by (simp add: completion_edits_def runner_edit_def event_edit_def) (simp add: orphan_store_def)
  with run ok key have look: "clean_ok s'" "map_of (fs_records s') =
      map_of [(''acme/app/7'', ?m), (''acme/app/8'', ?e)]"
    by (cases rule: record_completion_cases; simp add: orphan_store_def fun_eq_iff)+
  have "live_runner_count s' = count_where is_live [(''acme/app/7'', ?m), (''acme/app/8'', ?e)]"
    unfolding live_runner_count_def
    by (rule count_where_map_of_eq) (use look in \<open>simp_all add: clean_ok_iff\<close>)
  also have "\<dots> = 2"
    by (simp add: complete_matched_def complete_event_def Let_def is_live_def sample_defs)
  finally have "int (live_runner_count s') = 2" by simp
  moreover have "r_status ?m = StatusCompleted"
    by (simp add: complete_matched_def Let_def sample_defs)
  moreover have "int (live_runner_count orphan_store) = fs_max_live_runners orphan_store"
    by (simp add: orphan_store_def live_runner_count_def is_live_def sample_defs)
  moreover have "lookup_record orphan_store ''acme/app/7'' = Some sample_orphan"
    by (simp add: orphan_store_def)
  ultimately show ?thesis using run look(2) by simp
qed

end
