(* ===== verification/Controller_Samples.thy ===== *)
theory Controller_Samples
  imports Controller_Refinement Store_Properties
begin

text \<open>
  A concrete environment, handler and delivery for the examples of the controller's properties:
  every client call succeeds, no other goroutine runs and no context is done.
\<close>

definition calm :: "unit env" where
  "calm =
    \<lparr>e_now = \<lambda>x. (1000, x), e_others = \<lambda>x. ([], x), e_ctx_err = \<lambda>c x. (None, x),
     e_ingest_slot = \<lambda>x. (True, x),
     e_json = \<lambda>s. Some (JObj
       [(''action'', JStr ''queued''),
        (''workflow_job'', JObj [(''id'', JInt 7), (''run_id'', JInt 3), (''labels'', JArr [JStr ''self-hosted''])]),
        (''repository'', JObj [(''full_name'', JStr ''acme/app''), (''name'', JStr ''app''),
           (''private'', JBool False), (''owner'', JObj [(''login'', JStr ''acme'')])]),
        (''installation'', JObj [(''id'', JInt 5)])]),
     e_hmac = \<lambda>secret body. ''k'', e_sha256 = \<lambda>s. replicate 32 (CHR ''k''),
     gc_trusted_run = \<lambda>c owner repo i x. (Inr True, x),
     gc_job_status = \<lambda>c owner repo i x. (Inr JobQueued, x),
     gc_jit_config = \<lambda>c owner repo name g ls x. (Inr \<lparr>jit_runner_id = 42, jit_encoded_config = ''abcd''\<rparr>, x),
     gc_runner_status = \<lambda>c owner repo i x. (Inr RunnerOnline, x),
     gc_remove_runner = \<lambda>c owner repo i x. (None, x),
     cc_provider = ''digitalocean'',
     cc_find = \<lambda>c key x. (Inr None, x),
     cc_create = \<lambda>c params x. (Inr \<lparr>ri_id = ''i-1'', ri_name = p_runner_name params\<rparr>, x),
     cc_delete = \<lambda>c i key x. (None, x), cc_cleanup = \<lambda>c key x. (None, x),
     cc_sweep = \<lambda>c known cutoff x. ((0, None), x),
     cc_absent = Some (\<lambda>c i x. (Inr True, x)),
     cc_cleanup_except = Some (\<lambda>c key i x. (None, x))\<rparr>"

lemma calm_simps [simp]:
  "e_now calm x = (1000, x)" "e_others calm x = ([], x)" "e_ctx_err calm c x = (None, x)"
  "e_ingest_slot calm x = (True, x)" "e_hmac calm k b = ''k''"
  "e_sha256 calm s = replicate 32 (CHR ''k'')"
  "gc_trusted_run calm c owner repo i x = (Inr True, x)"
  "gc_job_status calm c owner repo i x = (Inr JobQueued, x)"
  "gc_jit_config calm c owner repo name g ls x = (Inr \<lparr>jit_runner_id = 42, jit_encoded_config = ''abcd''\<rparr>, x)"
  "gc_runner_status calm c owner repo i x = (Inr RunnerOnline, x)"
  "gc_remove_runner calm c owner repo i x = (None, x)"
  "cc_provider calm = ''digitalocean''" "cc_find calm c key x = (Inr None, x)"
  "cc_create calm c params x = (Inr \<lparr>ri_id = ''i-1'', ri_name = p_runner_name params\<rparr>, x)"
  "cc_delete calm c d key x = (None, x)" "cc_cleanup calm c key x = (None, x)"
  "cc_sweep calm c known cutoff x = ((0, None), x)"
  "cc_absent calm = Some (\<lambda>c i x. (Inr True, x))"
  "cc_cleanup_except calm = Some (\<lambda>c key i x. (None, x))"
  by (simp_all add: calm_def)

lemma calm_others [simp]: "others_satisfy calm p"
  by (simp add: others_satisfy_def)

definition sample_handler :: handler where
  "sample_handler =
    \<lparr>h_webhook_secret = replicate 32 (CHR ''s''), h_required_label = ''self-hosted'',
     h_allowed_labels = [(''self-hosted'', ''self-hosted''), (''linux'', ''Linux'')],
     h_allowed_repositories = [''acme/app''], h_allowed_public_repositories = [''acme/app''],
     h_runner_version = ''2.300.0'', h_runner_sha256 = replicate 64 (CHR ''a''),
     h_chef_installer_sha256 = replicate 64 (CHR ''b''), h_runner_group_id = 1,
     h_max_attempts = 5, h_worker_count = 4, h_poll_interval = second,
     h_max_runner_age = 6 * hour, h_cancelled_runner_ttl = 5 * minute,
     h_registration_timeout = 10 * minute, h_liveness_settle_window = 2 * minute,
     h_liveness_confirmations = 3, h_reaper_timeout = 15 * minute,
     h_liveness_check_interval = 5 * minute, h_installation_id = 5, h_provider = ''digitalocean'',
     h_ingest_wait = 3 * second\<rparr>"

lemma sample_handler_simps [simp]:
  "h_webhook_secret sample_handler = replicate 32 (CHR ''s'')"
  "h_required_label sample_handler = ''self-hosted''"
  "h_allowed_labels sample_handler = [(''self-hosted'', ''self-hosted''), (''linux'', ''Linux'')]"
  "h_allowed_repositories sample_handler = [''acme/app'']"
  "h_allowed_public_repositories sample_handler = [''acme/app'']"
  "h_max_attempts sample_handler = 5" "h_installation_id sample_handler = 5"
  "h_provider sample_handler = ''digitalocean''" "h_runner_group_id sample_handler = 1"
  "h_registration_timeout sample_handler = 10 * minute"
  "h_max_runner_age sample_handler = 6 * hour"
  "h_cancelled_runner_ttl sample_handler = 5 * minute"
  "h_liveness_settle_window sample_handler = 2 * minute"
  "h_liveness_confirmations sample_handler = 3"
  "h_liveness_check_interval sample_handler = 5 * minute"
  by (simp_all add: sample_handler_def)

definition sample_delivery :: http_delivery where
  "sample_delivery =
    \<lparr>hd_method = ''POST'',
     hd_headers = [(''X-Hub-Signature-256'', ''sha256=6b''), (''X-GitHub-Event'', ''workflow_job''),
       (''X-GitHub-Delivery'', ''d1'')],
     hd_body = Inr ''{}''\<rparr>"

definition world_of :: "file_store \<Rightarrow> unit world" where
  "world_of s = \<lparr>w_store = s, w_outside = (), w_notify = False, w_log = []\<rparr>"

lemma world_of_simps [simp]:
  "w_store (world_of s) = s" "w_log (world_of s) = []" "w_outside (world_of s) = ()"
  by (simp_all add: world_of_def)

lemma store_with_ready:
  assumes "wf_map rs" and "\<forall>(k, r) \<in> set rs. record_inv r \<and> r_key r = k \<and> \<not> is_marker_key k"
  shows "store_ready (store_with rs)"
proof -
  have "\<forall>(k, r) \<in> set rs. record_inv r \<and> r_key r = k" using assms(2) by auto
  from store_with_inv [OF assms(1) this] show ?thesis
    using assms(2) by (auto simp: store_ready_def markers_idle_def dest!: map_of_SomeD)
qed

lemma one_record_ready: "record_inv r \<Longrightarrow> \<not> is_marker_key (r_key r) \<Longrightarrow> store_ready (one_record r)"
  by (simp add: one_record_def store_with_ready)

lemma empty_store_ready: "store_ready (store_with [])"
  by (rule store_with_ready) simp_all

text \<open>A computation of the sample world, evaluated.\<close>

lemmas run_simps = call_def outside_def record_event_def clock_def ctx_err_def interleave_def
  on_store_def store_call_def store_do_def store_read_def store_get_def signal_def

lemma sample_event:
  "unmarshal (e_json calm) dec_workflow_job_event zero_event ''{}'' =
     Inr \<lparr>ev_action = ''queued'', ev_job = \<lparr>wj_run_id = 3, wj_id = 7, wj_name = '''',
        wj_labels = [''self-hosted''], wj_runner_id = 0, wj_runner_name = ''''\<rparr>,
      ev_repo = \<lparr>ro_full_name = ''acme/app'', ro_name = ''app'', ro_private = False, ro_owner_login = ''acme''\<rparr>,
      ev_installation_id = 5\<rparr>"
  by code_simp

lemma sample_checks:
  "read_body sample_delivery = Some ''{}''"
  "verify_webhook_signature (e_hmac calm) ''{}'' ''sha256=6b'' s"
  "validate_repository sample_handler
     \<lparr>ro_full_name = ''acme/app'', ro_name = ''app'', ro_private = False, ro_owner_login = ''acme''\<rparr> =
     Inr (''acme/app'', True)"
  "authorize_labels sample_handler [''self-hosted''] = Some (Inr [''self-hosted''])"
  "job_key ''acme/app'' 7 = ''acme/app:7''"
  "delivery_id_ok ''d1''"
proof -
  show "read_body sample_delivery = Some ''{}''" by (simp add: read_body_def sample_delivery_def max_body_size_def)
  have "hex_encode ''k'' = ''6b''" by code_simp
  then show "verify_webhook_signature (e_hmac calm) ''{}'' ''sha256=6b'' s"
    by (simp add: verify_webhook_signature_iff)
  show "validate_repository sample_handler
     \<lparr>ro_full_name = ''acme/app'', ro_name = ''app'', ro_private = False, ro_owner_login = ''acme''\<rparr> =
     Inr (''acme/app'', True)" by code_simp
  show "authorize_labels sample_handler [''self-hosted''] = Some (Inr [''self-hosted''])" by code_simp
  show "job_key ''acme/app'' 7 = ''acme/app:7''" by code_simp
  show "delivery_id_ok ''d1''" by code_simp
qed

end
