(* ===== verification/Webhook_Properties.thy ===== *)
theory Webhook_Properties
  imports Controller_Samples
begin

text \<open>
  The properties of the webhook: what a delivery must pass before it has an effect, the labels
  it is given, and the names and delays derived from a job.
\<close>

section \<open>Runs of the webhook\<close>

lemma run_store_call:
  "run_state (store_call E op f) w = (r, w') \<Longrightarrow>
   \<exists>ops now x. f now (exec_ops ops (w_store w)) = (r, w_store w') \<and>
     ops = fst (e_others E (w_outside w)) \<and> w_log w' = EvStore op (failure r) # w_log w \<and>
     w_notify w' = w_notify w \<and> w_outside w' = x"
  by (auto simp: run_simps split: prod.splits)

lemma run_call:
  "run_state (call f ev) w = (a, w') \<Longrightarrow>
   w_store w' = w_store w \<and> w_log w' = ev a # w_log w \<and> w_notify w' = w_notify w"
  by (auto simp: run_simps split: prod.splits)

lemma handle_queued_admits:
  assumes "run_state (handle_queued E h rq event key labels) w = ((202, text), w')"
  shows "\<exists>d now s. delivery_id_ok d \<and> d = header_get (hd_headers rq) ''X-GitHub-Delivery'' \<and>
    create (queued_record h event key d labels) now s = (Inr True, w_store w') \<and>
    w_log w' = EvStore (OpCreate (queued_record h event key d labels)) None # w_log w"
proof -
  let ?d = "header_get (hd_headers rq) ''X-GitHub-Delivery''"
  let ?r = "queued_record h event key ?d labels"
  have d: "delivery_id_ok ?d"
    using assms by (auto simp: handle_queued_def Let_def split: if_splits)
  obtain res v where call: "run_state (store_call E (OpCreate ?r) (create ?r)) w = (res, v)" by fastforce
  with assms d have res: "res = Inr True" and v: "w_store w' = w_store v" "w_log w' = w_log v"
    by (auto simp: handle_queued_def Let_def signal_def split: sum.splits bool.splits)
  from run_store_call [OF call] res v d show ?thesis by auto
qed

lemma serve_queued_admits:
  assumes run: "run_state (serve_queued E h rq event key) w = ((202, text), w')"
  shows "\<exists>labels d now s es. authorize_labels h (wj_labels (ev_job event)) = Some (Inr labels) \<and>
    delivery_id_ok d \<and> create (queued_record h event key d labels) now s = (Inr True, w_store w') \<and>
    w_log w' = es @ w_log w \<and>
    (\<not> ro_private (ev_repo event) \<longrightarrow>
       EvTrusted (ro_owner_login (ev_repo event)) (ro_name (ev_repo event)) (wj_run_id (ev_job event))
         (Inr True) \<in> set es)"
proof -
  from run obtain labels where labels: "authorize_labels h (wj_labels (ev_job event)) = Some (Inr labels)"
    by (auto simp: serve_queued_def split: option.splits sum.splits)
  show ?thesis
  proof (cases "\<not> ro_private (ev_repo event) \<or> length (h_allowed_public_repositories h) > 0")
    case False
    with run labels have "run_state (handle_queued E h rq event key labels) w = ((202, text), w')"
      by (simp add: serve_queued_def)
    from handle_queued_admits [OF this] labels False show ?thesis
      by (metis append_Cons append_Nil)
  next
    case True
    let ?call = "trusted_workflow_run_call E CtxRequest (ro_owner_login (ev_repo event))
      (ro_name (ev_repo event)) (wj_run_id (ev_job event))"
    obtain res v where call: "run_state ?call w = (res, v)" by fastforce
    with run labels True have res: "res = Inr True"
      and rest: "run_state (handle_queued E h rq event key labels) v = ((202, text), w')"
      by (auto simp: serve_queued_def split: sum.splits bool.splits if_splits)
    have "w_log v = EvTrusted (ro_owner_login (ev_repo event)) (ro_name (ev_repo event))
        (wj_run_id (ev_job event)) (Inr True) # w_log w"
      using run_call [of "gc_trusted_run E CtxRequest (ro_owner_login (ev_repo event))
          (ro_name (ev_repo event)) (wj_run_id (ev_job event))"] call res
      by (simp add: trusted_workflow_run_call_def)
    with handle_queued_admits [OF rest] labels show ?thesis
      by (metis append_Cons append_Nil list.set_intros(1,2))
  qed
qed

text \<open>A delivery that gets past the checks in front of the event.\<close>

lemma serve_http_event:
  assumes "run_state (serve_http E h rq) w = ((202, text), w')"
  obtains body event x where "hd_method rq = ''POST''" and "read_body rq = Some body"
    and "header_get (hd_headers rq) ''X-Hub-Signature-256'' =
      ''sha256='' @ hex_encode (e_hmac E (h_webhook_secret h) body)"
    and "unmarshal (e_json E) dec_workflow_job_event zero_event body = Inr event"
    and "run_state (serve_event E h rq event) (w\<lparr>w_outside := x\<rparr>) = ((202, text), w')"
  using assms
  by (auto simp: serve_http_def outside_def verify_webhook_signature_iff
      split: if_splits option.splits sum.splits prod.splits)

lemma serve_event_target:
  assumes "run_state (serve_event E h rq event) w = ((202, text), w')"
  obtains repository where "ev_installation_id event = h_installation_id h"
    and "validate_repository h (ev_repo event) = Inr (repository, True)"
    and "repository = to_lower (ro_owner_login (ev_repo event) @ ''/'' @ ro_name (ev_repo event))"
    and "repository \<in> set (h_allowed_repositories h)"
    and "\<not> ro_private (ev_repo event) \<longrightarrow> repository \<in> set (h_allowed_public_repositories h)"
    and "ev_action event = ''queued'' \<and>
      run_state (serve_queued E h rq event (job_key repository (wj_id (ev_job event)))) w = ((202, text), w') \<or>
      ev_action event = ''completed'' \<and>
      run_state (serve_completed E h event (job_key repository (wj_id (ev_job event)))) w = ((202, text), w')"
proof -
  have inst: "ev_installation_id event = h_installation_id h"
    using assms by (auto simp: serve_event_def split: if_splits)
  obtain repository where v: "validate_repository h (ev_repo event) = Inr (repository, True)"
    using assms inst by (auto simp: serve_event_def split: sum.splits bool.splits)
  have act: "ev_action event = ''queued'' \<and>
      run_state (serve_queued E h rq event (job_key repository (wj_id (ev_job event)))) w = ((202, text), w') \<or>
      ev_action event = ''completed'' \<and>
      run_state (serve_completed E h event (job_key repository (wj_id (ev_job event)))) w = ((202, text), w')"
    using assms inst v by (auto simp: serve_event_def Let_def split: if_splits)
  from v have "repository = to_lower (ro_owner_login (ev_repo event) @ ''/'' @ ro_name (ev_repo event)) \<and>
      repository \<in> set (h_allowed_repositories h) \<and>
      (\<not> ro_private (ev_repo event) \<longrightarrow> repository \<in> set (h_allowed_public_repositories h))"
    by (auto simp: validate_repository_def Let_def split: if_splits)
  with inst v act that show ?thesis by blast
qed

lemma create_admits:
  assumes "create r now s = (Inr True, s')"
  shows "lookup_record s' (r_key r) =
    Some (r\<lparr>r_status := StatusPending, r_created_at := now, r_updated_at := now\<rparr>)"
proof -
  let ?r = "r\<lparr>r_status := StatusPending, r_created_at := now, r_updated_at := now\<rparr>"
  let ?t = "(mark_dirty (r_key r) (put_record (r_key r) ?r s))\<lparr>fs_keys_dirty := True\<rparr>"
  have "save_locked ?t = (None, s')"
    using assms by (auto simp: create_def Let_def split: option.splits prod.splits)
  from save_core [OF this] have "fs_records s' = fs_records ?t"
    using core_fields by metis
  then show ?thesis by (simp add: mark_dirty_def put_record_def)
qed

section \<open>Admission\<close>

text \<open>C22: The webhook answers \<open>202 queued\<close> only for an authenticated and authorized delivery:
the signature is the keyed hash of the body, the event comes from the configured installation and
an allowlisted repository (for a public one, an allowlisted public repository whose run GitHub
confirmed in this very request), every label is authorized, and the job is then in the store as a
pending record with exactly these labels.\<close>

theorem queued_means_authorized:
  assumes "run_state (serve_http E h rq) w = ((202, ''queued''), w')"
  shows "\<exists>body event repository labels r es.
    hd_method rq = ''POST'' \<and> read_body rq = Some body \<and>
    header_get (hd_headers rq) ''X-Hub-Signature-256'' =
      ''sha256='' @ hex_encode (e_hmac E (h_webhook_secret h) body) \<and>
    unmarshal (e_json E) dec_workflow_job_event zero_event body = Inr event \<and>
    ev_installation_id event = h_installation_id h \<and>
    repository = to_lower (ro_owner_login (ev_repo event) @ ''/'' @ ro_name (ev_repo event)) \<and>
    repository \<in> set (h_allowed_repositories h) \<and> w_log w' = es @ w_log w \<and>
    (ro_private (ev_repo event) \<or>
       repository \<in> set (h_allowed_public_repositories h) \<and>
       EvTrusted (ro_owner_login (ev_repo event)) (ro_name (ev_repo event))
         (wj_run_id (ev_job event)) (Inr True) \<in> set es) \<and>
    authorize_labels h (wj_labels (ev_job event)) = Some (Inr labels) \<and>
    lookup_record (w_store w') (job_key repository (wj_id (ev_job event))) = Some r \<and>
    r_status r = StatusPending \<and> r_labels r = labels \<and> r_provider r = h_provider h"
proof -
  from assms obtain body event x where
    front: "hd_method rq = ''POST''" "read_body rq = Some body"
      "header_get (hd_headers rq) ''X-Hub-Signature-256'' =
        ''sha256='' @ hex_encode (e_hmac E (h_webhook_secret h) body)"
      "unmarshal (e_json E) dec_workflow_job_event zero_event body = Inr event"
    and run: "run_state (serve_event E h rq event) (w\<lparr>w_outside := x\<rparr>) = ((202, ''queued''), w')"
    by (rule serve_http_event)
  from run obtain repository where
    target: "ev_installation_id event = h_installation_id h"
      "repository = to_lower (ro_owner_login (ev_repo event) @ ''/'' @ ro_name (ev_repo event))"
      "repository \<in> set (h_allowed_repositories h)"
      "\<not> ro_private (ev_repo event) \<longrightarrow> repository \<in> set (h_allowed_public_repositories h)"
    and act: "run_state (serve_queued E h rq event (job_key repository (wj_id (ev_job event))))
        (w\<lparr>w_outside := x\<rparr>) = ((202, ''queued''), w') \<or>
      run_state (serve_completed E h event (job_key repository (wj_id (ev_job event))))
        (w\<lparr>w_outside := x\<rparr>) = ((202, ''queued''), w')"
    by (elim serve_event_target) blast
  have "snd (fst (run_state (serve_completed E h event key) v)) \<noteq> ''queued''" for key v
    by (auto simp: serve_completed_def accept_completion_def signal_def
        split: option.split sum.split prod.split bool.split)
  with act have "run_state (serve_queued E h rq event (job_key repository (wj_id (ev_job event))))
        (w\<lparr>w_outside := x\<rparr>) = ((202, ''queued''), w')" by (metis fst_conv snd_conv)
  note sq = serve_queued_admits [OF this, simplified world.select_convs world.update_convs]
  have same: "w_log (w\<lparr>w_outside := x\<rparr>) = w_log w" by simp
  from sq [unfolded same] obtain labels d now s es where
    adm: "authorize_labels h (wj_labels (ev_job event)) = Some (Inr labels)" "w_log w' = es @ w_log w"
      "\<not> ro_private (ev_repo event) \<longrightarrow> EvTrusted (ro_owner_login (ev_repo event))
         (ro_name (ev_repo event)) (wj_run_id (ev_job event)) (Inr True) \<in> set es"
    and cr: "create (queued_record h event (job_key repository (wj_id (ev_job event))) d labels) now s =
      (Inr True, w_store w')" by blast
  from create_admits [OF cr] obtain r where
    "lookup_record (w_store w') (job_key repository (wj_id (ev_job event))) = Some r"
    "r_status r = StatusPending" "r_labels r = labels" "r_provider r = h_provider h"
    by (simp add: queued_record_def)
  with front target adm show ?thesis by blast
qed

lemma create_healthy:
  assumes "healthy s" and "lookup_record s (r_key r) = None"
  shows "fst (create r now s) = Inr True"
proof -
  let ?r = "r\<lparr>r_status := StatusPending, r_created_at := now, r_updated_at := now\<rparr>"
  obtain e t where sv: "save_locked ((mark_dirty (r_key r) (put_record (r_key r) ?r s))\<lparr>fs_keys_dirty := True\<rparr>) = (e, t)"
    by fastforce
  then have "e = None" using save_healthy [of "(mark_dirty (r_key r) (put_record (r_key r) ?r s))\<lparr>fs_keys_dirty := True\<rparr>"] assms(1)
    by simp
  with sv assms(2) show ?thesis by (simp add: create_def Let_def)
qed

lemma sample_delivery_queued:
  "\<exists>w'. run_state (serve_http calm sample_handler sample_delivery) (world_of (store_with [])) =
     ((202, ''queued''), w')"
proof -
  define s :: file_store where "s = store_with []"
  define r where "r = queued_record sample_handler
     \<lparr>ev_action = ''queued'', ev_job = \<lparr>wj_run_id = 3, wj_id = 7, wj_name = '''',
        wj_labels = [''self-hosted''], wj_runner_id = 0, wj_runner_name = ''''\<rparr>,
      ev_repo = \<lparr>ro_full_name = ''acme/app'', ro_name = ''app'', ro_private = False, ro_owner_login = ''acme''\<rparr>,
      ev_installation_id = 5\<rparr> ''acme/app:7'' ''d1'' [''self-hosted'']"
  have "fst (create r 1000 s) = Inr True" by (rule create_healthy) (simp_all add: s_def)
  then obtain s' where "create r 1000 s = (Inr True, s')" by (metis prod.collapse)
  then show ?thesis
    by (simp add: serve_http_def serve_event_def serve_queued_def handle_queued_def Let_def run_simps
        sample_event sample_checks trusted_workflow_run_call_def r_def [symmetric] s_def [symmetric])
      (simp add: sample_delivery_def header_get_def sample_checks sample_event run_simps r_def [symmetric])
qed


theorem queued_means_authorized_witness:
  "\<exists>event r w'. unmarshal (e_json calm) dec_workflow_job_event zero_event ''{}'' = Inr event \<and>
     run_state (serve_http calm sample_handler sample_delivery) (world_of (store_with [])) =
       ((202, ''queued''), w') \<and>
     lookup_record (w_store w') (job_key ''acme/app'' (wj_id (ev_job event))) = Some r \<and>
     r_status r = StatusPending \<and> r_labels r = [''self-hosted'']"
proof -
  obtain w' where run: "run_state (serve_http calm sample_handler sample_delivery) (world_of (store_with [])) =
       ((202, ''queued''), w')" using sample_delivery_queued by blast
  from queued_means_authorized [OF run] obtain body event labels r where
    ev: "read_body sample_delivery = Some body"
      "unmarshal (e_json calm) dec_workflow_job_event zero_event body = Inr event"
    and lb: "authorize_labels sample_handler (wj_labels (ev_job event)) = Some (Inr labels)"
    and r: "lookup_record (w_store w') (job_key (to_lower (ro_owner_login (ev_repo event) @ ''/'' @
        ro_name (ev_repo event))) (wj_id (ev_job event))) = Some r"
      "r_status r = StatusPending" "r_labels r = labels" by blast
  have "body = ''{}''" using ev(1) by (simp add: sample_checks)
  with ev(2) sample_event have event: "event = \<lparr>ev_action = ''queued'', ev_job = \<lparr>wj_run_id = 3, wj_id = 7, wj_name = '''',
        wj_labels = [''self-hosted''], wj_runner_id = 0, wj_runner_name = ''''\<rparr>,
      ev_repo = \<lparr>ro_full_name = ''acme/app'', ro_name = ''app'', ro_private = False, ro_owner_login = ''acme''\<rparr>,
      ev_installation_id = 5\<rparr>"
    by simp
  have "to_lower ''acme/app'' = ''acme/app''" by code_simp
  with ev lb r run show ?thesis by (auto simp: event sample_checks sample_event)
qed

end
