(* ===== verification/Controller_Log.thy ===== *)
theory Controller_Log
  imports Controller_Refinement
begin

text \<open>
  Reasoning about the order of calls. \<open>quiet q m\<close> says that a run of \<open>m\<close> adds only events with
  the property \<open>q\<close> to the log, whatever the store, the clients and the other goroutines do. Most
  parts of the worker are quiet in the sense of \<open>routine\<close>: they neither create an instance nor
  finish a deletion.
\<close>

section \<open>Events added by a computation\<close>

definition quiet :: "(event \<Rightarrow> bool) \<Rightarrow> ('x, 'a) act \<Rightarrow> bool" where
  "quiet q m \<longleftrightarrow> (\<forall>l. ensures w_log m (\<lambda>_. adds q l) l)"

lemma quiet_bind [intro!]: "quiet q m \<Longrightarrow> (\<And>a. quiet q (f a)) \<Longrightarrow> quiet q (State_Monad.bind m f)"
proof -
  assume m: "quiet q m" and f: "\<And>a. quiet q (f a)"
  have "ensures w_log m (\<lambda>a. ensures w_log (f a) (\<lambda>_. adds q l)) l" for l
  proof (rule ensures_mono)
    show "ensures w_log m (\<lambda>_. adds q l) l" using m by (simp add: quiet_def)
    show "ensures w_log (f a) (\<lambda>_. adds q l) t" if "adds q l t" for a t
    proof (rule ensures_mono)
      show "ensures w_log (f a) (\<lambda>_. adds q t) t" using f by (simp add: quiet_def)
    qed (rule adds_trans [OF that])
  qed
  then show ?thesis by (auto simp: quiet_def intro: ensures_bind)
qed

lemma quiet_step:
  "quiet q (return a)" "quiet q (outside g)" "quiet q (clock E)" "quiet q (ctx_err E c)"
  "quiet q signal" "quiet q (store_read E h)" "quiet q (store_get E key)" "quiet q (interleave E)"
  unfolding quiet_def by (auto intro!: ensures_intros)

lemmas [intro!] = quiet_step

lemma quiet_call [intro!]: "(\<And>a. q (ev a)) \<Longrightarrow> quiet q (call g ev)"
  unfolding quiet_def by (auto intro!: ensures_intros)

lemma quiet_store [intro!]:
  "(\<And>e. q (EvStore op e)) \<Longrightarrow> quiet q (store_do E op)"
  "(\<And>e. q (EvStore op e)) \<Longrightarrow> quiet q (store_call E op g)"
  "(\<And>e. q (EvStore op e)) \<Longrightarrow> (\<And>b. q (EvAnswer op b)) \<Longrightarrow> quiet q (store_ask E op g')"
  unfolding quiet_def by (auto intro!: ensures_intros)

lemma quiet_cases [intro!]:
  "(b \<Longrightarrow> quiet q m) \<Longrightarrow> (\<not> b \<Longrightarrow> quiet q n) \<Longrightarrow> quiet q (if b then m else n)"
  "quiet q m \<Longrightarrow> (\<And>a. quiet q (f a)) \<Longrightarrow> quiet q (case x of None \<Rightarrow> m | Some a \<Rightarrow> f a)"
  "(\<And>a. quiet q (g a)) \<Longrightarrow> (\<And>b. quiet q (h b)) \<Longrightarrow> quiet q (case y of Inl a \<Rightarrow> g a | Inr b \<Rightarrow> h b)"
  "(\<And>a c. quiet q (k a c)) \<Longrightarrow> quiet q (case p of (a, c) \<Rightarrow> k a c)"
  "quiet q m \<Longrightarrow> quiet q n \<Longrightarrow> quiet q (case d of True \<Rightarrow> m | False \<Rightarrow> n)"
  by (simp_all split: option.split sum.split prod.split bool.split)

lemma quiet_adds: "quiet q m \<Longrightarrow> ensures w_log m (\<lambda>_. adds q l) l"
  by (simp add: quiet_def)

text \<open>A quiet part of a longer computation.\<close>

lemma quiet_then:
  assumes "quiet q m" and "adds q l t" and "\<And>a l'. adds q l l' \<Longrightarrow> Q a l'"
  shows "ensures w_log m Q t"
  by (rule ensures_mono [OF quiet_adds [OF assms(1)]]) (rule assms(3), rule adds_trans [OF assms(2)])

lemma quiet_bind_then:
  assumes "quiet q m" and "adds q l t" and "\<And>a l'. adds q l l' \<Longrightarrow> ensures w_log (f a) Q l'"
  shows "ensures w_log (State_Monad.bind m f) Q t"
  by (rule ensures_bind) (rule quiet_then [OF assms])

section \<open>Routine events\<close>

fun routine :: "event \<Rightarrow> bool" where
  "routine (EvCreate p res) = False"
| "routine (EvStore (OpUpdate k (UFinishDeletedRunner q)) e) = False"
| "routine e = True"

lemma quiet_client [intro!]:
  "quiet routine (workflow_job_status_call E c o1 r i)" "quiet routine (generate_jit_call E c o1 r n g ls)"
  "quiet routine (remove_runner_call E c o1 r i)" "quiet routine (find_runner_call E c key)"
  "quiet routine (delete_runner_call E c d key)" "quiet routine (cleanup_runner_call E c key)"
  "quiet routine (cleanup_except_call f c key d)" "quiet routine (runner_absent_call f2 c d)"
  unfolding client_call_defs by (auto intro!: quiet_call)

lemma quiet_release_claim [intro!]: "quiet routine (release_claim_h E r kind)"
  by (auto simp: release_claim_h_def)

lemma quiet_mark_orphaned [intro!]: "quiet routine (mark_orphaned_h E r e)"
  by (auto simp: mark_orphaned_h_def Let_def)

lemma quiet_provision_failed [intro!]: "quiet routine (provision_failed E h r e)"
  by (auto simp: provision_failed_def cleanup_exhausted_provision_def remove_exhausted_jit_def
      record_provision_failure_def)

lemma quiet_demand [intro!]:
  "quiet routine (remove_idle_jit E c r)" "quiet routine (defer_demand_check E h r e)"
  "quiet routine (retire_provisioning E key)"
  by (auto simp: remove_idle_jit_def defer_demand_check_def retire_provisioning_def Let_def)

lemma quiet_retire [intro!]: "quiet routine (retire_idle_job E h r wrap)"
  by (auto simp: retire_idle_job_def)

lemma quiet_existing [intro!]: "quiet routine (provision_existing E h r existing)"
  by (auto simp: provision_existing_def)

lemma quiet_delete_failures [intro!]:
  "quiet routine (release_canceled_delete E r err)" "quiet routine (record_delete_failure E h r e)"
  "quiet routine (request_deletion E r)" "quiet routine (cleanup_deleted E r)"
  by (auto simp: release_canceled_delete_def record_delete_failure_def request_deletion_def
      cleanup_deleted_def)

lemma quiet_delete_paths [intro!]:
  "quiet routine (deletion_request_failed E h r e)" "quiet routine (confirm_absence E r)"
  "quiet routine (cleanup_failed E h r e)" "quiet routine (deregistration_failed E h r e)"
  "quiet routine (recheck_cleaned_runner_demand E r)" "quiet routine (recheck_failed E r e)"
  by (auto simp: deletion_request_failed_def confirm_absence_def cleanup_failed_def
      deregistration_failed_def recheck_cleaned_runner_demand_def recheck_failed_def Let_def)

section \<open>A property of every event and of the calls before it\<close>

primrec logged :: "(event \<Rightarrow> event list \<Rightarrow> bool) \<Rightarrow> event list \<Rightarrow> bool" where
  "logged P [] = True"
| "logged P (e # l) = (P e l \<and> logged P l)"

lemma logged_split: "logged P (late @ e # early) \<Longrightarrow> P e early"
  by (induction late) auto

lemma logged_append: "logged P l \<Longrightarrow> list_all q es \<Longrightarrow> (\<And>e l. q e \<Longrightarrow> P e l) \<Longrightarrow> logged P (es @ l)"
  by (induction es) auto

lemma logged_adds: "adds q l l' \<Longrightarrow> logged P l \<Longrightarrow> (\<And>e l. q e \<Longrightarrow> P e l) \<Longrightarrow> logged P l'"
  by (auto simp: adds_def logged_append)

lemma ensures_logged:
  assumes "quiet q m" and "\<And>e l. q e \<Longrightarrow> P e l" and "logged P l"
  shows "ensures w_log m (\<lambda>_. logged P) l"
  by (rule ensures_mono [OF quiet_adds [OF assms(1)]]) (rule logged_adds [OF _ assms(3,2)])

lemma ensures_cases:
  "(b \<Longrightarrow> ensures v m Q s) \<Longrightarrow> (\<not> b \<Longrightarrow> ensures v n Q s) \<Longrightarrow> ensures v (if b then m else n) Q s"
  "(x = None \<Longrightarrow> ensures v m Q s) \<Longrightarrow> (\<And>a. x = Some a \<Longrightarrow> ensures v (f a) Q s) \<Longrightarrow>
   ensures v (case x of None \<Rightarrow> m | Some a \<Rightarrow> f a) Q s"
  "(\<And>a. y = Inl a \<Longrightarrow> ensures v (g a) Q s) \<Longrightarrow> (\<And>c. y = Inr c \<Longrightarrow> ensures v (h c) Q s) \<Longrightarrow>
   ensures v (case y of Inl a \<Rightarrow> g a | Inr c \<Rightarrow> h c) Q s"
  by (simp_all split: option.split sum.split)

end
