(* ===== verification/Worker_Properties.thy ===== *)
theory Worker_Properties
  imports Controller_Log Controller_Samples
begin

text \<open>
  The order in which a worker calls GitHub, the provider and the store: an instance is created
  only for a registration on record and a job still queued, and a deletion is finished only once
  the provider and GitHub have let go of the runner.
\<close>

section \<open>Creating an instance\<close>

text \<open>What stands in the log when the provider is asked to create an instance for a record.\<close>

fun creation_ok :: "runner_record \<Rightarrow> event \<Rightarrow> event list \<Rightarrow> bool" where
  "creation_ok r (EvCreate p res) l =
    (\<exists>jit rest. p_job_key p = r_key r \<and> p_runner_jit_config p = jit_encoded_config jit \<and>
       l = EvJobStatus (r_owner r) (r_repository r) (r_job_id r) (Inr JobQueued) #
           EvStore (OpMarkJITCreated (r_key r) (jit_runner_id jit) (p_runner_name p)) None #
           EvJIT (r_owner r) (r_repository r) (p_runner_name p) (Inr jit) # rest \<and>
       EvFind (r_key r) (Inr None) \<in> set rest \<and>
       (owned_jit r \<longrightarrow>
          EvRemove (r_owner r) (r_repository r) (r_github_runner_id r) None \<in> set rest))"
| "creation_ok r e l = True"

lemma routine_creation: "routine e \<Longrightarrow> creation_ok r e l"
  by (cases e) auto

lemma ensures_quiet_creation:
  "quiet routine m \<Longrightarrow> logged (creation_ok r) l \<Longrightarrow> ensures w_log m (\<lambda>_. logged (creation_ok r)) l"
  by (rule ensures_logged [OF _ routine_creation])

text \<open>How a check of the demand ends.\<close>

definition checked_demand :: "runner_record \<Rightarrow> event list \<Rightarrow> bool \<Rightarrow> event list \<Rightarrow> bool" where
  "checked_demand r l queued l' \<longleftrightarrow>
    (if queued then l' = EvJobStatus (r_owner r) (r_repository r) (r_job_id r) (Inr JobQueued) # l
     else adds routine l l')"

lemma require_queued_job_log:
  "ensures w_log (require_queued_job E h r) (checked_demand r l) l"
proof -
  have no: "ensures w_log (return False) (checked_demand r l) t" if "adds routine l t" for t
    using that by (auto simp: checked_demand_def intro: ensures_return)
  have deferred: "ensures w_log (do { _ \<leftarrow> defer_demand_check E h r e; return False }) (checked_demand r l) t"
    if "adds routine l t" for e t
    by (rule quiet_bind_then [OF _ that]) (auto intro!: no)
  have retire: "ensures w_log (do { retired \<leftarrow> retire_idle_job E h r wrap;
      _ \<leftarrow> (if retired then signal else return ()); return False }) (checked_demand r l) t"
    if "adds routine l t" for wrap t
    by (rule quiet_bind_then [OF _ that], blast, rule quiet_bind_then [OF quiet_cases(1)]) (auto intro!: no)
  have retire': "ensures w_log (do { _ \<leftarrow> retire_idle_job E h r wrap; return False }) (checked_demand r l) t"
    if "adds routine l t" for wrap t
    by (rule quiet_bind_then [OF _ that]) (auto intro!: no)
  have yes: "ensures w_log (return True) (checked_demand r l)
      (EvJobStatus (r_owner r) (r_repository r) (r_job_id r) (Inr JobQueued) # l)"
    by (simp add: checked_demand_def ensures_return)
  show ?thesis
    unfolding require_queued_job_def workflow_job_status_call_def
    by (rule ensures_bind, rule ensures_log_store_get)
      (auto intro!: yes ensures_bind [OF ensures_log_call] deferred retire retire'
        split: bool.split sum.split)
qed


text \<open>The steps of \<open>provision\<close> up to the creation, each from the log that the step before left.\<close>

lemma provision_instance_log:
  assumes found: "EvFind (r_key r) (Inr None) \<in> set rest"
    and stale: "owned_jit r0 \<Longrightarrow> EvRemove (r_owner r) (r_repository r) (r_github_runner_id r0) None \<in> set rest"
    and same: "r_key r0 = r_key r" "r_owner r0 = r_owner r" "r_repository r0 = r_repository r"
      "r_job_id r0 = r_job_id r"
    and log: "logged (creation_ok r0) rest"
    and l: "l = EvStore (OpMarkJITCreated (r_key r) (jit_runner_id jit) name) None #
      EvJIT (r_owner r) (r_repository r) name (Inr jit) # rest"
  shows "ensures w_log (provision_instance E h r name jit) (\<lambda>_. logged (creation_ok r0)) l"
proof -
  have ok: "logged (creation_ok r0) l" using log by (simp add: l)
  note quietly = ensures_quiet_creation [where r = r0]
  have created: "ensures w_log (do {
       created \<leftarrow> create_runner_call E CtxWork (provision_params h r name jit);
       case created of
         Inl e \<Rightarrow> provision_failed E h r (ErrWrap ''create runner instance: '' e)
       | Inr inst \<Rightarrow> do {
           err \<leftarrow> store_do E (OpMarkProvisioned (r_key r) (ri_id inst) (jit_runner_id jit) name);
           case err of
             Some e \<Rightarrow> provision_failed E h r (ErrWrap ''persist provisioned runner: '' e)
           | None \<Rightarrow> signal } }) (\<lambda>_. logged (creation_ok r0))
      (EvJobStatus (r_owner r) (r_repository r) (r_job_id r) (Inr JobQueued) # l)"
    unfolding create_runner_call_def
    by (rule ensures_bind, rule ensures_log_call, rule quietly)
      (use ok same found stale in \<open>auto simp: provision_params_def l\<close>)
  show ?thesis
    unfolding provision_instance_def
    by (rule ensures_bind, rule ensures_mono [OF require_queued_job_log])
      (auto simp: checked_demand_def intro!: ensures_return created
        intro: logged_adds [OF _ ok routine_creation])
qed

lemma provision_jit_log:
  assumes found: "EvFind (r_key r) (Inr None) \<in> set rest"
    and stale: "owned_jit r \<Longrightarrow> EvRemove (r_owner r) (r_repository r) (r_github_runner_id r) None \<in> set rest"
    and log: "logged (creation_ok r) rest"
  shows "ensures w_log (provision_jit E h r name) (\<lambda>_. logged (creation_ok r)) rest"
proof -
  let ?r = "\<lambda>jit. r\<lparr>r_github_runner_id := jit_runner_id jit, r_github_runner_owned := True,
                  r_runner_name := name\<rparr>"
  note quietly = ensures_quiet_creation [where r = r]
  have inst: "ensures w_log (provision_instance E h (?r jit) name jit) (\<lambda>_. logged (creation_ok r))
      (EvStore (OpMarkJITCreated (r_key r) (jit_runner_id jit) name) None #
       EvJIT (r_owner r) (r_repository r) name (Inr jit) # rest)" for jit
    by (rule provision_instance_log [where rest = rest]) (use assms in simp_all)
  have unsaved: "ensures w_log (do { _ \<leftarrow> remove_runner_call E CtxCleanup (r_owner r) (r_repository r) i;
      provision_failed E h r e }) (\<lambda>_. logged (creation_ok r)) t"
    if "logged (creation_ok r) t" for i e t
    by (rule quietly [OF _ that]) auto
  show ?thesis
    unfolding provision_jit_def generate_jit_call_def
    by (rule ensures_bind, rule ensures_log_call)
      (auto intro!: quietly [OF quiet_provision_failed] ensures_bind [OF ensures_log_store_do] inst unsaved
        simp: log split: sum.split option.split)
qed

definition stale_removed :: "runner_record \<Rightarrow> event list \<Rightarrow> bool \<Rightarrow> event list \<Rightarrow> bool" where
  "stale_removed r l cleared l' \<longleftrightarrow> logged (creation_ok r) l' \<and> set l \<subseteq> set l' \<and>
    (cleared \<longrightarrow> owned_jit r \<longrightarrow>
       EvRemove (r_owner r) (r_repository r) (r_github_runner_id r) None \<in> set l')"

lemma remove_stale_jit_log:
  assumes "logged (creation_ok r) l"
  shows "ensures w_log (remove_stale_jit E h r) (stale_removed r l) l"
proof -
  have keeps: "stale_removed r l False t" if "adds routine l t" for t
    using logged_adds [OF that assms routine_creation] adds_set [OF that] by (simp add: stale_removed_def)
  have no: "ensures w_log (do { _ \<leftarrow> provision_failed E h r e; return False }) (stale_removed r l) t"
    if "adds routine l t" for e t
    by (rule quiet_bind_then [OF _ that]) (auto intro!: ensures_return keeps)
  have yes: "ensures w_log (return True) (stale_removed r l) t"
    if "adds routine l t" "owned_jit r \<Longrightarrow>
      EvRemove (r_owner r) (r_repository r) (r_github_runner_id r) None \<in> set t" for t
    using that keeps [OF that(1)] by (auto simp: stale_removed_def intro!: ensures_return)
  show ?thesis
    unfolding remove_stale_jit_def remove_runner_call_def
    by (auto intro!: yes ensures_bind [OF ensures_log_call] ensures_bind [OF ensures_log_store_do]
        no split: option.split)
qed

lemma provision_log:
  assumes start: "logged (creation_ok r) l0"
  shows "ensures w_log (provision E h r) (\<lambda>_. logged (creation_ok r)) l0"
proof -
  let ?found = "EvFind (r_key r) (Inr None)"
  note quietly = ensures_quiet_creation [where r = r]
  have jit: "ensures w_log (if \<not> cleared then return () else provision_jit E h r name)
      (\<lambda>_. logged (creation_ok r)) t"
    if "stale_removed r l cleared t" and "?found \<in> set l" for cleared name l t
    using that by (auto simp: stale_removed_def intro!: ensures_return provision_jit_log)
  have rest: "ensures w_log (if \<not> queued then return () else do {
             cleared \<leftarrow> remove_stale_jit E h r;
             if \<not> cleared then return () else provision_jit E h r name })
      (\<lambda>_. logged (creation_ok r)) t"
    if "checked_demand r (?found # l0) queued t" for queued name t
  proof -
    have log: "logged (creation_ok r) t"
    proof (cases queued)
      case True
      with that start show ?thesis by (simp add: checked_demand_def)
    next
      case False
      with that have "adds routine (?found # l0) t" by (simp add: checked_demand_def)
      from logged_adds [OF this _ routine_creation] start show ?thesis by simp
    qed
    have found: "queued \<Longrightarrow> ?found \<in> set t" using that by (simp add: checked_demand_def)
    show ?thesis
      by (auto intro!: ensures_return log ensures_bind ensures_mono [OF remove_stale_jit_log [OF log]]
          jit [OF _ found])
  qed
  show ?thesis
    unfolding provision_def Let_def find_runner_call_def
    by (rule ensures_bind, rule ensures_log_call)
      (auto intro!: quietly [OF quiet_provision_failed] quietly [OF quiet_existing]
        ensures_bind [of _ "require_queued_job E h r"]
        ensures_mono [OF require_queued_job_log] rest simp: start split: sum.split option.split)
qed


section \<open>Finishing a deletion\<close>

text \<open>The calls that a deletion must have made, the last one first.\<close>

definition deletion_requested :: "'x env \<Rightarrow> runner_record \<Rightarrow> event list" where
  "deletion_requested E r =
    (if cc_absent E = None then [EvDelete (r_instance_id r) (r_key r) None]
     else if r_deletion_accepted_id r \<noteq> r_instance_id r
     then [EvStore (OpMarkDeletionAccepted (r_key r) (r_instance_id r)) None,
           EvDelete (r_instance_id r) (r_key r) None]
     else [])"

definition absence_confirmed :: "'x env \<Rightarrow> runner_record \<Rightarrow> event list" where
  "absence_confirmed E r =
    (if cc_absent E = None then [] else [EvAbsent (r_instance_id r) (Inr True)])"

definition duplicates_cleaned :: "'x env \<Rightarrow> runner_record \<Rightarrow> event list" where
  "duplicates_cleaned E r =
    (if cc_absent E \<noteq> None \<and> cc_cleanup_except E \<noteq> None
     then [EvCleanupExcept (r_key r) (r_instance_id r) None] else [EvCleanup (r_key r) None])"

definition runner_deregistered :: "runner_record \<Rightarrow> event list" where
  "runner_deregistered r =
    (if owned_jit r
     then [EvRemove (r_owner r) (r_repository r) (r_github_runner_id r) None] else [])"

definition demand_rechecked :: "runner_record \<Rightarrow> bool \<Rightarrow> event list \<Rightarrow> bool" where
  "demand_rechecked r queued es \<longleftrightarrow>
    (es = [] \<and> \<not> queued \<or>
     (\<exists>s. es = [EvJobStatus (r_owner r) (r_repository r) (r_job_id r) (Inr s)] \<and>
        queued = (s = JobQueued) \<and> r_recheck_demand r \<and> \<not> r_job_completed r))"

definition gone :: "'x env \<Rightarrow> runner_record \<Rightarrow> event list" where
  "gone E r = runner_deregistered r @ duplicates_cleaned E r @ absence_confirmed E r @ deletion_requested E r"

fun finish_ok :: "'x env \<Rightarrow> runner_record \<Rightarrow> event \<Rightarrow> event list \<Rightarrow> bool" where
  "finish_ok E r (EvStore (OpUpdate k (UFinishDeletedRunner queued)) err) l =
    (k = r_key r \<and> (\<exists>es. l = es @ gone E r \<and> demand_rechecked r queued es))"
| "finish_ok E r e l = True"

lemma routine_finish: "routine e \<Longrightarrow> finish_ok E r e l"
  by (cases e rule: routine.cases) auto

lemma ensures_quiet_finish:
  "quiet routine m \<Longrightarrow> logged (finish_ok E r) l \<Longrightarrow> ensures w_log m (\<lambda>_. logged (finish_ok E r)) l"
  by (rule ensures_logged [OF _ routine_finish])

lemma logged_routine: "list_all routine l \<Longrightarrow> logged (finish_ok E r) l"
  by (induction l) (auto intro: routine_finish)

lemma list_all_gone [simp]:
  "list_all routine (deletion_requested E r)" "list_all routine (absence_confirmed E r)"
  "list_all routine (duplicates_cleaned E r)" "list_all routine (runner_deregistered r)"
  by (simp_all add: deletion_requested_def absence_confirmed_def duplicates_cleaned_def runner_deregistered_def)

text \<open>Each step of a deletion: on success it has made exactly its calls.\<close>

definition step_done :: "event list \<Rightarrow> event list \<Rightarrow> bool \<Rightarrow> event list \<Rightarrow> bool" where
  "step_done es l success l' \<longleftrightarrow> adds routine l l' \<and> (success \<longrightarrow> l' = es @ l)"

lemma done_then: "step_done es l b t \<Longrightarrow> b \<Longrightarrow> ensures w_log m Q (es @ l) \<Longrightarrow> ensures w_log m Q t"
  by (simp add: step_done_def)

lemma request_deletion_log:
  "ensures w_log (request_deletion E r) (\<lambda>err. step_done (deletion_requested E r) l (err = None)) l"
  unfolding request_deletion_def delete_runner_call_def
  by (auto simp: step_done_def deletion_requested_def
      intro!: ensures_return ensures_bind [OF ensures_log_call] ensures_log_call ensures_log_store_do)

lemma confirm_absence_log:
  "ensures w_log (confirm_absence E r) (step_done (absence_confirmed E r) l) l"
proof (cases "cc_absent E")
  case None
  then show ?thesis
    by (auto simp: confirm_absence_def step_done_def absence_confirmed_def intro!: ensures_return)
next
  case (Some f)
  let ?Q = "step_done (absence_confirmed E r) l"
  have no: "ensures w_log (return False) ?Q t" if "adds routine l t" for t
    using that by (auto simp: step_done_def intro!: ensures_return)
  have yes: "ensures w_log (return True) ?Q (EvAbsent (r_instance_id r) (Inr True) # l)"
    by (auto simp: step_done_def absence_confirmed_def Some intro!: ensures_return)
  have released: "ensures w_log (do { _ \<leftarrow> release_claim_h E r WorkDelete; return False }) ?Q t"
    if "adds routine l t" for t
    by (rule quiet_bind_then [OF _ that]) (auto intro!: no)
  have not_yet: "ensures w_log (do {
           released \<leftarrow> release_canceled_delete E r err;
           if released then return False
           else do {
             now \<leftarrow> clock E;
             state_err \<leftarrow> update E (r_key r) (UDeferDeletionConfirmation message (now + retry_delay 1));
             case state_err of
               None \<Rightarrow> return False
             | Some _ \<Rightarrow> do { _ \<leftarrow> release_claim_h E r WorkDelete; return False } } }) ?Q t"
    if "adds routine l t" for err message t
    by (rule quiet_bind_then [OF _ that])
      (auto intro!: no released ensures_bind [OF ensures_log_clock] ensures_bind [OF ensures_log_store_do]
        split: option.split)
  show ?thesis
    unfolding confirm_absence_def runner_absent_call_def Let_def
    by (auto simp: Some intro!: ensures_bind [OF ensures_log_call] yes not_yet)
qed

lemma cleanup_deleted_log:
  "ensures w_log (cleanup_deleted E r) (\<lambda>err. step_done (duplicates_cleaned E r) l (err = None)) l"
  unfolding cleanup_deleted_def cleanup_except_call_def cleanup_runner_call_def
  by (auto simp: step_done_def duplicates_cleaned_def intro!: ensures_log_call split: option.split)

lemma recheck_log:
  "ensures w_log (recheck_cleaned_runner_demand E r)
     (\<lambda>res l'. adds routine l l' \<and> (\<forall>q. res = Inr q \<longrightarrow> (\<exists>es. l' = es @ l \<and> demand_rechecked r q es))) l"
  unfolding recheck_cleaned_runner_demand_def workflow_job_status_call_def
  by (rule ensures_cases) (auto simp: demand_rechecked_def
      intro!: ensures_return ensures_bind [OF ensures_log_store_get] ensures_bind [OF ensures_log_call]
      split: bool.split sum.split)

lemma settle_deletion_log:
  assumes "l = gone E r"
  shows "ensures w_log (settle_deletion E h r) (\<lambda>_. logged (finish_ok E r)) l"
proof -
  have routine: "list_all routine l" by (simp add: assms gone_def)
  have finish: "ensures w_log (finish_deletion E h r q) (\<lambda>_. logged (finish_ok E r)) t"
    if "adds routine l t" and "\<exists>es. t = es @ l \<and> demand_rechecked r q es" for q t
  proof -
    note t = logged_adds [OF that(1) logged_routine [OF routine] routine_finish]
    have "ensures w_log (case restored of
       Inl e \<Rightarrow> do {
         now \<leftarrow> clock E;
         state_err \<leftarrow> update E (r_key r) (UMarkDeleteFailed (error_text e)
                        (now + retry_delay (r_delete_attempts r)) (h_max_attempts h));
         _ \<leftarrow> (case state_err of
                 Some _ \<Rightarrow> release_claim_h E r WorkDelete
               | None \<Rightarrow> return ());
         signal }
     | Inr was_restored \<Rightarrow> if was_restored then signal else return ()) (\<lambda>_. logged (finish_ok E r))
       (EvStore (OpUpdate (r_key r) (UFinishDeletedRunner q)) err # t)" for restored err
    proof (rule ensures_quiet_finish)
      show "logged (finish_ok E r) (EvStore (OpUpdate (r_key r) (UFinishDeletedRunner q)) err # t)"
        using t that(2) by (simp add: assms)
    qed auto
    then show ?thesis
      unfolding finish_deletion_def by (intro ensures_bind ensures_log_store_call) auto
  qed
  show ?thesis
    unfolding settle_deletion_def
  proof (rule ensures_bind, rule ensures_mono [OF recheck_log], rule ensures_cases(3))
    fix res :: "go_error + bool" and t e
    assume t: "adds routine l t \<and> (\<forall>q. res = Inr q \<longrightarrow> (\<exists>es. t = es @ l \<and> demand_rechecked r q es))"
    then have "adds routine l t" by simp
    from logged_adds [OF this logged_routine [OF routine] routine_finish]
    show "ensures w_log (recheck_failed E r e) (\<lambda>_. logged (finish_ok E r)) t"
      by (rule ensures_quiet_finish [OF quiet_delete_paths(6)])
    show "ensures w_log (finish_deletion E h r q) (\<lambda>_. logged (finish_ok E r)) t" if "res = Inr q" for q
    proof (rule finish)
      show "adds routine l t" using t by simp
      show "\<exists>es. t = es @ l \<and> demand_rechecked r q es" using t that by simp
    qed
  qed
qed

lemma delete_log: "ensures w_log (delete_h E h r) (\<lambda>_. logged (finish_ok E r)) []"
proof -
  let ?fin = "\<lambda>_ :: unit. logged (finish_ok E r)"
  have quietly: "ensures w_log m ?fin t" if "quiet routine m" "step_done es l b t" "list_all routine l" for m es l b t
    using that logged_adds [OF _ logged_routine [OF that(3)] routine_finish]
    by (auto simp: step_done_def intro!: ensures_quiet_finish)
  have settle: "ensures w_log (if owned_jit r then do {
                 rm \<leftarrow> remove_jit E CtxWork r;
                 case rm of
                   Some e \<Rightarrow> deregistration_failed E h r e
                 | None \<Rightarrow> settle_deletion E h r }
               else settle_deletion E h r) ?fin
      (duplicates_cleaned E r @ absence_confirmed E r @ deletion_requested E r)"
    unfolding remove_runner_call_def
    by (auto intro!: ensures_bind [OF ensures_log_call] settle_deletion_log logged_routine
        ensures_quiet_finish [OF quiet_delete_paths(4)] simp: gone_def runner_deregistered_def
        split: option.split)
  have clean: "ensures w_log (do {
           err \<leftarrow> cleanup_deleted E r;
           case err of
             Some e \<Rightarrow> cleanup_failed E h r e
           | None \<Rightarrow>
               if owned_jit r then do {
                 rm \<leftarrow> remove_jit E CtxWork r;
                 case rm of
                   Some e \<Rightarrow> deregistration_failed E h r e
                 | None \<Rightarrow> settle_deletion E h r }
               else settle_deletion E h r }) ?fin (absence_confirmed E r @ deletion_requested E r)"
    by (rule ensures_bind, rule ensures_mono [OF cleanup_deleted_log], rule ensures_cases(2))
      (erule done_then [OF _ _ settle], assumption, rule quietly [OF quiet_delete_paths(3)], assumption, simp)
  have confirm: "ensures w_log (do {
         absent \<leftarrow> confirm_absence E r;
         if \<not> absent then return ()
         else do {
           err \<leftarrow> cleanup_deleted E r;
           case err of
             Some e \<Rightarrow> cleanup_failed E h r e
           | None \<Rightarrow>
               if owned_jit r then do {
                 rm \<leftarrow> remove_jit E CtxWork r;
                 case rm of
                   Some e \<Rightarrow> deregistration_failed E h r e
                 | None \<Rightarrow> settle_deletion E h r }
               else settle_deletion E h r } }) ?fin (deletion_requested E r @ [])"
    unfolding append_Nil2
    by (rule ensures_bind, rule ensures_mono [OF confirm_absence_log], rule ensures_cases(1))
      (rule quietly [OF quiet_step(1)], assumption, simp, erule done_then [OF _ _ clean], simp)
  show ?thesis
    unfolding delete_h_def
    by (rule ensures_bind, rule ensures_mono [OF request_deletion_log], rule ensures_cases(2))
      (erule done_then [OF _ _ confirm], assumption,
        rule quietly [OF quiet_delete_paths(1)], assumption, simp)
qed


section \<open>The properties\<close>

definition no_create :: "event \<Rightarrow> bool" where
  "no_create e \<longleftrightarrow> (case e of EvCreate p res \<Rightarrow> False | _ \<Rightarrow> True)"

definition no_finish :: "event \<Rightarrow> bool" where
  "no_finish e \<longleftrightarrow> (case e of EvStore (OpUpdate k (UFinishDeletedRunner q)) err \<Rightarrow> False | _ \<Rightarrow> True)"

lemma quiet_mono: "quiet q m \<Longrightarrow> (\<And>e. q e \<Longrightarrow> q' e) \<Longrightarrow> quiet q' m"
  by (auto simp: quiet_def intro: ensures_mono adds_mono)

lemma routine_no: "routine e \<Longrightarrow> no_create e" "routine e \<Longrightarrow> no_finish e"
  by (cases e rule: routine.cases; simp add: no_create_def no_finish_def)+

lemma quiet_no_create: "quiet routine m \<Longrightarrow> quiet no_create m"
  using quiet_mono routine_no(1) by metis

lemma quiet_no_finish: "quiet routine m \<Longrightarrow> quiet no_finish m"
  using quiet_mono routine_no(2) by metis

lemma quiet_delete_h: "quiet no_create (delete_h E h r)"
proof -
  have remove: "quiet no_create (remove_jit E c r)" for c by (intro quiet_no_create) auto
  have release: "quiet no_create (release_claim_h E r k)" for k by (intro quiet_no_create) auto
  have finish: "quiet no_create (finish_deletion E h r q)" for q
    unfolding finish_deletion_def
    by (intro quiet_bind quiet_cases quiet_store quiet_step release) (simp_all add: no_create_def)
  have settle: "quiet no_create (settle_deletion E h r)"
    unfolding settle_deletion_def
    by (intro quiet_bind quiet_cases finish quiet_no_create quiet_delete_paths)
  show ?thesis
    unfolding delete_h_def
    by (intro quiet_bind quiet_cases remove quiet_step settle)
      (simp_all add: quiet_no_create quiet_delete_failures quiet_delete_paths)
qed

lemma quiet_provision: "quiet no_finish (provision E h r)"
proof -
  have create: "quiet no_finish (create_runner_call E c p)" for c p
    unfolding create_runner_call_def by (intro quiet_call) (simp add: no_finish_def)
  have demand: "quiet routine (require_queued_job E h r)" for r
    unfolding require_queued_job_def by auto
  have inst: "quiet no_finish (provision_instance E h r name jit)" for r name jit
    unfolding provision_instance_def
    by (intro quiet_bind quiet_cases create quiet_step quiet_store)
      (simp_all add: no_finish_def quiet_no_finish [OF quiet_provision_failed] quiet_no_finish [OF demand])
  have "quiet no_finish (provision_jit E h r name)" for name
    unfolding provision_jit_def
    by (intro quiet_bind quiet_cases inst quiet_step quiet_store)
      (simp_all add: no_finish_def quiet_no_finish [OF quiet_provision_failed]
        quiet_no_finish [OF quiet_client(2)] quiet_no_finish [OF quiet_client(3)])
  moreover have "quiet routine (remove_stale_jit E h r)"
    unfolding remove_stale_jit_def by auto
  ultimately show ?thesis
    unfolding provision_def Let_def
    by (intro quiet_bind quiet_cases quiet_step)
      (simp_all add: quiet_no_finish [OF quiet_provision_failed] quiet_no_finish [OF quiet_existing]
        quiet_no_finish [OF demand] quiet_no_finish [OF quiet_client(4)] quiet_no_finish)
qed

lemma no_create_ok: "no_create e \<Longrightarrow> creation_ok r e l"
  by (cases e) (auto simp: no_create_def)

lemma no_finish_ok: "no_finish e \<Longrightarrow> finish_ok E r e l"
  by (cases "(E, r, e, l)" rule: finish_ok.cases) (auto simp: no_finish_def)

lemma process_log:
  "logged (creation_ok r) l \<Longrightarrow> ensures w_log (process E h r kind) (\<lambda>_. logged (creation_ok r)) l"
  "ensures w_log (process E h r kind) (\<lambda>_. logged (finish_ok E r)) []"
proof -
  have del: "ensures w_log (delete_h E h r) (\<lambda>_. logged (creation_ok r)) l" if "logged (creation_ok r) l"
    by (rule ensures_logged [where q = no_create]) (simp_all add: quiet_delete_h no_create_ok that)
  have prov: "ensures w_log (provision E h r) (\<lambda>_. logged (finish_ok E r)) []"
    by (rule ensures_logged [where q = no_finish]) (simp_all add: quiet_provision no_finish_ok)
  have mismatch: "quiet routine (do { _ \<leftarrow> mark_orphaned_h E r e; return () })" for e by auto
  show "ensures w_log (process E h r kind) (\<lambda>_. logged (creation_ok r)) l" if "logged (creation_ok r) l"
    unfolding process_def
    by (intro ensures_bind [OF ensures_log_ctx] ensures_cases(1))
      (simp_all add: that ensures_quiet_creation [OF quiet_release_claim] ensures_quiet_creation [OF mismatch]
        ensures_return provision_log del split: work_kind.split)
  show "ensures w_log (process E h r kind) (\<lambda>_. logged (finish_ok E r)) []"
    unfolding process_def
    by (intro ensures_bind [OF ensures_log_ctx] ensures_cases(1))
      (simp_all add: ensures_quiet_finish [OF quiet_release_claim] ensures_quiet_finish [OF mismatch]
        ensures_return prov delete_log split: work_kind.split)
qed


text \<open>What a worker knows of the work it has claimed.\<close>

lemma claim_work_run:
  assumes ready: "store_ready (w_store w)" and others: "others_satisfy E op_on_job"
    and run: "run_state (claim_work E h) w = (claimed, v)"
  shows "claimed = Inr (Some (r, WorkProvision)) \<Longrightarrow>
      lookup_record (w_store v) (r_key r) = Some r \<and> r_claimed_work r = WorkProvision \<and>
      r_status r = StatusProvisioning \<and> 1 \<le> r_attempts r \<and> r_attempts r \<le> h_max_attempts h"
    and "\<exists>dead. w_log v = EvStore (OpClaimNext dead (h_max_attempts h)) (failure claimed) # w_log w"
proof -
  obtain dead x0 where d: "e_ctx_err E CtxWorker (w_outside w) = (dead, x0)" by fastforce
  obtain ops x where o: "e_others E x0 = (ops, x)" by fastforce
  obtain now y where n: "e_now E x = (now, y)" by fastforce
  define s where "s = exec_ops ops (w_store w)"
  obtain res s' where c: "claim_next dead now (h_max_attempts h) s = (res, s')" by fastforce
  have v: "claimed = res" "w_store v = s'"
    "w_log v = EvStore (OpClaimNext dead (h_max_attempts h)) (failure claimed) # w_log w"
    using run d o n c by (auto simp: claim_work_def run_simps s_def)
  then show "\<exists>dead. w_log v = EvStore (OpClaimNext dead (h_max_attempts h)) (failure claimed) # w_log w"
    by blast
  have "\<forall>(now, op) \<in> set ops. op_on_job op"
    using others o by (metis others_satisfy_def fst_conv)
  with ready have "reaches (w_store w) s" by (auto simp: reaches_def s_def)
  then have inv: "store_inv s" "cache_ok s" using reaches_ready by (auto simp: store_ready_def)
  show "lookup_record (w_store v) (r_key r) = Some r \<and> r_claimed_work r = WorkProvision \<and>
      r_status r = StatusProvisioning \<and> 1 \<le> r_attempts r \<and> r_attempts r \<le> h_max_attempts h"
    if "claimed = Inr (Some (r, WorkProvision))"
  proof -
    from c v(1) that have cl: "claim_next dead now (h_max_attempts h) s = (Inr (Some (r, WorkProvision)), s')"
      by simp
    from claimed_record [OF inv cl] obtain key r0 where r0: "lookup_record s key = Some r0"
      and r: "lookup_record s' key = Some r" "r_claimed_work r = WorkProvision"
        "r_status r = StatusProvisioning" "r_attempts r = r_attempts r0 + 1"
        "r_attempts r \<le> h_max_attempts h" by blast
    have "record_inv r0" using inv(1) r0 by (auto simp: store_inv_def dest: records_invD)
    then have "0 \<le> r_attempts r0" by (simp add: record_inv_def)
    moreover have "r_key r = key"
      using claim_next_spec(1) [OF inv cl] r(1) by (auto simp: store_inv_def dest: records_invD)
    ultimately show ?thesis using r v(2) by simp
  qed
qed

lemma work_on_claim_log:
  assumes "list_all no_create l"
  shows "ensures w_log (work_on_claim E h (Inr (Some (r, kind)))) (\<lambda>_. logged (creation_ok r)) l"
    and "(\<nexists>r. claimed = Inr (Some (r, WorkProvision))) \<Longrightarrow>
      ensures w_log (work_on_claim E h claimed) (\<lambda>_. list_all no_create) l"
proof -
  have ok: "logged (creation_ok r) l"
    using assms logged_append [of "creation_ok r" "[]" no_create l] no_create_ok by simp
  have release: "ensures w_log (do { _ \<leftarrow> release_claim_h E r kind; return False }) (\<lambda>_. logged (creation_ok r)) l"
    by (rule ensures_quiet_creation [OF _ ok]) auto
  show "ensures w_log (work_on_claim E h (Inr (Some (r, kind)))) (\<lambda>_. logged (creation_ok r)) l"
    unfolding work_on_claim_def
    by (auto intro!: ensures_bind [OF ensures_log_ctx] ensures_cases(1) release
        ensures_bind [OF ensures_mono [OF process_log(1) [OF ok]]] ensures_return)
  have wait: "quiet no_create (wait_for_work E)"
    unfolding wait_for_work_def quiet_def by (auto simp: ensures_def run_simps split: prod.splits if_splits)
  have mismatch: "quiet no_create (mark_orphaned_h E q e)" for q e
    by (intro quiet_no_create) auto
  have "quiet no_create (process E h q k)" if "k \<noteq> WorkProvision" for q k
    unfolding process_def using that
    by (intro quiet_bind quiet_cases(1) quiet_step)
      (simp_all add: quiet_no_create [OF quiet_release_claim] mismatch quiet_step quiet_delete_h
        split: work_kind.split)
  then have quiet: "quiet no_create (work_on_claim E h claimed)" if "\<nexists>r. claimed = Inr (Some (r, WorkProvision))"
    using that wait unfolding work_on_claim_def
    by (auto simp: quiet_no_create [OF quiet_release_claim] split: sum.split option.split)
  show "ensures w_log (work_on_claim E h claimed) (\<lambda>_. list_all no_create) l"
    if "\<nexists>r. claimed = Inr (Some (r, WorkProvision))"
    by (rule ensures_mono [OF quiet_adds [OF quiet [OF that]]]) (use assms in \<open>auto simp: adds_def\<close>)
qed

text \<open>C23: A worker asks the provider for an instance only for the job it has claimed, and only
for a registration on record and a job that is still queued. The record stands in the store with
the claim and an attempt within the limit; right before the call GitHub has answered that its job
is queued, before that the store has recorded the runner id of the configuration in the request, and
before that GitHub issued this configuration; earlier in the same iteration the provider had no
instance for the job and a registration of an earlier attempt was removed.\<close>

theorem create_needs_demand:
  assumes "store_ready (w_store w)" and "others_satisfy E op_on_job"
    and "run_state (claim_work E h) (w\<lparr>w_log := []\<rparr>) = (claimed, v)"
    and "run_state (work_on_claim E h claimed) v = (go_on, w')"
    and "w_log w' = late @ EvCreate p res # early"
  shows "\<exists>r jit rest. claimed = Inr (Some (r, WorkProvision)) \<and>
    lookup_record (w_store v) (r_key r) = Some r \<and> r_claimed_work r = WorkProvision \<and>
    r_status r = StatusProvisioning \<and> 1 \<le> r_attempts r \<and> r_attempts r \<le> h_max_attempts h \<and>
    p_job_key p = r_key r \<and> p_runner_jit_config p = jit_encoded_config jit \<and>
    early = EvJobStatus (r_owner r) (r_repository r) (r_job_id r) (Inr JobQueued) #
      EvStore (OpMarkJITCreated (r_key r) (jit_runner_id jit) (p_runner_name p)) None #
      EvJIT (r_owner r) (r_repository r) (p_runner_name p) (Inr jit) # rest \<and>
    EvFind (r_key r) (Inr None) \<in> set rest \<and>
    (owned_jit r \<longrightarrow> EvRemove (r_owner r) (r_repository r) (r_github_runner_id r) None \<in> set rest)"
proof -
  have ready: "store_ready (w_store (w\<lparr>w_log := []\<rparr>))" using assms(1) by simp
  note claim = claim_work_run [OF ready assms(2,3)]
  from claim(2) have start: "list_all no_create (w_log v)" by (auto simp: no_create_def)
  note log = work_on_claim_log [OF start]
  obtain r where r: "claimed = Inr (Some (r, WorkProvision))"
  proof (cases "\<exists>r. claimed = Inr (Some (r, WorkProvision))")
    case False
    have "list_all no_create (w_log w')" by (rule ensuresD [OF log(2) [OF False] assms(4)])
    with assms(5) show ?thesis by (simp add: no_create_def)
  qed (use that in blast)
  have "logged (creation_ok r) (w_log w')"
    by (rule ensuresD [OF log(1) assms(4) [unfolded r]])
  from logged_split [OF this [unfolded assms(5)]] claim(1) [OF r] r show ?thesis by auto
qed


section \<open>Examples\<close>

text \<open>A provider whose every create call fails.\<close>

definition no_capacity :: "unit env" where
  "no_capacity = calm\<lparr>cc_create := \<lambda>c p x. (Inl (ErrText ''no capacity''), x)\<rparr>"

abbreviation sample_claimed :: runner_record where
  "sample_claimed \<equiv> claimed_sample 1000"

lemma sample_claimed_simps [simp]:
  "r_provider (claimed_sample t) = ''digitalocean''" "r_owner (claimed_sample t) = ''acme''"
  "r_repository (claimed_sample t) = ''app''" "r_job_id (claimed_sample t) = 7"
  "r_key (claimed_sample t) = ''acme/app/7''" "r_github_runner_owned (claimed_sample t) = False"
  "r_attempts (claimed_sample t) = 1" "r_job_completed (claimed_sample t) = False"
  "retired (claimed_sample t) = False"
  by (simp_all add: claimed_sample_def sample_defs)

lemma one_record_clean: "record_inv r \<Longrightarrow> clean_ok (one_record r)"
  using one_record_inv by (simp add: store_inv_def)

lemma sample_registration:
  assumes "healthy s" and "clean_ok s" and "map_of (fs_records s) = [''acme/app/7'' \<mapsto> sample_claimed]"
  shows "\<exists>s' r'. mark_jit_created ''acme/app/7'' 42 nm 1000 s = (None, s') \<and>
     lookup_record s' ''acme/app/7'' = Some r' \<and> \<not> r_job_completed r'"
proof -
  have look: "lookup_record s ''acme/app/7'' = Some sample_claimed" using assms(3) by simp
  from healthy_jit [OF assms(1) this] obtain s' where
    run: "mark_jit_created ''acme/app/7'' 42 nm 1000 s = (None, s')" by blast
  have mk: "live_marker s (completion_marker_key (r_owner sample_claimed) (r_repository sample_claimed) 42) = None"
    by (simp add: assms(3) live_marker_def completion_marker_key_def completion_marker_prefix_def)
  have "\<exists>r'. lookup_record s' ''acme/app/7'' = Some r' \<and> \<not> r_job_completed r'"
    using mark_jit_created_cases [OF run assms(2)]
  proof cases
    case (3 r m)
    then have r: "r = sample_claimed" and m: "m = None" using look mk by auto
    show ?thesis using 3(6) unfolding r m
      by (simp add: jit_edits_def jit_result_def register_jit_def)
  qed (use look in simp_all)
  with run show ?thesis by blast
qed

lemma no_capacity_simps [simp]:
  "e_now no_capacity x = (1000, x)" "e_others no_capacity x = ([], x)"
  "e_ctx_err no_capacity c x = (None, x)" "e_sha256 no_capacity = e_sha256 calm"
  "gc_job_status no_capacity c owner repo i x = (Inr JobQueued, x)"
  "gc_jit_config no_capacity c owner repo name g ls x =
     (Inr \<lparr>jit_runner_id = 42, jit_encoded_config = ''abcd''\<rparr>, x)"
  "cc_find no_capacity c key x = (Inr None, x)"
  "cc_create no_capacity c p x = (Inl (ErrText ''no capacity''), x)"
  by (simp_all add: no_capacity_def)

lemma sample_demand:
  assumes "lookup_record (w_store w) (r_key r) = Some q" and "\<not> r_job_completed q"
  shows "run_state (require_queued_job no_capacity h r) w =
    (True, w\<lparr>w_log := EvJobStatus (r_owner r) (r_repository r) (r_job_id r) (Inr JobQueued) # w_log w\<rparr>)"
  using assms by (simp add: require_queued_job_def run_simps client_call_defs get_def)

lemma log_grows: "quiet q m \<Longrightarrow> \<exists>late. w_log (snd (run_state m w)) = late @ w_log w"
  by (metis adds_def ensuresD quiet_adds prod.collapse)

lemma sample_creation:
  assumes "lookup_record (w_store w) (r_key r) = Some q" and "\<not> r_job_completed q"
  shows "\<exists>late p res early. w_log (snd (run_state (provision_instance no_capacity h r name jit) w)) =
    late @ EvCreate p res # early"
proof -
  let ?ev = "EvCreate (provision_params h r name jit) (Inl (ErrText ''no capacity''))"
  define v where "v = w\<lparr>w_log := ?ev # EvJobStatus (r_owner r) (r_repository r) (r_job_id r) (Inr JobQueued) # w_log w\<rparr>"
  have "run_state (provision_instance no_capacity h r name jit) w =
    run_state (provision_failed no_capacity h r (ErrWrap ''create runner instance: '' (ErrText ''no capacity''))) v"
    by (cases w) (use assms in \<open>simp add: provision_instance_def sample_demand create_runner_call_def run_simps v_def\<close>)
  moreover obtain late where "w_log (snd (run_state (provision_failed no_capacity h r
      (ErrWrap ''create runner instance: '' (ErrText ''no capacity''))) v)) = late @ w_log v"
    using log_grows [OF quiet_provision_failed] by blast
  ultimately show ?thesis by (auto simp: v_def)
qed

theorem create_needs_demand_witness:
  "\<exists>v w' late p res early jit rest.
     run_state (claim_work no_capacity sample_handler)
       ((world_of (one_record sample_pending))\<lparr>w_log := []\<rparr>) = (Inr (Some (sample_claimed, WorkProvision)), v) \<and>
     run_state (work_on_claim no_capacity sample_handler (Inr (Some (sample_claimed, WorkProvision)))) v =
       (True, w') \<and>
     w_log w' = late @ EvCreate p res # early \<and> p_job_key p = ''acme/app/7'' \<and>
     early = EvJobStatus ''acme'' ''app'' 7 (Inr JobQueued) #
       EvStore (OpMarkJITCreated ''acme/app/7'' (jit_runner_id jit) (p_runner_name p)) None #
       EvJIT ''acme'' ''app'' (p_runner_name p) (Inr jit) # rest"
proof -
  let ?w = "(world_of (one_record sample_pending))\<lparr>w_log := []\<rparr>"
  let ?claimed = "Inr (Some (sample_claimed, WorkProvision)) :: go_error + (runner_record \<times> work_kind) option"
  let ?p = "process no_capacity sample_handler sample_claimed WorkProvision"
  let ?m = "work_on_claim no_capacity sample_handler ?claimed"
  obtain s where claim: "claim_next None 1000 5 (one_record sample_pending) =
      (Inr (Some (sample_claimed, WorkProvision)), s)"
    and s: "healthy s" "clean_ok s" "map_of (fs_records s) = [''acme/app/7'' \<mapsto> sample_claimed]"
    by (rule sample_claim_at [of 1000 5]) simp_all
  define v where "v = \<lparr>w_store = s, w_outside = (), w_notify = False,
    w_log = [EvStore (OpClaimNext None 5) None]\<rparr>"
  have claimed: "run_state (claim_work no_capacity sample_handler) ?w = (?claimed, v)"
    by (simp add: claim_work_def run_simps claim v_def world_of_def)
  define nm where "nm = runner_name (e_sha256 calm) ''app'' 7"
  obtain s' r' where jit: "mark_jit_created ''acme/app/7'' 42 nm 1000 s = (None, s')"
    and r': "lookup_record s' ''acme/app/7'' = Some r'" "\<not> r_job_completed r'"
    using sample_registration [OF s] by blast
  have look: "lookup_record (w_store u) (r_key sample_claimed) = Some sample_claimed"
    if "w_store u = s" for u :: "unit world"
    using that s(3) by simp
  define r where "r = sample_claimed\<lparr>r_github_runner_id := 42, r_github_runner_owned := True, r_runner_name := nm\<rparr>"
  define u where "u = \<lparr>w_store = s', w_outside = (), w_notify = False,
      w_log = [EvStore (OpMarkJITCreated ''acme/app/7'' 42 nm) None,
        EvJIT ''acme'' ''app'' nm (Inr \<lparr>jit_runner_id = 42, jit_encoded_config = ''abcd''\<rparr>),
        EvJobStatus ''acme'' ''app'' 7 (Inr JobQueued), EvFind ''acme/app/7'' (Inr None),
        EvStore (OpClaimNext None 5) None]\<rparr>"
  have run: "run_state ?p v = run_state (provision_instance no_capacity sample_handler r nm
        \<lparr>jit_runner_id = 42, jit_encoded_config = ''abcd''\<rparr>) u"
    by (simp add: process_def provision_def find_runner_call_def remove_stale_jit_def provision_jit_def
        generate_jit_call_def run_simps sample_demand [OF look] nm_def [symmetric] jit Let_def v_def
        r_def u_def)
  have "lookup_record (w_store u) (r_key r) = Some r'" using r' by (simp add: u_def r_def)
  from sample_creation [OF this r'(2)] obtain late p res early where
    split: "w_log (snd (run_state ?p v)) = late @ EvCreate p res # early" unfolding run by blast
  obtain w' where w': "run_state ?p v = ((), w')" by (cases "run_state ?p v") simp
  then have m: "run_state ?m v = (True, w')"
    by (simp add: work_on_claim_def run_simps v_def)
  from split w' have log: "w_log w' = late @ EvCreate p res # early" by simp
  have ready: "store_ready (w_store (world_of (one_record sample_pending)))"
    by (simp, rule one_record_ready) (simp_all add: sample_inv)
  have others: "others_satisfy no_capacity op_on_job" by (simp add: others_satisfy_def)
  from create_needs_demand [OF ready others claimed m log] obtain jit rest where
    "p_job_key p = ''acme/app/7''"
    "early = EvJobStatus ''acme'' ''app'' 7 (Inr JobQueued) #
       EvStore (OpMarkJITCreated ''acme/app/7'' (jit_runner_id jit) (p_runner_name p)) None #
       EvJIT ''acme'' ''app'' (p_runner_name p) (Inr jit) # rest" by auto
  with claimed m log show ?thesis by blast
qed


lemma sample_deleting_simps [simp]:
  "r_provider sample_deleting = ''digitalocean''" "r_owner sample_deleting = ''acme''"
  "r_repository sample_deleting = ''app''" "r_instance_id sample_deleting = ''i-1''"
  "r_github_runner_owned sample_deleting" "r_github_runner_id sample_deleting = 42"
  "r_recheck_demand sample_deleting = False"
  by (simp_all add: sample_defs)

text \<open>A deletion that the provider has accepted and now confirms.\<close>

definition sample_accepted :: runner_record where
  "sample_accepted = sample_deleting\<lparr>r_deletion_accepted_id := ''i-1''\<rparr>"

lemma sample_accepted_simps [simp]:
  "r_provider sample_accepted = ''digitalocean''" "r_owner sample_accepted = ''acme''"
  "r_repository sample_accepted = ''app''" "r_instance_id sample_accepted = ''i-1''"
  "r_github_runner_owned sample_accepted" "r_github_runner_id sample_accepted = 42"
  "r_recheck_demand sample_accepted = False" "r_key sample_accepted = ''acme/app/7''"
  "r_deletion_accepted_id sample_accepted = ''i-1''"
  by (simp_all add: sample_accepted_def)


end
