(* ===== verification/Worker_Progress.thy ===== *)
theory Worker_Progress
  imports Worker_Properties
begin

text \<open>
  Progress of the workers: on a store whose saves succeed, processing a claimed record ends with
  the claim given up, whatever the provider, GitHub and the contexts do. \<open>leads J m K\<close> says that a
  run of \<open>m\<close> from a store satisfying \<open>J\<close> ends with a result \<open>a\<close> and a store satisfying \<open>K a\<close>.
\<close>

section \<open>Reasoning about the store\<close>

definition leads ::
    "(file_store \<Rightarrow> bool) \<Rightarrow> ('x, 'a) act \<Rightarrow> ('a \<Rightarrow> file_store \<Rightarrow> bool) \<Rightarrow> bool" where
  "leads J m K \<longleftrightarrow> (\<forall>s. J s \<longrightarrow> ensures w_store m K s)"

lemma leads_return: "(\<And>s. J s \<Longrightarrow> K a s) \<Longrightarrow> leads J (return a) K"
  by (simp add: leads_def ensures_return)

lemma leads_bind: "leads J m K \<Longrightarrow> (\<And>a. leads (K a) (f a) L) \<Longrightarrow> leads J (State_Monad.bind m f) L"
  unfolding leads_def by (intro allI impI ensures_bind) (rule ensures_mono, blast+)

lemma leads_mono: "leads J m K \<Longrightarrow> (\<And>s. J' s \<Longrightarrow> J s) \<Longrightarrow> (\<And>a s. K a s \<Longrightarrow> K' a s) \<Longrightarrow> leads J' m K'"
  unfolding leads_def by (intro allI impI) (rule ensures_mono, blast+)

lemma leads_cases:
  "(b \<Longrightarrow> leads J m K) \<Longrightarrow> (\<not> b \<Longrightarrow> leads J n K) \<Longrightarrow> leads J (if b then m else n) K"
  "(x = None \<Longrightarrow> leads J m K) \<Longrightarrow> (\<And>a. x = Some a \<Longrightarrow> leads J (f a) K) \<Longrightarrow>
   leads J (case x of None \<Rightarrow> m | Some a \<Rightarrow> f a) K"
  "(\<And>a. y = Inl a \<Longrightarrow> leads J (g a) K) \<Longrightarrow> (\<And>c. y = Inr c \<Longrightarrow> leads J (h c) K) \<Longrightarrow>
   leads J (case y of Inl a \<Rightarrow> g a | Inr c \<Rightarrow> h c) K"
  "(\<And>a c. leads J (k a c) K) \<Longrightarrow> leads J (case p of (a, c) \<Rightarrow> k a c) K"
  "leads J m K \<Longrightarrow> leads J n K \<Longrightarrow> leads J (case d of True \<Rightarrow> m | False \<Rightarrow> n) K"
  by (simp_all split: option.split sum.split prod.split bool.split)

text \<open>What does not touch the store.\<close>

lemma leads_aside:
  "leads J (outside g) (\<lambda>_. J)" "leads J (clock E) (\<lambda>_. J)" "leads J (ctx_err E c) (\<lambda>_. J)"
  "leads J signal (\<lambda>_. J)" "leads J (call g' ev) (\<lambda>_. J)"
  unfolding leads_def
  by (auto simp: ensures_def run_simps split: prod.splits)

abbreviation alone :: "'x env \<Rightarrow> bool" where
  "alone E \<equiv> others_satisfy E (\<lambda>_. False)"

lemma alone_run:
  assumes "alone E" shows "exec_ops (fst (e_others E x)) s = s"
proof -
  have "fst (e_others E x) = []"
    using assms by (cases "fst (e_others E x)") (simp_all add: others_satisfy_def split_paired_all, metis list.set_intros(1))
  then show ?thesis by simp
qed

lemma alone_others: "alone E \<Longrightarrow> e_others E x = (ops, y) \<Longrightarrow> exec_ops ops s = s"
  using alone_run [of E x s] by simp

lemma leads_store_do:
  assumes "alone E" and "\<And>now s err s'. J s \<Longrightarrow> exec_op now op s = (err, s') \<Longrightarrow> K err s'"
  shows "leads J (store_do E op) K"
  unfolding leads_def
proof (intro allI impI ensuresI)
  fix s w a w'
  assume J: "J s" and s: "w_store w = s" and run: "run_state (store_do E op) w = (a, w')"
  obtain ops x where o: "e_others E (w_outside w) = (ops, x)" by fastforce
  obtain now y where n: "e_now E x = (now, y)" by fastforce
  obtain err s' where e: "exec_op now op s = (err, s')" by fastforce
  have "exec_ops ops s = s" using alone_others [OF assms(1) o] by simp
  with run s o n e have "a = err" "w_store w' = s'" by (auto simp: store_do_def run_simps)
  with assms(2) [OF J e] show "K a (w_store w')" by simp
qed

lemma leads_store_call:
  assumes "alone E" and "\<And>now s a s'. J s \<Longrightarrow> f now s = (a, s') \<Longrightarrow> K a s'"
  shows "leads J (store_call E op f) K"
  unfolding leads_def
proof (intro allI impI ensuresI)
  fix s w a w'
  assume J: "J s" and s: "w_store w = s" and run: "run_state (store_call E op f) w = (a, w')"
  obtain ops x where o: "e_others E (w_outside w) = (ops, x)" by fastforce
  obtain now y where n: "e_now E x = (now, y)" by fastforce
  obtain b s' where e: "f now s = (b, s')" by fastforce
  have "exec_ops ops s = s" using alone_others [OF assms(1) o] by simp
  with run s o n e have "a = b" "w_store w' = s'" by (auto simp: store_call_def run_simps)
  with assms(2) [OF J e] show "K a (w_store w')" by simp
qed

lemma leads_store_get:
  assumes "alone E" shows "leads J (store_get E key) (\<lambda>_. J)"
  unfolding leads_def store_get_def store_read_def
  using alone_others [OF assms]
  by (auto simp: ensures_def run_simps split: prod.splits)

section \<open>A claimed record\<close>

text \<open>
  The record under \<open>k\<close> carries no claim, or the claim \<open>kind\<close>; a delete claim is on the instance
  \<open>inst\<close>, whose accepted deletion is on record when \<open>acc\<close> holds.
\<close>

definition claim_state :: "string \<Rightarrow> work_kind \<Rightarrow> bool \<Rightarrow> runner_record \<Rightarrow> bool" where
  "claim_state inst kind acc q \<longleftrightarrow> r_claimed_work q = WorkNone \<or>
    (r_claimed_work q = kind \<and> \<not> retired q \<and>
     (kind = WorkDelete \<longrightarrow> r_status q = StatusDeleting \<and> r_instance_id q = inst \<and> inst \<noteq> '''' \<and>
        (acc \<longrightarrow> r_deletion_accepted_id q = inst)))"

definition claimed_at :: "string \<Rightarrow> string \<Rightarrow> work_kind \<Rightarrow> bool \<Rightarrow> file_store \<Rightarrow> bool" where
  "claimed_at k inst kind acc s \<longleftrightarrow> healthy s \<and> clean_ok s \<and>
    (\<exists>q. lookup_record s k = Some q \<and> claim_state inst kind acc q)"

definition released_at :: "string \<Rightarrow> file_store \<Rightarrow> bool" where
  "released_at k s \<longleftrightarrow> healthy s \<and> clean_ok s \<and>
    (\<exists>q. lookup_record s k = Some q \<and> r_claimed_work q = WorkNone)"

lemma claim_state_stamp [simp]: "claim_state inst kind acc (q\<lparr>r_updated_at := t\<rparr>) = claim_state inst kind acc q"
  by (simp add: claim_state_def)

lemma released_claimed: "released_at k s \<Longrightarrow> claimed_at k inst kind acc s"
  by (auto simp: released_at_def claimed_at_def claim_state_def)

lemma healthy_update_cases:
  assumes "claimed_at k inst kind acc s" and "update_record k f now s = (err, s')"
  obtains q where "err = None" and "healthy s'" and "clean_ok s'" and "claim_state inst kind acc q"
    and "lookup_record s' k = Some ((f q)\<lparr>r_updated_at := now\<rparr>)"
proof -
  from assms(1) obtain q where q: "healthy s" "clean_ok s" "lookup_record s k = Some q"
    "claim_state inst kind acc q" by (auto simp: claimed_at_def)
  with assms(2) have "replace_record k q ((f q)\<lparr>r_updated_at := now\<rparr>) s = (err, s')"
    by (simp add: update_record_def)
  from healthy_replace [OF q(1-3) this] q(4) that show ?thesis by blast
qed

lemma keeps_claim:
  assumes "alone E" and "\<And>now q. claim_state inst kind acc q \<Longrightarrow> claim_state inst kind acc (mutator now u q)"
  shows "leads (claimed_at k inst kind acc) (update E k u) (\<lambda>_. claimed_at k inst kind acc)"
proof (rule leads_store_do [OF assms(1)])
  fix now s err s'
  assume J: "claimed_at k inst kind acc s" and "exec_op now (OpUpdate k u) s = (err, s')"
  then have run: "update_record k (mutator now u) now s = (err, s')" by simp
  obtain q where "healthy s'" "clean_ok s'" "claim_state inst kind acc q"
    "lookup_record s' k = Some ((mutator now u q)\<lparr>r_updated_at := now\<rparr>)"
    using healthy_update_cases [OF J run] by metis
  with assms(2) [of q now] show "claimed_at k inst kind acc s'"
    by (simp add: claimed_at_def claim_state_stamp)
qed

lemma frees_claim:
  assumes "alone E" and "\<And>now q. claim_state inst kind acc q \<Longrightarrow> r_claimed_work (mutator now u q) = WorkNone"
  shows "leads (claimed_at k inst kind acc) (update E k u) (\<lambda>_. released_at k)"
proof (rule leads_store_do [OF assms(1)])
  fix now s err s'
  assume J: "claimed_at k inst kind acc s" and "exec_op now (OpUpdate k u) s = (err, s')"
  then have run: "update_record k (mutator now u) now s = (err, s')" by simp
  obtain q where "healthy s'" "clean_ok s'" "claim_state inst kind acc q"
    "lookup_record s' k = Some ((mutator now u q)\<lparr>r_updated_at := now\<rparr>)"
    using healthy_update_cases [OF J run] by metis
  with assms(2) [of q now] show "released_at k s'"
    by (simp add: released_at_def)
qed

lemma mutator_keeps_free: "r_claimed_work q = WorkNone \<Longrightarrow> r_claimed_work (mutator now u q) = WorkNone"
  by (cases u) (auto simp: mut_defs Let_def split: work_kind.splits)

lemma update_released:
  assumes "alone E"
  shows "leads (released_at k) (update E k u) (\<lambda>_. released_at k)"
proof (rule leads_mono [OF frees_claim [OF assms, of "''''" WorkNone False]])
  show "r_claimed_work (mutator now u q) = WorkNone" if "claim_state '''' WorkNone False q" for now q
    using that mutator_keeps_free by (auto simp: claim_state_def)
qed (auto intro: released_claimed)

text \<open>The operations of the workers.\<close>

lemmas freeing = mut_defs claim_state_def Let_def

lemma frees_release: "alone E \<Longrightarrow> kind \<noteq> WorkNone \<Longrightarrow>
  leads (claimed_at k inst kind acc) (update E k (UReleaseClaim kind)) (\<lambda>_. released_at k)"
  by (rule frees_claim) (cases kind; auto simp: freeing)+

lemma frees_orphaned: "alone E \<Longrightarrow>
  leads (claimed_at k inst kind acc) (update E k (UMarkOrphaned m)) (\<lambda>_. released_at k)"
  by (rule frees_claim) (auto simp: freeing)

lemma frees_throttled: "alone E \<Longrightarrow> kind \<noteq> WorkNone \<Longrightarrow>
  leads (claimed_at k inst kind acc) (update E k (UDeferRateLimitedWork kind m t n)) (\<lambda>_. released_at k)"
  by (rule frees_claim) (auto simp: freeing split: work_kind.splits)

lemma frees_provision:
  assumes "alone E"
  shows "leads (claimed_at k inst WorkProvision acc) (update E k (UDeferProvisioningDemand m t)) (\<lambda>_. released_at k)"
    and "leads (claimed_at k inst kind acc) (update E k (UMarkProvisionFailed m t n)) (\<lambda>_. released_at k)"
    and "leads (claimed_at k inst kind acc) (update E k UMarkDeleted) (\<lambda>_. released_at k)"
  by (rule frees_claim [OF assms], auto simp: freeing)+

lemma frees_delete:
  assumes "alone E"
  shows "leads (claimed_at k inst kind acc) (update E k (UMarkDeleteFailed m t n)) (\<lambda>_. released_at k)"
    and "leads (claimed_at k inst WorkDelete True) (update E k (UDeferDeletionConfirmation m t)) (\<lambda>_. released_at k)"
    and "leads (claimed_at k inst WorkDelete acc) (update E k (UDeferReassignmentDemand m t)) (\<lambda>_. released_at k)"
  by (rule frees_claim [OF assms], auto simp: freeing)+

lemma keeps_clear_jit: "alone E \<Longrightarrow>
  leads (claimed_at k inst kind acc) (update E k UClearJIT) (\<lambda>_. claimed_at k inst kind acc)"
  by (rule keeps_claim) (auto simp: freeing)

lemma keeps_completed: "alone E \<Longrightarrow> kind \<noteq> WorkDelete \<Longrightarrow>
  leads (claimed_at k inst kind acc) (update E k UMarkCompleted) (\<lambda>_. claimed_at k inst kind acc)"
  by (rule keeps_claim) (auto simp: freeing)

section \<open>Provisioning\<close>

lemma aside_calls:
  "leads J (remove_runner_call E c o1 rp i) (\<lambda>_. J)" "leads J (workflow_job_status_call E c o1 rp i) (\<lambda>_. J)"
  "leads J (generate_jit_call E c o1 rp n g ls) (\<lambda>_. J)" "leads J (find_runner_call E c key) (\<lambda>_. J)"
  "leads J (create_runner_call E c p) (\<lambda>_. J)" "leads J (delete_runner_call E c d key) (\<lambda>_. J)"
  "leads J (cleanup_runner_call E c key) (\<lambda>_. J)" "leads J (cleanup_except_call f c key d) (\<lambda>_. J)"
  "leads J (runner_absent_call f2 c d) (\<lambda>_. J)"
  unfolding client_call_defs by (rule leads_aside)+

lemmas aside = leads_aside aside_calls leads_store_get

lemma leads_released: "leads (released_at k) m K \<Longrightarrow> (\<And>s. J s \<Longrightarrow> released_at k s) \<Longrightarrow> leads J m K"
  by (rule leads_mono)

lemma release_claim_leads: "alone E \<Longrightarrow> kind \<noteq> WorkNone \<Longrightarrow>
  leads (claimed_at (r_key r) inst kind acc) (release_claim_h E r kind) (\<lambda>_. released_at (r_key r))"
  unfolding release_claim_h_def by (rule leads_bind [OF frees_release leads_return])

lemma mark_orphaned_leads:
  assumes "alone E"
  shows "leads (claimed_at (r_key r) inst kind acc) (mark_orphaned_h E r e) (\<lambda>_. released_at (r_key r))"
  unfolding mark_orphaned_h_def Let_def
proof (rule leads_bind)
  show "leads (claimed_at (r_key r) inst kind acc)
     (if owned_jit r then
          do { rm \<leftarrow> remove_jit E CtxCleanup r;
               case rm of
                 Some e \<Rightarrow> return (Some (ErrWrap (''deregister orphaned GitHub runner '' @
                             itoa (r_github_runner_id r) @ '': '') e))
               | None \<Rightarrow> do {
                   c \<leftarrow> update E (r_key r) UClearJIT;
                   return (map_option (ErrWrap ''clear orphaned GitHub runner identity: '') c) } }
        else return None) (\<lambda>_. claimed_at (r_key r) inst kind acc)"
    by (intro leads_cases(1) leads_return leads_bind [OF aside_calls(1)] leads_cases(2)
        leads_bind [OF keeps_clear_jit [OF assms]])
qed (intro leads_bind [OF frees_orphaned [OF assms]] leads_cases(2) leads_return)

lemma provision_failed_leads:
  assumes "alone E"
  shows "leads (claimed_at (r_key r) inst WorkProvision acc) (provision_failed E h r e) (\<lambda>_. released_at (r_key r))"
proof -
  let ?J = "claimed_at (r_key r) inst WorkProvision acc" and ?F = "\<lambda>_. released_at (r_key r)"
  have recorded: "leads ?J (record_provision_failure E h r e) ?F"
    unfolding record_provision_failure_def
    by (intro leads_bind [OF aside(2)] leads_bind [OF frees_provision(2) [OF assms]] aside)
  have cleanup: "leads ?J (cleanup_exhausted_provision E r) (\<lambda>b. if b then ?J else released_at (r_key r))"
    unfolding cleanup_exhausted_provision_def
    by (intro leads_bind [OF aside_calls(7)] leads_cases(2) leads_cases(1) leads_return
        leads_bind [OF mark_orphaned_leads [OF assms]]) simp_all
  have remove: "leads ?J (remove_exhausted_jit E r) (\<lambda>_. ?J)"
    unfolding remove_exhausted_jit_def
    by (intro leads_cases(1) leads_bind [OF aside_calls(1)] leads_cases(2) leads_return
        leads_bind [OF keeps_clear_jit [OF assms]])
  have exhausted: "leads ?J (do { pending \<leftarrow> cleanup_exhausted_provision E r;
      if \<not> pending then return () else do { _ \<leftarrow> remove_exhausted_jit E r; record_provision_failure E h r e } }) ?F"
    by (rule leads_bind [OF cleanup], rule leads_cases(1))
      (auto intro: leads_return leads_bind [OF remove recorded])
  show ?thesis
    unfolding provision_failed_def
    by (intro leads_cases(1) leads_cases(2) release_claim_leads [OF assms] exhausted recorded
        leads_bind [OF aside(2)] leads_bind [OF frees_throttled [OF assms]]
        leads_bind [OF mark_orphaned_leads [OF assms]] leads_return) simp_all
qed

lemma defer_demand_check_leads:
  assumes "alone E"
  shows "leads (claimed_at (r_key r) inst WorkProvision acc) (defer_demand_check E h r e) (\<lambda>_. released_at (r_key r))"
  unfolding defer_demand_check_def Let_def
  by (intro leads_bind [OF aside(3)] leads_cases(1) provision_failed_leads [OF assms]
      leads_bind [OF aside(2)] leads_bind [OF frees_provision(1) [OF assms]] aside)

lemma remove_idle_jit_leads:
  assumes "alone E"
  shows "leads (claimed_at (r_key r) inst kind acc) (remove_idle_jit E c r) (\<lambda>_. claimed_at (r_key r) inst kind acc)"
  unfolding remove_idle_jit_def
  by (intro leads_cases(1) leads_return leads_bind [OF aside_calls(1)] leads_cases(2)
      leads_bind [OF keeps_clear_jit [OF assms]])

lemma retire_provisioning_leads:
  assumes "alone E"
  shows "leads (claimed_at k inst WorkProvision acc) (retire_provisioning E k)
    (\<lambda>err. if err = None then released_at k else claimed_at k inst WorkProvision acc)"
  (is "leads ?J _ ?K")
proof -
  have free: "leads (released_at k) (return x) ?K" for x
    by (rule leads_return) (simp add: released_claimed)
  have sched: "leads (released_at k) (update E k UScheduleDeletion) ?K"
    by (rule leads_mono [OF update_released [OF assms]]) (simp_all add: released_claimed)
  have del: "leads ?J (update E k UMarkDeleted) ?K"
    by (rule leads_mono [OF frees_provision(3) [OF assms]]) (simp_all add: released_claimed)
  have fail: "leads ?J (return (Some e)) ?K" for e
    by (rule leads_return) simp
  have retire: "leads ?J (do {
           err \<leftarrow> update E k UMarkCompleted;
           case err of
             Some e \<Rightarrow> return (Some (ErrWrap ''mark obsolete provision completed: '' e))
           | None \<Rightarrow> do {
               err \<leftarrow> update E k (UReleaseClaim WorkProvision);
               case err of
                 Some e \<Rightarrow> return (Some (ErrWrap ''release obsolete provision claim: '' e))
               | None \<Rightarrow> update E k UScheduleDeletion } }) ?K"
    by (intro leads_bind [OF keeps_completed [OF assms]] leads_cases(2) fail
        leads_bind [OF frees_release [OF assms]] free sched) simp_all
  show ?thesis
    unfolding retire_provisioning_def
    by (intro leads_bind [OF leads_store_get [OF assms]] leads_cases(3) leads_cases(4) leads_cases(5)
        leads_cases(1) fail del retire)
qed


lemma retire_idle_job_leads:
  assumes "alone E"
  shows "leads (claimed_at (r_key r) inst WorkProvision acc) (retire_idle_job E h r wrap) (\<lambda>_. released_at (r_key r))"
  unfolding retire_idle_job_def
proof (rule leads_bind [OF remove_idle_jit_leads [OF assms]], rule leads_cases(2))
  show "leads (claimed_at (r_key r) inst WorkProvision acc)
      (do { _ \<leftarrow> defer_demand_check E h r e; return False }) (\<lambda>_. released_at (r_key r))" for e
    by (intro leads_bind [OF defer_demand_check_leads [OF assms]] leads_return)
  show "leads (claimed_at (r_key r) inst WorkProvision acc) (do {
         err \<leftarrow> retire_provisioning E (r_key r);
         case err of
           Some e \<Rightarrow> do { _ \<leftarrow> provision_failed E h r (wrap e); return False }
         | None \<Rightarrow> return True }) (\<lambda>_. released_at (r_key r))"
    by (rule leads_bind [OF retire_provisioning_leads [OF assms]], rule leads_cases(2))
      (auto intro!: leads_return leads_bind [OF provision_failed_leads [OF assms]])
qed

text \<open>After a check of the demand the worker either goes on with the claim or has given it up.\<close>

lemma require_queued_job_leads:
  assumes "alone E"
  shows "leads (claimed_at (r_key r) inst WorkProvision acc) (require_queued_job E h r)
    (\<lambda>b. if b then claimed_at (r_key r) inst WorkProvision acc else released_at (r_key r))"
    (is "leads ?J _ ?K")
proof -
  have no: "leads (released_at (r_key r)) (return False) ?K"
    by (rule leads_return) simp
  have later: "leads ?J (do { _ \<leftarrow> defer_demand_check E h r e; return False }) ?K" for e
    by (intro leads_bind [OF defer_demand_check_leads [OF assms]] no)
  have retired: "leads ?J (do { _ \<leftarrow> retire_idle_job E h r wrap; return False }) ?K" for wrap
    by (intro leads_bind [OF retire_idle_job_leads [OF assms]] no)
  have announced: "leads ?J (do { retired \<leftarrow> retire_idle_job E h r wrap;
      _ \<leftarrow> (if retired then signal else return ()); return False }) ?K" for wrap
    by (intro leads_bind [OF retire_idle_job_leads [OF assms]]
        leads_bind [OF leads_cases(1) [OF aside(4) leads_return]] no) assumption
  have yes: "leads ?J (return True) ?K" by (rule leads_return) simp
  show ?thesis
    unfolding require_queued_job_def
    by (intro leads_bind [OF leads_store_get [OF assms]] leads_bind [OF aside_calls(2)] leads_cases(3)
        leads_cases(4) leads_cases(5) leads_cases(1) later retired announced yes)
qed

lemma mark_provisioned_leads:
  assumes "alone E"
  shows "leads (claimed_at k inst kind acc) (store_do E (OpMarkProvisioned k i n nm)) (\<lambda>_. released_at k)"
proof (rule leads_store_do [OF assms])
  fix now s err s'
  assume J: "claimed_at k inst kind acc s" and "exec_op now (OpMarkProvisioned k i n nm) s = (err, s')"
  then have "mark_provisioned k i n nm now s = (err, s')" by simp
  then obtain s1 m where up: "update_record k (mark_provisioned_mut now i n nm) now s = (err, s1)"
    and s': "s' = s1 \<or> s' = s1\<lparr>fs_runner_keys := m\<rparr>" by (rule mark_provisioned_update)
  obtain q where q: "healthy s1" "clean_ok s1" "claim_state inst kind acc q"
    "lookup_record s1 k = Some ((mark_provisioned_mut now i n nm q)\<lparr>r_updated_at := now\<rparr>)"
    using healthy_update_cases [OF J up] by metis
  have "r_claimed_work (mark_provisioned_mut now i n nm q) = WorkNone"
    using q(3) by (auto simp: freeing)
  moreover have "clean_ok (s1\<lparr>fs_runner_keys := x\<rparr>) = clean_ok s1" for x
    by (simp add: clean_ok_def store_ok_def dirty_covers_def)
  ultimately show "released_at k s'" using q s' by (auto simp: released_at_def)
qed

lemma healthy_jit_keeps:
  assumes h: "healthy s" and old: "lookup_record s k = Some r" and run: "mark_jit_created k i nm now s = (err, s')"
  shows "healthy s'"
proof -
  have saved: "healthy u" if "save_locked t = (e, u)" "healthy t" for t e u
    using save_keeps_healthy that .
  show ?thesis
    using run old h
    by (auto simp: mark_jit_created_def Let_def split: if_splits option.splits prod.splits
        dest!: saved)
qed

lemma mark_jit_leads:
  assumes "alone E" and "\<not> is_marker_key k"
  shows "leads (claimed_at k inst WorkProvision acc) (store_do E (OpMarkJITCreated k i nm))
    (\<lambda>_. claimed_at k inst WorkProvision acc)"
proof (rule leads_store_do [OF assms(1)])
  fix now s err s'
  assume J: "claimed_at k inst WorkProvision acc s" and "exec_op now (OpMarkJITCreated k i nm) s = (err, s')"
  then have run: "mark_jit_created k i nm now s = (err, s')" by simp
  from J obtain q where q: "healthy s" "clean_ok s" "lookup_record s k = Some q"
    "claim_state inst WorkProvision acc q" by (auto simp: claimed_at_def)
  have h': "healthy s'" using healthy_jit_keeps [OF q(1,3) run] .
  from run q(2) show "claimed_at k inst WorkProvision acc s'"
  proof (cases rule: mark_jit_created_cases)
    case (registered r m)
    have "lookup_record s' k = Some (jit_result i nm now m r)"
      using registered(6) by (simp add: jit_edits_def)
    moreover have "claim_state inst WorkProvision acc (jit_result i nm now m r)"
      using q(3,4) registered(1,2)
      by (auto simp: claim_state_def jit_result_def register_jit_def apply_marker_def Let_def split: option.split)
    ultimately show ?thesis using h' registered(5) by (auto simp: claimed_at_def)
  next
    case (failed e)
    with q h' show ?thesis by (auto simp: claimed_at_def)
  qed (use J q(3) in simp_all)
qed

lemma provision_leads:
  assumes E: "alone E" and key: "\<not> is_marker_key (r_key r)"
  shows "leads (claimed_at (r_key r) inst WorkProvision acc) (provision E h r) (\<lambda>_. released_at (r_key r))"
proof -
  let ?J = "claimed_at (r_key r) inst WorkProvision acc" and ?F = "\<lambda>_. released_at (r_key r)"
  let ?D = "\<lambda>b. if b then ?J else released_at (r_key r)"
  have failed: "leads ?J (provision_failed E h r' e) ?F" if "r_key r' = r_key r" for r' e
    using provision_failed_leads [OF E, of r'] that by simp
  have failed': "leads (released_at (r_key r)) (provision_failed E h r' e) ?F" if "r_key r' = r_key r" for r' e
    by (rule leads_mono [OF failed [OF that]]) (auto intro: released_claimed)
  have free: "leads (released_at (r_key r)) (return ()) ?F" "leads (released_at (r_key r)) signal ?F"
    by (rule leads_return, assumption, rule aside)
  have existing: "leads ?J (provision_existing E h r i) ?F" for i
    unfolding provision_existing_def
    by (intro leads_cases(1) leads_bind [OF aside_calls(6)] leads_bind [OF mark_provisioned_leads [OF E]]
        leads_cases(2) failed free leads_bind [OF leads_cases(2) [OF free(1) failed']]) simp_all
  have inst: "leads ?J (provision_instance E h r' name jit) ?F" if k: "r_key r' = r_key r" for r' name jit
    unfolding provision_instance_def
  proof (rule leads_bind [where K = ?D])
    show "leads ?J (require_queued_job E h r') ?D"
      using require_queued_job_leads [OF E, of r' inst acc h] unfolding k .
    show "leads (?D queued) (if \<not> queued then return () else do {
       created \<leftarrow> create_runner_call E CtxWork (provision_params h r' name jit);
       case created of
         Inl e \<Rightarrow> provision_failed E h r' (ErrWrap ''create runner instance: '' e)
       | Inr inst \<Rightarrow> do {
           err \<leftarrow> store_do E (OpMarkProvisioned (r_key r') (ri_id inst) (jit_runner_id jit) name);
           case err of
             Some e \<Rightarrow> provision_failed E h r' (ErrWrap ''persist provisioned runner: '' e)
           | None \<Rightarrow> signal } }) ?F" for queued
      unfolding k
      by (cases queued) (auto intro!: free leads_bind [OF aside_calls(5)] leads_cases(3) failed failed'
          leads_bind [OF mark_provisioned_leads [OF E]] leads_cases(2) simp: k)
  qed
  have jit: "leads ?J (provision_jit E h r name) ?F" for name
    unfolding provision_jit_def
    by (intro leads_bind [OF aside_calls(3)] leads_cases(3) failed leads_bind [OF mark_jit_leads [OF E key]]
        leads_cases(2) leads_bind [OF aside_calls(1)] inst) simp_all
  have stale: "leads ?J (remove_stale_jit E h r) ?D"
  proof -
    have yes: "leads ?J (return True) ?D" by (rule leads_return) simp
    have no: "leads ?J (do { _ \<leftarrow> provision_failed E h r e; return False }) ?D" for e
      by (rule leads_bind [OF failed]) (auto intro: leads_return)
    show ?thesis
      unfolding remove_stale_jit_def
      by (intro leads_cases(1) yes leads_bind [OF aside_calls(1)] leads_cases(2) no
          leads_bind [OF keeps_clear_jit [OF E]])
  qed
  have rest: "leads (?D queued) (if \<not> queued then return () else do {
             cleared \<leftarrow> remove_stale_jit E h r;
             if \<not> cleared then return () else provision_jit E h r name }) ?F" for queued name
  proof (cases queued)
    case True
    have "leads (?D cleared) (if \<not> cleared then return () else provision_jit E h r name) ?F" for cleared
      by (cases cleared) (simp_all add: jit free)
    from leads_bind [OF stale this] True show ?thesis by simp
  qed (simp add: free)
  show ?thesis
    unfolding provision_def Let_def
    by (intro leads_bind [OF aside_calls(4)] leads_cases(3) leads_cases(2) failed existing
        leads_bind [OF require_queued_job_leads [OF E]] rest) simp_all
qed


section \<open>Deletion\<close>

lemma claimed_weak: "claimed_at k inst WorkDelete acc s \<Longrightarrow> claimed_at k inst WorkDelete False s"
  by (auto simp: claimed_at_def claim_state_def)

lemma released_leads:
  "leads (released_at k) (return ()) (\<lambda>_. released_at k)" "leads (released_at k) signal (\<lambda>_. released_at k)"
  by (rule leads_return, assumption, rule aside)

lemma release_canceled_leads:
  assumes "alone E"
  shows "leads (claimed_at (r_key r) inst WorkDelete acc) (release_canceled_delete E r err)
    (\<lambda>b. if b then released_at (r_key r) else claimed_at (r_key r) inst WorkDelete acc)"
  unfolding release_canceled_delete_def
  by (intro leads_bind [OF aside(3)] leads_cases(1) leads_return leads_bind [OF release_claim_leads [OF assms]])
    simp_all

text \<open>The shape of every failure of a deletion: release a canceled claim, or record the failure.\<close>

lemma unless_released:
  fixes E :: "'x env" and m :: "('x, 'a) act"
  assumes "alone E" and "leads (claimed_at (r_key r) inst WorkDelete acc) m K"
    and "leads (released_at (r_key r)) (return a :: ('x, 'a) act) K"
  shows "leads (claimed_at (r_key r) inst WorkDelete acc)
    (do { released \<leftarrow> release_canceled_delete E r err; if released then return a else m }) K"
proof (rule leads_bind [OF release_canceled_leads [OF assms(1)]])
  show "leads (if released then released_at (r_key r) else claimed_at (r_key r) inst WorkDelete acc)
    (if released then return a else m) K" for released
    by (cases released) (simp_all add: assms)
qed

lemma record_delete_failure_leads:
  assumes "alone E"
  shows "leads (claimed_at (r_key r) inst WorkDelete acc) (record_delete_failure E h r e)
    (\<lambda>_. released_at (r_key r))"
  unfolding record_delete_failure_def
  by (intro leads_bind [OF aside(2)] leads_bind [OF frees_delete(1) [OF assms]] released_leads)

lemma deletion_request_failed_leads:
  assumes "alone E"
  shows "leads (claimed_at (r_key r) inst WorkDelete acc) (deletion_request_failed E h r e)
    (\<lambda>_. released_at (r_key r))"
  unfolding deletion_request_failed_def
  by (intro unless_released [OF assms] leads_cases(1) leads_bind [OF mark_orphaned_leads [OF assms]]
      record_delete_failure_leads [OF assms] released_leads)

lemma deletion_accepted_leads:
  assumes "alone E"
  shows "leads (claimed_at k inst WorkDelete acc) (store_do E (OpMarkDeletionAccepted k inst))
    (\<lambda>err. if err = None then claimed_at k inst WorkDelete True else claimed_at k inst WorkDelete False)"
proof (rule leads_store_do [OF assms])
  fix now s err s'
  assume J: "claimed_at k inst WorkDelete acc s"
    and "exec_op now (OpMarkDeletionAccepted k inst) s = (err, s')"
  then have "mark_deletion_accepted k inst now s = (err, s')" by simp
  then show "(if err = None then claimed_at k inst WorkDelete True else claimed_at k inst WorkDelete False) s'"
  proof (cases rule: mark_deletion_accepted_cases)
    case refused
    with claimed_weak [OF J] show ?thesis by auto
  next
    case (accepted q)
    have "healthy s" "clean_ok s" using J by (auto simp: claimed_at_def)
    from healthy_replace [OF this accepted(1,6)] accepted show ?thesis
      by (simp add: claimed_at_def claim_state_def)
  qed
qed

text \<open>A requested deletion whose absence has to be confirmed is on record as accepted.\<close>

lemma request_deletion_leads:
  assumes E: "alone E"
  shows "leads (claimed_at (r_key r) (r_instance_id r) WorkDelete (r_deletion_accepted_id r = r_instance_id r))
      (request_deletion E r)
      (\<lambda>err. if err = None then claimed_at (r_key r) (r_instance_id r) WorkDelete (cc_absent E \<noteq> None)
             else claimed_at (r_key r) (r_instance_id r) WorkDelete False)"
    (is "leads (?J ?acc) _ ?K")
proof (cases "cc_absent E = None \<or> r_deletion_accepted_id r \<noteq> r_instance_id r")
  case False
  then show ?thesis by (auto simp: request_deletion_def intro!: leads_return)
next
  case True
  have plain: "leads (?J ?acc) (return err) ?K" if "\<not> (err = None \<and> cc_absent E \<noteq> None)" for err
    using that by (auto intro!: leads_return intro: claimed_weak)
  have "leads (?J ?acc) (do { err \<leftarrow> delete_runner_call E CtxWork (r_instance_id r) (r_key r);
     if err = None \<and> cc_absent E \<noteq> None
     then store_do E (OpMarkDeletionAccepted (r_key r) (r_instance_id r)) else return err }) ?K"
    by (intro leads_bind [OF aside_calls(6)] leads_cases(1) plain leads_mono [OF deletion_accepted_leads [OF E]])
      (auto split: if_splits)
  with True show ?thesis by (simp add: request_deletion_def)
qed

lemma confirm_absence_leads:
  assumes E: "alone E"
  shows "leads (claimed_at (r_key r) inst WorkDelete (cc_absent E \<noteq> None)) (confirm_absence E r)
      (\<lambda>b. if b then claimed_at (r_key r) inst WorkDelete False else released_at (r_key r))"
    (is "leads _ _ ?K")
proof (cases "cc_absent E")
  case None
  then show ?thesis by (simp add: confirm_absence_def leads_return)
next
  case (Some f)
  let ?J = "claimed_at (r_key r) inst WorkDelete"
  have yes: "leads (?J True) (return True) ?K" by (rule leads_return) (simp add: claimed_weak)
  have no: "leads (released_at (r_key r)) (return False) ?K" by (rule leads_return) simp
  have "leads (?J True) (do { _ \<leftarrow> release_claim_h E r WorkDelete; return False }) ?K"
    by (intro leads_bind [OF release_claim_leads [OF E]] no) simp
  from leads_mono [OF this released_claimed]
  have again: "leads (released_at (r_key r)) (do { _ \<leftarrow> release_claim_h E r WorkDelete; return False }) ?K" .
  have wait: "leads (?J True) (do {
           now \<leftarrow> clock E;
           state_err \<leftarrow> update E (r_key r) (UDeferDeletionConfirmation message (now + retry_delay 1));
           case state_err of
             None \<Rightarrow> return False
           | Some _ \<Rightarrow> do { _ \<leftarrow> release_claim_h E r WorkDelete; return False } }) ?K" for message
    by (intro leads_bind [OF aside(2)] leads_bind [OF frees_delete(2) [OF E]] leads_cases(2) no again)
  have "leads (?J True) (confirm_absence E r) ?K"
    unfolding confirm_absence_def Let_def
    by (simp add: Some, intro leads_bind [OF aside_calls(9)] leads_cases(1) yes unless_released [OF E] wait no)
  with Some show ?thesis by simp
qed

lemma finish_deletion_leads:
  assumes E: "alone E"
  shows "leads (claimed_at (r_key r) inst WorkDelete acc) (finish_deletion E h r q) (\<lambda>_. released_at (r_key r))"
    (is "leads ?J _ ?F")
proof -
  have finish: "leads ?J (store_call E (OpUpdate (r_key r) (UFinishDeletedRunner q))
      (finish_deleted_runner (r_key r) q)) (\<lambda>_. released_at (r_key r))"
  proof (rule leads_store_call [OF E])
    fix now s a s'
    assume J: "?J s" and run: "finish_deleted_runner (r_key r) q now s = (a, s')"
    have "exec_op now (OpUpdate (r_key r) (UFinishDeletedRunner q)) s = (failure a, s')"
      by (simp add: finish_deleted_runner_exec [symmetric] run del: exec_op.simps)
    then have up: "update_record (r_key r) (mutator now (UFinishDeletedRunner q)) now s = (failure a, s')"
      by simp
    obtain p where "healthy s'" "clean_ok s'" "claim_state inst WorkDelete acc p"
      "lookup_record s' (r_key r) = Some ((mutator now (UFinishDeletedRunner q) p)\<lparr>r_updated_at := now\<rparr>)"
      using healthy_update_cases [OF J up] by metis
    then show "released_at (r_key r) s'" by (auto simp: released_at_def freeing)
  qed
  have release: "leads (released_at (r_key r)) (release_claim_h E r WorkDelete) ?F"
    unfolding release_claim_h_def by (intro leads_bind [OF update_released [OF E]] released_leads)
  show ?thesis
    unfolding finish_deletion_def
    by (intro leads_bind [OF finish] leads_cases(1) leads_cases(3) leads_bind [OF aside(2)]
        leads_bind [OF update_released [OF E]] leads_bind [OF leads_cases(2) [OF released_leads(1) release]]
        released_leads)
qed

lemma settle_deletion_leads:
  assumes E: "alone E"
  shows "leads (claimed_at (r_key r) inst WorkDelete False) (settle_deletion E h r) (\<lambda>_. released_at (r_key r))"
    (is "leads ?J _ ?F")
proof -
  have recheck: "leads ?J (recheck_cleaned_runner_demand E r) (\<lambda>_. ?J)"
    unfolding recheck_cleaned_runner_demand_def
    by (intro leads_cases leads_return leads_bind [OF leads_store_get [OF E]] leads_bind [OF aside_calls(2)])
  have "leads ?J (recheck_failed E r e) ?F" for e
    unfolding recheck_failed_def Let_def
    by (intro unless_released [OF E] leads_bind [OF aside(2)] leads_bind [OF frees_delete(3) [OF E]] released_leads)
  then show ?thesis
    unfolding settle_deletion_def
    by (intro leads_bind [OF recheck] leads_cases(3) finish_deletion_leads [OF E])
qed

lemma deregistration_failed_leads:
  assumes E: "alone E"
  shows "leads (claimed_at (r_key r) inst WorkDelete acc) (deregistration_failed E h r e)
    (\<lambda>_. released_at (r_key r))"
  unfolding deregistration_failed_def
  by (intro unless_released [OF E] leads_cases(2) leads_bind [OF aside(2)]
      leads_bind [OF frees_throttled [OF E]] released_leads record_delete_failure_leads [OF E]) simp

lemma delete_h_leads:
  assumes E: "alone E"
  shows "leads (claimed_at (r_key r) (r_instance_id r) WorkDelete (r_deletion_accepted_id r = r_instance_id r))
    (delete_h E h r) (\<lambda>_. released_at (r_key r))"
proof -
  let ?J = "claimed_at (r_key r) (r_instance_id r) WorkDelete" and ?F = "\<lambda>_ :: unit. released_at (r_key r)"
  have cleanup: "leads (?J False) (cleanup_deleted E r) (\<lambda>_. ?J False)"
    unfolding cleanup_deleted_def by (intro leads_cases(1) leads_cases(2) aside_calls)
  have cleanup_failed: "leads (?J False) (cleanup_failed E h r e) ?F" for e
    unfolding cleanup_failed_def
    by (intro unless_released [OF E] record_delete_failure_leads [OF E] released_leads)
  let ?gone = "do {
           err \<leftarrow> cleanup_deleted E r;
           case err of
             Some e \<Rightarrow> cleanup_failed E h r e
           | None \<Rightarrow>
               if owned_jit r then do {
                 rm \<leftarrow> remove_jit E CtxWork r;
                 case rm of
                   Some e \<Rightarrow> deregistration_failed E h r e
                 | None \<Rightarrow> settle_deletion E h r }
               else settle_deletion E h r }"
  have gone: "leads (?J False) ?gone ?F"
    by (intro leads_bind [OF cleanup] leads_cases(2) leads_cases(1) cleanup_failed
        leads_bind [OF aside_calls(1)] deregistration_failed_leads [OF E] settle_deletion_leads [OF E])
  have absent: "leads (?J (cc_absent E \<noteq> None))
      (do { absent \<leftarrow> confirm_absence E r; if \<not> absent then return () else ?gone }) ?F"
    by (rule leads_bind [OF confirm_absence_leads [OF E]], rule leads_cases(1)) (simp_all add: released_leads gone)
  show ?thesis
    unfolding delete_h_def
    by (rule leads_bind [OF request_deletion_leads [OF E]], rule leads_cases(2))
      (use absent in simp, simp add: deletion_request_failed_leads [OF E])
qed

text \<open>A worker ends with a claim given up.\<close>

lemma process_leads:
  assumes E: "alone E" and key: "\<not> is_marker_key (r_key r)" and kind: "kind \<noteq> WorkNone"
  shows "leads (claimed_at (r_key r) (r_instance_id r) kind (r_deletion_accepted_id r = r_instance_id r))
    (process E h r kind) (\<lambda>_. released_at (r_key r))"
  unfolding process_def
proof (intro leads_bind [OF aside(3)] leads_cases(1) release_claim_leads [OF E kind]
    leads_bind [OF mark_orphaned_leads [OF E]] leads_return)
  show "leads (claimed_at (r_key r) (r_instance_id r) kind (r_deletion_accepted_id r = r_instance_id r))
     (case kind of WorkProvision \<Rightarrow> provision E h r | WorkDelete \<Rightarrow> delete_h E h r | WorkNone \<Rightarrow> return ())
     (\<lambda>_. released_at (r_key r))"
    using kind provision_leads [OF E key] delete_h_leads [OF E] by (cases kind) simp_all
qed assumption


section \<open>The properties\<close>

lemma claimed_by_claim_next:
  assumes ready: "store_ready s" and run: "claim_next c now n s = (Inr (Some (r, kind)), s')" and "healthy s'"
  shows "claimed_at (r_key r) (r_instance_id r) kind (r_deletion_accepted_id r = r_instance_id r) s'"
    and "kind \<noteq> WorkNone" and "\<not> is_marker_key (r_key r)"
proof -
  have inv: "store_inv s" "cache_ok s" "markers_idle s" using ready by (auto simp: store_ready_def)
  from claim_next_spec(6) [OF inv(1,2) run refl] obtain key r0 q where
    c: "lookup_record s key = Some r0" "claim_record (int (live_runner_count s)) (fs_max_live_runners s) n r0 =
        Some (q, kind)" "r = stamp_claim now (q, kind)" "lookup_record s' key = Some r" by auto
  have inv': "store_inv s'" using claim_next_spec(1) [OF inv(1,2) run] .
  then have k: "r_key r = key" using c(4) by (auto simp: store_inv_def dest: records_invD)
  from c(2) have "claim_state (r_instance_id r) kind (r_deletion_accepted_id r = r_instance_id r) r \<and> kind \<noteq> WorkNone"
    by (cases rule: claim_record_Some) (simp_all add: claim_state_def c(3) stamp_claim_def)
  with inv' assms(3) c(4) k
  show "claimed_at (r_key r) (r_instance_id r) kind (r_deletion_accepted_id r = r_instance_id r) s'"
    and "kind \<noteq> WorkNone" by (auto simp: claimed_at_def store_inv_def)
  show "\<not> is_marker_key (r_key r)" using claim_not_marker [OF inv run] .
qed

text \<open>C25: Work that \<open>ClaimNext\<close> has handed out never stays claimed: when the worker returns from
processing it, the claim is given up, whatever the provider and GitHub answered and whichever
contexts were done - provided the saves of the store succeed and no other goroutine changed the
store meanwhile.\<close>

theorem claimed_work_is_released:
  assumes "store_ready s" and "claim_next c now n s = (Inr (Some (r, kind)), w_store w)"
    and "healthy (w_store w)" and "others_satisfy E (\<lambda>_. False)"
    and "run_state (process E h r kind) w = (u, w')"
  shows "\<exists>q. lookup_record (w_store w') (r_key r) = Some q \<and> r_claimed_work q = WorkNone"
proof -
  note claimed = claimed_by_claim_next [OF assms(1,2,3)]
  have "ensures w_store (process E h r kind) (\<lambda>_. released_at (r_key r)) (w_store w)"
    using process_leads [OF assms(4) claimed(3,2), of h] claimed(1) by (simp add: leads_def)
  from ensuresD [OF this assms(5)] show ?thesis by (auto simp: released_at_def)
qed

lemma healthy_replace_record: "replace_record k b q s = (e, s') \<Longrightarrow> healthy s \<Longrightarrow> healthy s'"
  by (auto simp: replace_record_def split: prod.splits option.splits dest: save_keeps_healthy)

lemma healthy_claim_loop: "healthy s \<Longrightarrow> claim_loop keys live now n s = (res, s') \<Longrightarrow> healthy s'"
proof (induction keys arbitrary: s)
  case (Cons key keys)
  have go_on: "healthy s'" if "(case replace_record key b q s of (Some e, s) \<Rightarrow> (Inl e, s)
      | (None, s) \<Rightarrow> claim_loop keys live now n s) = (res, s')" for b q
  proof -
    obtain e t where rep: "replace_record key b q s = (e, t)" by fastforce
    from healthy_replace_record [OF rep Cons.prems(1)] that rep Cons.IH [of t] show ?thesis
      by (cases e) auto
  qed
  have settle: "healthy s'" if "(case replace_record key b q s of (Some e, s) \<Rightarrow> (Inl e, s)
      | (None, s) \<Rightarrow> (Inr v, s)) = (res, s')" for b q v
  proof -
    obtain e t where rep: "replace_record key b q s = (e, t)" by fastforce
    from healthy_replace_record [OF rep Cons.prems(1)] that rep show ?thesis by (cases e) auto
  qed
  show ?case
    using Cons.prems(2) Cons.IH [OF Cons.prems(1)]
    by (auto simp: Let_def split: if_split_asm option.split_asm dest!: go_on settle)
qed simp

lemma sample_claim_healthy:
  "\<exists>s' r. claim_next None 200 3 (one_record sample_pending) = (Inr (Some (r, WorkProvision)), s') \<and> healthy s'"
proof -
  obtain s' r where run: "claim_next None 200 3 (one_record sample_pending) = (Inr (Some (r, WorkProvision)), s')"
    using sample_claim by blast
  obtain ks t where keys: "ordered_keys (one_record sample_pending) = (ks, t)" by fastforce
  have "healthy (one_record sample_pending)" by (simp add: one_record_def)
  with keys have "healthy t" by (auto simp: ordered_keys_def healthy_def Let_def split: if_splits)
  with run keys have "healthy s'" by (auto simp: claim_next_def dest: healthy_claim_loop)
  with run show ?thesis by blast
qed

theorem claimed_work_is_released_witness:
  "\<exists>s' r w' q. claim_next None 200 3 (one_record sample_pending) = (Inr (Some (r, WorkProvision)), s') \<and>
     run_state (process calm sample_handler r WorkProvision) (world_of s') = ((), w') \<and>
     lookup_record (w_store w') (r_key r) = Some q \<and> r_claimed_work q = WorkNone"
proof -
  obtain s' r where claim: "claim_next None 200 3 (one_record sample_pending) =
      (Inr (Some (r, WorkProvision)), s')" and h: "healthy s'" using sample_claim_healthy by blast
  obtain w' where run: "run_state (process calm sample_handler r WorkProvision) (world_of s') = ((), w')"
    by (cases "run_state (process calm sample_handler r WorkProvision) (world_of s')") simp
  have "store_ready (one_record sample_pending)" by (rule one_record_ready) (simp_all add: sample_inv)
  from claimed_work_is_released [OF this, of None 200 3 r WorkProvision "world_of s'", OF _ _ _ run] claim h run
  show ?thesis by auto
qed

text \<open>
  The hypothesis on the other goroutines matters. In the world of the next property the
  completion of a cancelled job - one that never had a runner - arrives between the acceptance of
  a deletion and the deferral of its confirmation. The outside state counts the accesses of the
  store.
\<close>

definition cancellation :: runner_record where
  "cancellation = sample_request\<lparr>r_next_attempt_at := 300\<rparr>"

definition cancelling :: "nat env" where
  "cancelling =
    \<lparr>e_now = \<lambda>x. (1000, x), e_others = \<lambda>x. (if x = 1 then [(900, OpRecordCompletion cancellation)] else [], Suc x),
     e_ctx_err = \<lambda>c x. (None, x), e_ingest_slot = \<lambda>x. (True, x),
     e_json = \<lambda>s. None, e_hmac = \<lambda>secret body. '''', e_sha256 = \<lambda>s. '''',
     gc_trusted_run = \<lambda>c owner repo i x. (Inr True, x),
     gc_job_status = \<lambda>c owner repo i x. (Inr JobQueued, x),
     gc_jit_config = \<lambda>c owner repo name g ls x. (Inr \<lparr>jit_runner_id = 42, jit_encoded_config = ''abcd''\<rparr>, x),
     gc_runner_status = \<lambda>c owner repo i x. (Inr RunnerOnline, x),
     gc_remove_runner = \<lambda>c owner repo i x. (None, x),
     cc_provider = ''digitalocean'', cc_find = \<lambda>c key x. (Inr None, x),
     cc_create = \<lambda>c params x. (Inl (ErrText ''no capacity''), x),
     cc_delete = \<lambda>c i key x. (None, x), cc_cleanup = \<lambda>c key x. (None, x),
     cc_sweep = \<lambda>c known cutoff x. ((0, None), x),
     cc_absent = Some (\<lambda>c i x. (Inr False, x)), cc_cleanup_except = None\<rparr>"

lemma cancelling_simps [simp]:
  "e_now cancelling x = (1000, x)"
  "e_others cancelling x = (if x = 1 then [(900, OpRecordCompletion cancellation)] else [], Suc x)"
  "e_ctx_err cancelling c x = (None, x)" "cc_delete cancelling c i key x = (None, x)"
  "cc_absent cancelling = Some (\<lambda>c i x. (Inr False, x))"
  by (simp_all add: cancelling_def)

definition stranded :: runner_record where
  "stranded = sample_deleting\<lparr>r_deletion_accepted_id := ''i-1'', r_job_completed := True,
     r_recheck_demand := False, r_status := StatusCompleted, r_defer_deletion := True,
     r_next_attempt_at := 300, r_updated_at := 1000\<rparr>"

lemma cancellation_simps [simp]:
  "r_key cancellation = ''acme/app/7''" "r_github_runner_id cancellation = 0"
  "r_next_attempt_at cancellation = 300" "fresh_request cancellation"
  by (simp_all add: cancellation_def sample_defs fresh_request_def is_marker_key_def has_prefix_def
      completion_marker_prefix_def)

lemma cancellation_strands:
  "\<exists>s1 s2 s3. exec_op 1000 (OpMarkDeletionAccepted ''acme/app/7'' ''i-1'') (one_record sample_deleting) = (None, s1) \<and>
     exec_op 900 (OpRecordCompletion cancellation) s1 = (None, s2) \<and>
     exec_op 1000 (OpUpdate ''acme/app/7'' (UDeferDeletionConfirmation m t)) s2 = (None, s3) \<and>
     lookup_record s3 ''acme/app/7'' = Some stranded"
proof -
  let ?k = "''acme/app/7''" and ?s = "one_record sample_deleting"
  let ?r1 = "sample_deleting\<lparr>r_deletion_accepted_id := ''i-1'', r_updated_at := 1000\<rparr>"
  let ?r2 = "complete_event ?r1 cancellation 900"
  have s: "healthy ?s" "clean_ok ?s" "lookup_record ?s ?k = Some sample_deleting"
    using one_record_clean [OF sample_inv(3)] by (simp_all add: one_record_def)
  obtain e1 s1 where a: "replace_record ?k sample_deleting ?r1 ?s = (e1, s1)" by fastforce
  note s1 = healthy_replace [OF s a]
  have 1: "exec_op 1000 (OpMarkDeletionAccepted ?k ''i-1'') ?s = (None, s1)"
    using a s1(1) s(3) by (simp add: mark_deletion_accepted_def sample_defs)
  have nm: "\<not> is_marker_key (r_key cancellation)" by simp
  from healthy_completion [OF s1(2) nm] obtain s2 where
    2: "record_completion cancellation 900 s1 = (None, s2)" and h2: "healthy s2" by blast
  have s2: "clean_ok s2" "lookup_record s2 ?k = Some ?r2"
    using 2 s1(3) nm
  proof (atomize (full), cases rule: record_completion_cases)
    case recorded
    with record_completion_lookup [OF nm recorded(3), of ?k] s1(4)
    show "clean_ok s2 \<and> lookup_record s2 ?k = Some ?r2"
      by (simp add: completion_edits_def runner_edit_def event_edit_def runner_target_def)
  qed simp
  obtain e3 s3 where up: "update_record ?k (defer_deletion_confirmation_mut m t) 1000 s2 = (e3, s3)" by fastforce
  have stranded: "(defer_deletion_confirmation_mut m t ?r2)\<lparr>r_updated_at := 1000\<rparr> = stranded"
    by (simp add: defer_deletion_confirmation_mut_def complete_event_def Let_def stranded_def sample_defs)
  have "replace_record ?k ?r2 stranded s2 = (e3, s3)" using up s2(2) by (simp add: update_record_def stranded)
  from healthy_replace [OF h2 s2 this] 1 2 up show ?thesis by auto
qed

text \<open>C26: A cancelled job can strand a deletion. When the completion of a job that never had a
runner is recorded while a worker waits for the absence of the instance, every operation of the
worker succeeds and yet the record keeps its delete claim in status completed: \<open>ClaimNext\<close> never
hands it out again, no new deletion can be scheduled, and the accepted deletion is not confirmed.\<close>

theorem cancellation_strands_deletion:
  "\<exists>w' q m t. run_state (process cancelling sample_handler sample_deleting WorkDelete)
       \<lparr>w_store = one_record sample_deleting, w_outside = 0, w_notify = False, w_log = []\<rparr> = ((), w') \<and>
     w_log w' = [EvStore (OpUpdate ''acme/app/7'' (UDeferDeletionConfirmation m t)) None,
       EvAbsent ''i-1'' (Inr False), EvStore (OpMarkDeletionAccepted ''acme/app/7'' ''i-1'') None,
       EvDelete ''i-1'' ''acme/app/7'' None] \<and>
     lookup_record (w_store w') ''acme/app/7'' = Some q \<and> r_instance_id q = ''i-1'' \<and>
     r_status q = StatusCompleted \<and> r_claimed_work q = WorkDelete \<and>
     (\<forall>live max_live attempts. claim_record live max_live attempts q = None) \<and>
     schedule_deletion_mut q = q"
proof -
  let ?msg = "''provider deletion accepted; awaiting confirmed absence''"
  obtain s1 s2 s3 where
    s: "mark_deletion_accepted ''acme/app/7'' ''i-1'' 1000 (one_record sample_deleting) = (None, s1)"
      "record_completion cancellation 900 s1 = (None, s2)"
      "update_record ''acme/app/7'' (defer_deletion_confirmation_mut ?msg (1000 + retry_delay 1)) 1000 s2 = (None, s3)"
    and q: "lookup_record s3 ''acme/app/7'' = Some stranded"
    using cancellation_strands [of ?msg "1000 + retry_delay 1"] by auto
  have acc: "r_deletion_accepted_id sample_deleting \<noteq> ''i-1''" by (simp add: sample_defs)
  have run: "run_state (process cancelling sample_handler sample_deleting WorkDelete)
       \<lparr>w_store = one_record sample_deleting, w_outside = 0, w_notify = False, w_log = []\<rparr> =
     ((), \<lparr>w_store = s3, w_outside = 2, w_notify = False,
       w_log = [EvStore (OpUpdate ''acme/app/7'' (UDeferDeletionConfirmation ?msg (1000 + retry_delay 1))) None,
         EvAbsent ''i-1'' (Inr False), EvStore (OpMarkDeletionAccepted ''acme/app/7'' ''i-1'') None,
         EvDelete ''i-1'' ''acme/app/7'' None]\<rparr>)"
    using s acc
    by (simp add: process_def delete_h_def request_deletion_def confirm_absence_def release_canceled_delete_def
        client_call_defs run_simps Let_def)
  have "claim_record live max_live attempts stranded = None" for live max_live attempts
    by (simp add: claim_record_def stranded_def sample_defs Let_def)
  moreover have "schedule_deletion_mut stranded = stranded"
    by (simp add: schedule_deletion_mut_def stranded_def sample_defs)
  moreover have "r_instance_id stranded = ''i-1'' \<and> r_status stranded = StatusCompleted \<and>
      r_claimed_work stranded = WorkDelete" by (simp add: stranded_def sample_defs)
  ultimately show ?thesis
    by (intro exI [of _ "\<lparr>w_store = s3, w_outside = 2, w_notify = False,
       w_log = [EvStore (OpUpdate ''acme/app/7'' (UDeferDeletionConfirmation ?msg (1000 + retry_delay 1))) None,
         EvAbsent ''i-1'' (Inr False), EvStore (OpMarkDeletionAccepted ''acme/app/7'' ''i-1'') None,
         EvDelete ''i-1'' ''acme/app/7'' None]\<rparr>"] exI [of _ stranded] exI [of _ ?msg]
        exI [of _ "1000 + retry_delay 1"]) (simp add: run q)
qed

end
