(* ===== verification/Controller_Properties.thy ===== *)
theory Controller_Properties
  imports Worker_Progress Webhook_Properties
begin

text \<open>
  Properties of the controller as a whole: it refines the store, and a delivery that is not
  accepted leaves no trace in it.
\<close>

section \<open>Refinement of the store\<close>

text \<open>C27: The controller refines the store: whatever the clients answer, a webhook delivery, a
worker and the reaper change the store only by a sequence of its well-formed operations, interleaved
with those of the other goroutines. Hence every invariant of the store holds throughout: records
stay consistent and on disk, keys sorted, and completion markers are never worked on.\<close>

theorem controller_refines_store:
  assumes "store_ready (w_store w)" and "others_satisfy E op_on_job"
    and "s' = w_store (snd (run_state (serve_http E h rq) w)) \<or>
      s' = w_store (snd (run_state (worker n E h) w)) \<or>
      s' = w_store (snd (run_state (reaper n E h) w))"
  shows "store_ready s' \<and>
    (\<exists>ops. (\<forall>(now, op) \<in> set ops. op_on_job op) \<and> s' = exec_ops ops (w_store w))"
proof -
  have "reaches (w_store w) s'"
    using assms(3) keeps_reaches [OF assms(1) fs.keeps_serve_http [OF assms(2)]]
      keeps_reaches [OF assms(1) fs.keeps_worker [OF assms(2)]]
      keeps_reaches [OF assms(1) fs.keeps_reaper [OF assms(2)]] by blast
  then show ?thesis using reaches_ready by (auto simp: reaches_def)
qed

theorem controller_refines_store_witness:
  "\<exists>ops. store_ready (w_store (snd (run_state (worker 3 calm sample_handler) (world_of (one_record sample_pending))))) \<and>
     w_store (snd (run_state (worker 3 calm sample_handler) (world_of (one_record sample_pending)))) =
       exec_ops ops (one_record sample_pending)"
proof -
  have "store_ready (one_record sample_pending)" by (rule one_record_ready) (simp_all add: sample_inv)
  then have "store_ready (w_store (world_of (one_record sample_pending)))" by simp
  from controller_refines_store [OF this calm_others, of _ sample_handler _ 3, OF disjI2 [OF disjI1 [OF refl]]]
  show ?thesis by auto
qed

section \<open>Deliveries that are not accepted\<close>

definition unchanged :: "file_store \<Rightarrow> file_store \<Rightarrow> bool" where
  "unchanged s0 s \<longleftrightarrow> clean_ok s \<and> map_of (fs_records s) = map_of (fs_records s0)"

lemma create_leads:
  assumes "alone E"
  shows "leads (unchanged s0) (store_call E (OpCreate r) (create r))
    (\<lambda>res. if res = Inr True then (\<lambda>_. True) else unchanged s0)"
proof (rule leads_store_call [OF assms])
  fix now s res s'
  assume J: "unchanged s0 s" and run: "create r now s = (res, s')"
  then have "clean_ok s" by (simp add: unchanged_def)
  with run show "(if res = Inr True then (\<lambda>_. True) else unchanged s0) s'"
    using J by (cases rule: create_cases) (auto simp: unchanged_def)
qed

lemma record_completion_leads:
  assumes "alone E" and key: "\<not> is_marker_key (r_key c)"
  shows "leads (unchanged s0) (store_do E (OpRecordCompletion c))
    (\<lambda>err. if err = None then (\<lambda>_. True) else unchanged s0)"
proof (rule leads_store_do [OF assms(1)])
  fix now s err s'
  assume J: "unchanged s0 s" and "exec_op now (OpRecordCompletion c) s = (err, s')"
  then have "record_completion c now s = (err, s')" and "clean_ok s" by (simp_all add: unchanged_def)
  then show "(if err = None then (\<lambda>_. True) else unchanged s0) s'"
    using key J by (cases rule: record_completion_cases) (auto simp: unchanged_def)
qed

definition answered :: "file_store \<Rightarrow> response \<Rightarrow> file_store \<Rightarrow> bool" where
  "answered s0 rsp s \<longleftrightarrow> fst rsp = 202 \<or> unchanged s0 s"

lemma answer: "leads (unchanged s0) (return rsp) (answered s0)"
  "leads (\<lambda>_. True) (return (202, text)) (answered s0)"
  by (rule leads_return, simp add: answered_def)+

lemma handle_queued_leads:
  assumes "alone E"
  shows "leads (unchanged s0) (handle_queued E h rq event key labels) (answered s0)"
proof -
  let ?r = "queued_record h event key (header_get (hd_headers rq) ''X-GitHub-Delivery'') labels"
  have fin: "leads (if res = Inr True then (\<lambda>_. True) else unchanged s0) (case res of
              Inl e \<Rightarrow> return (503, ''state unavailable'')
            | Inr False \<Rightarrow> return (200, ''duplicate'')
            | Inr True \<Rightarrow> do { _ \<leftarrow> signal; return (202, ''queued'') }) (answered s0)" for res
    by (cases res) (auto intro: answer leads_bind [OF aside(4)] split: bool.split)
  show ?thesis
    unfolding handle_queued_def Let_def
    by (intro leads_cases(1) answer leads_bind [OF create_leads [OF assms]] fin)
qed

lemma serve_completed_leads:
  assumes "alone E" and key: "\<not> is_marker_key key"
  shows "leads (unchanged s0) (serve_completed E h event key) (answered s0)"
proof -
  have fin: "leads (if err = None then (\<lambda>_. True) else unchanged s0) (case err of
       Some e \<Rightarrow> return (503, ''state unavailable'')
     | None \<Rightarrow> do { _ \<leftarrow> signal; return (202, ''completion recorded'') }) (answered s0)" for err
    by (cases err) (auto intro: answer leads_bind [OF aside(4)])
  have marker: "\<not> is_marker_key (r_key (completion_record h event key now))" for now
    using key by (simp add: completion_record_def)
  have accept: "leads (unchanged s0) (accept_completion E h event key) (answered s0)"
    unfolding accept_completion_def
    by (intro leads_bind [OF aside(2)] leads_bind [OF record_completion_leads [OF assms(1) marker]] fin)
  have read: "leads (unchanged s0) (store_read E f) (\<lambda>_. unchanged s0)" for f :: "file_store \<Rightarrow> bool"
    unfolding leads_def store_read_def using alone_others [OF assms(1)]
    by (auto simp: ensures_def run_simps split: prod.splits)
  show ?thesis
    unfolding serve_completed_def
    by (intro leads_cases(2) leads_cases(3) leads_cases(4) leads_cases(5) leads_cases(1) answer accept
        leads_bind [OF leads_store_get [OF assms(1)]] leads_bind [OF read])
qed

lemma serve_queued_leads:
  assumes "alone E"
  shows "leads (unchanged s0) (serve_queued E h rq event key) (answered s0)"
proof -
  have call: "leads (unchanged s0) (trusted_workflow_run_call E c ow rp i) (\<lambda>_. unchanged s0)" for c ow rp i
    unfolding trusted_workflow_run_call_def by (rule leads_aside)
  show ?thesis
    unfolding serve_queued_def
    by (intro leads_cases(2) leads_cases(3) leads_cases(5) leads_cases(1) answer handle_queued_leads [OF assms]
        leads_bind [OF call])
qed

lemma serve_http_leads:
  assumes "alone E"
  shows "leads (unchanged s0) (serve_http E h rq) (answered s0)"
proof -
  have event: "leads (unchanged s0) (serve_event E h rq event) (answered s0)" for event
  proof (cases "validate_repository h (ev_repo event)")
    case (Inl e)
    then show ?thesis by (auto simp: serve_event_def intro: answer)
  next
    case (Inr p)
    obtain repository targeted where p: "p = (repository, targeted)" by fastforce
    show ?thesis
    proof (cases targeted)
      case True
      with Inr p have key: "\<not> is_marker_key (job_key repository (wj_id (ev_job event)))"
        by (simp add: validated_key_not_marker)
      show ?thesis
        by (auto simp: serve_event_def Let_def Inr p True
            intro: answer serve_queued_leads [OF assms] serve_completed_leads [OF assms key])
    next
      case False
      with Inr p show ?thesis by (auto simp: serve_event_def intro: answer)
    qed
  qed
  show ?thesis
    unfolding serve_http_def
    by (intro leads_cases(1) leads_cases(2) leads_cases(3) answer leads_bind [OF aside(1)] event)
qed

text \<open>C28: A delivery that is not answered with 202 - unauthenticated, unauthorized, ignored,
a duplicate, malformed, or hit by a failure of the store or of GitHub - leaves every record of the
store as it was.\<close>

theorem rejected_delivery_changes_nothing:
  assumes "store_ready (w_store w)" and "others_satisfy E (\<lambda>_. False)"
    and "run_state (serve_http E h rq) w = ((status, text), w')" and "status \<noteq> 202"
  shows "lookup_record (w_store w') k = lookup_record (w_store w) k"
proof -
  have "unchanged (w_store w) (w_store w)"
    using assms(1) by (simp add: unchanged_def store_ready_def store_inv_def)
  then have "ensures w_store (serve_http E h rq) (answered (w_store w)) (w_store w)"
    using serve_http_leads [OF assms(2)] by (simp add: leads_def)
  from ensuresD [OF this assms(3)] assms(4) show ?thesis by (simp add: answered_def unchanged_def)
qed

text \<open>The example is a forged signature.\<close>

theorem rejected_delivery_changes_nothing_witness:
  "\<exists>w'. run_state (serve_http calm sample_handler (sample_delivery\<lparr>hd_headers := []\<rparr>))
       (world_of (one_record sample_pending)) = ((401, ''unauthorized''), w') \<and>
     lookup_record (w_store w') ''acme/app/7'' = Some sample_pending"
proof -
  let ?rq = "sample_delivery\<lparr>hd_headers := []\<rparr>" and ?w = "world_of (one_record sample_pending)"
  have body: "read_body ?rq = Some ''{}''"
    by (simp add: read_body_def sample_delivery_def max_body_size_def)
  have run: "run_state (serve_http calm sample_handler ?rq) ?w = ((401, ''unauthorized''), ?w)"
    by (simp add: serve_http_def body verify_webhook_signature_iff header_get_def)
      (simp add: sample_delivery_def)
  have ready: "store_ready (w_store ?w)" by simp (rule one_record_ready, simp_all add: sample_inv)
  have alone: "others_satisfy calm (\<lambda>_. False)" by simp
  from rejected_delivery_changes_nothing [OF ready alone run] run show ?thesis by simp
qed

end
