(* ===== verification/Reaper_Properties.thy ===== *)
theory Reaper_Properties
  imports Controller_Properties
begin

text \<open>
  The reaper replaces a runner, or schedules one for deletion, only on evidence that it is gone
  or idle.
\<close>

section \<open>Evidence in the log\<close>

definition deregistered :: "runner_record \<Rightarrow> event list \<Rightarrow> bool" where
  "deregistered r l \<longleftrightarrow>
    (owned_jit r \<longrightarrow> EvRemove (r_owner r) (r_repository r) (r_github_runner_id r) None \<in> set l)"

text \<open>
  Why a record may be queued again: its duplicates were found and cleaned up; or its runner never
  registered, is offline at GitHub, and its instance was deleted; or the provider has no
  instance for it and the store confirmed that the observation has been made often and long enough.
\<close>

definition instance_gone :: "handler \<Rightarrow> runner_record \<Rightarrow> event list \<Rightarrow> bool" where
  "instance_gone h r l \<longleftrightarrow>
    (\<exists>e. EvFind (r_key r) (Inl e) \<in> set l \<and> errors_is e ErrDuplicateInstances \<and>
      EvCleanup (r_key r) None \<in> set l) \<or>
    is_zero (r_registered_at r) \<and>
      EvRunnerStatus (r_owner r) (r_repository r) (r_github_runner_id r) (Inr RunnerOffline) \<in> set l \<and>
      EvDelete (r_instance_id r) (r_key r) None \<in> set l \<or>
    EvFind (r_key r) (Inr None) \<in> set l \<and>
      EvAnswer (OpObserveRunnerMissing (r_key r) (h_liveness_settle_window h)
        (h_liveness_confirmations h)) (Inr True) \<in> set l"

text \<open>
  Why its deletion may be scheduled: the job is completed and the registration removed, which
  GitHub refuses for a busy runner; or GitHub has no such runner and the store confirmed the
  observation.
\<close>

definition runner_idle :: "handler \<Rightarrow> runner_record \<Rightarrow> event list \<Rightarrow> bool" where
  "runner_idle h r l \<longleftrightarrow>
    deregistered r l \<and> (r_job_completed r \<or>
      EvJobStatus (r_owner r) (r_repository r) (r_job_id r) (Inr JobCompleted) \<in> set l) \<or>
    EvRunnerStatus (r_owner r) (r_repository r) (r_github_runner_id r) (Inr RunnerMissing) \<in> set l \<and>
      EvAnswer (OpObserveGitHubMissing (r_key r) (h_liveness_settle_window h)
        (h_liveness_confirmations h)) (Inr True) \<in> set l"

lemmas evidence_defs = deregistered_def instance_gone_def runner_idle_def

fun reconciled_ok :: "handler \<Rightarrow> runner_record \<Rightarrow> event \<Rightarrow> event list \<Rightarrow> bool" where
  "reconciled_ok h r (EvStore (OpUpdate k (URequeueMissingRunner n)) e) l =
     (k = r_key r \<and> deregistered r l \<and> instance_gone h r l)"
| "reconciled_ok h r (EvStore (OpUpdate k UScheduleDeletion) e) l = (k = r_key r \<and> runner_idle h r l)"
| "reconciled_ok h r e l = True"

text \<open>Events that are neither.\<close>

fun harmless :: "event \<Rightarrow> bool" where
  "harmless (EvStore (OpUpdate k (URequeueMissingRunner n)) e) = False"
| "harmless (EvStore (OpUpdate k UScheduleDeletion) e) = False"
| "harmless e = True"

lemma harmless_ok: "harmless e \<Longrightarrow> reconciled_ok h r e l"
  by (cases e rule: harmless.cases) auto

lemma harmless_then:
  "quiet harmless m \<Longrightarrow> logged (reconciled_ok h r) l \<Longrightarrow> ensures w_log m (\<lambda>_. logged (reconciled_ok h r)) l"
  by (rule ensures_logged [where q = harmless]) (simp_all add: harmless_ok)

lemma quiet_defer [intro!]: "quiet harmless (defer_step E h r e)"
  unfolding defer_step_def defer_reconciliation_h_def Let_def by auto

lemma defer_log:
  "logged (reconciled_ok h r) l \<Longrightarrow> ensures w_log (defer_step E h r e) (\<lambda>_. logged (reconciled_ok h r)) l"
  by (rule harmless_then [OF quiet_defer])

section \<open>The steps of a reconciliation\<close>

abbreviation fine :: "handler \<Rightarrow> runner_record \<Rightarrow> 'a \<Rightarrow> event list \<Rightarrow> bool" where
  "fine h r \<equiv> \<lambda>_. logged (reconciled_ok h r)"

lemma requeue_log:
  "logged (reconciled_ok h r) l \<Longrightarrow> deregistered r l \<Longrightarrow> instance_gone h r l \<Longrightarrow>
   ensures w_log (requeue E h r what) (fine h r) l"
  unfolding requeue_def
  by (auto intro!: ensures_bind [OF ensures_log_store_do] ensures_return)

lemmas log_steps = ensures_return ensures_bind [OF ensures_log_call] ensures_bind [OF ensures_log_store_do]
  ensures_bind [OF ensures_log_store_ask] ensures_bind [OF ensures_log_clock] ensures_log_store_do

lemma duplicate_log:
  assumes "logged (reconciled_ok h r) l"
    and "\<exists>e. EvFind (r_key r) (Inl e) \<in> set l \<and> errors_is e ErrDuplicateInstances"
  shows "ensures w_log (reconcile_duplicate_runners E h r) (fine h r) l"
  unfolding reconcile_duplicate_runners_def cleanup_runner_call_def remove_runner_call_def
  using assms(2)
  by (auto intro!: log_steps defer_log requeue_log simp: assms(1) evidence_defs split: option.split)

lemma unregistered_log:
  assumes "logged (reconciled_ok h r) l" and "is_zero (r_registered_at r)"
    and "EvRunnerStatus (r_owner r) (r_repository r) (r_github_runner_id r) (Inr RunnerOffline) \<in> set l"
  shows "ensures w_log (requeue_unregistered_runner E h r) (fine h r) l"
  unfolding requeue_unregistered_runner_def delete_runner_call_def remove_runner_call_def
  using assms(3)
  by (auto intro!: log_steps defer_log requeue_log simp: assms(1,2) evidence_defs split: option.split)

lemma github_missing_log:
  assumes "logged (reconciled_ok h r) l"
    and "EvRunnerStatus (r_owner r) (r_repository r) (r_github_runner_id r) (Inr RunnerMissing) \<in> set l"
  shows "ensures w_log (reconcile_github_missing_runner E h r) (fine h r) l"
  unfolding reconcile_github_missing_runner_def
  by (auto intro!: log_steps simp: assms evidence_defs split: sum.split bool.split)

lemma provider_missing_log:
  assumes "logged (reconciled_ok h r) l" and "EvFind (r_key r) (Inr None) \<in> set l"
  shows "ensures w_log (reconcile_provider_missing_runner E h r) (fine h r) l"
  unfolding reconcile_provider_missing_runner_def remove_runner_call_def
  by (auto intro!: log_steps defer_log requeue_log simp: assms evidence_defs
      split: option.split sum.split bool.split)

lemma registration_log:
  assumes "logged (reconciled_ok h r) l"
  shows "ensures w_log (reconcile_registration E h r) (fine h r) l"
  unfolding reconcile_registration_def runner_status_call_def
  by (auto intro!: log_steps defer_log github_missing_log unregistered_log simp: assms
      split: option.split sum.split)

lemma found_log:
  assumes "logged (reconciled_ok h r) l"
  shows "ensures w_log (reconcile_provider_found_runner E h r) (fine h r) l"
  unfolding reconcile_provider_found_runner_def workflow_job_status_call_def remove_idle_jit_def
    remove_runner_call_def
  by (auto intro!: log_steps defer_log registration_log simp: assms evidence_defs
      split: option.split sum.split)

lemma reconcile_log: "ensures w_log (reconcile_provisioned_runner E h r) (fine h r) []"
  unfolding reconcile_provisioned_runner_def find_runner_call_def
  by (auto intro!: log_steps defer_log duplicate_log found_log provider_missing_log
      split: option.split sum.split)

section \<open>The property\<close>

text \<open>C29: The reaper replaces a provisioned runner only on confirmed evidence. Before a record is
queued again its registration was removed from GitHub, and its duplicates were found and cleaned
up, or its runner never registered, is offline and its instance was deleted, or the provider has
no instance and the store has answered that this is confirmed over the settle window. It schedules
a deletion only after removing the registration of a completed job, or when GitHub has no such
runner and the store has answered that this is confirmed.\<close>

theorem replacement_needs_evidence:
  assumes "run_state (reconcile_provisioned_runner E h r) (w\<lparr>w_log := []\<rparr>) = (res, w')"
    and "w_log w' = late @ EvStore (OpUpdate k u) err # early"
  shows "(u = URequeueMissingRunner n \<longrightarrow> k = r_key r \<and> deregistered r early \<and> instance_gone h r early) \<and>
    (u = UScheduleDeletion \<longrightarrow> k = r_key r \<and> runner_idle h r early)"
proof -
  have "logged (reconciled_ok h r) (w_log w')"
    using reconcile_log [of E h r] assms(1) ensuresD [of w_log _ _ "w\<lparr>w_log := []\<rparr>"] by fastforce
  from logged_split [OF this [unfolded assms(2)]] show ?thesis by auto
qed


text \<open>The example: two instances of one job.\<close>

definition duplicating :: "unit env" where
  "duplicating = calm\<lparr>cc_find := \<lambda>c key x. (Inl ErrDuplicateInstances, x)\<rparr>"

lemma duplicating_simps [simp]:
  "e_now duplicating x = (1000, x)" "e_others duplicating x = ([], x)"
  "cc_find duplicating c key x = (Inl ErrDuplicateInstances, x)"
  "cc_cleanup duplicating c key x = (None, x)"
  "gc_remove_runner duplicating c owner repo i x = (None, x)"
  by (simp_all add: duplicating_def)

lemma sample_running_simps [simp]:
  "r_owner sample_running = ''acme''" "r_repository sample_running = ''app''"
  "r_github_runner_owned sample_running" "r_github_runner_id sample_running = 42"
  "r_next_attempt_at sample_running = zero_time" "r_registered_at sample_running = zero_time"
  by (simp_all add: sample_defs)

theorem replacement_needs_evidence_witness:
  "\<exists>res w' err early.
     run_state (reconcile_provisioned_runner duplicating sample_handler sample_running)
       ((world_of (one_record sample_running))\<lparr>w_log := []\<rparr>) = (res, w') \<and>
     w_log w' = EvStore (OpUpdate ''acme/app/7'' (URequeueMissingRunner 5)) err # early \<and>
     deregistered sample_running early \<and> instance_gone sample_handler sample_running early"
proof -
  let ?m = "reconcile_provisioned_runner duplicating sample_handler sample_running"
  let ?w = "(world_of (one_record sample_running))\<lparr>w_log := []\<rparr>"
  obtain res w' where run: "run_state ?m ?w = (res, w')" by fastforce
  then obtain err early where log:
    "w_log w' = [] @ EvStore (OpUpdate ''acme/app/7'' (URequeueMissingRunner 5)) err # early"
    by (auto simp: reconcile_provisioned_runner_def find_runner_call_def reconcile_duplicate_runners_def
        cleanup_runner_call_def remove_runner_call_def requeue_def run_simps world_of_def is_zero_def
        split: prod.splits)
  from replacement_needs_evidence [OF run log, of 5] log run show ?thesis by auto
qed

end
