(* ===== verification/Names_Properties.thy ===== *)
theory Names_Properties
  imports Controller_Samples
begin

text \<open>
  What the pure parts of the handler compute: the labels of a job against the allowlist, the key
  of its record and the name of its runner.
\<close>

section \<open>Labels\<close>

definition label_key :: "string \<Rightarrow> string" where
  "label_key raw = to_lower (trim_space raw)"

text \<open>
  The reference: a job is for this controller when it asks for the required label; it is refused
  for its first label outside the allowlist, and else gets the canonical spelling of its labels
  without repetitions, in the order of their first occurrence.
\<close>

definition labels_spec :: "handler \<Rightarrow> string list \<Rightarrow> (go_error + string list) option" where
  "labels_spec h requested =
    (if h_required_label h \<notin> label_key ` set requested then None
     else case find (\<lambda>raw. map_of (h_allowed_labels h) (label_key raw) = None) requested of
        Some raw \<Rightarrow> Some (Inl (ErrText (''label '' @ go_quote raw @ '' is not allowlisted'')))
      | None \<Rightarrow> Some (Inr (map (\<lambda>k. the (map_of (h_allowed_labels h) k))
          (rev (remdups (rev (map label_key requested)))))))"

definition new_keys :: "string list \<Rightarrow> string list \<Rightarrow> string list" where
  "new_keys seen keys = filter (\<lambda>k. k \<notin> set seen) (rev (remdups (rev keys)))"

lemma remdups_snoc: "remdups (xs @ [x]) = filter (\<lambda>y. y \<noteq> x) (remdups xs) @ [x]"
  by (induction xs) auto

lemma new_keys_simps [simp]:
  "new_keys seen [] = []"
  "new_keys seen (k # ks) = (if k \<in> set seen then new_keys seen ks else k # new_keys (k # seen) ks)"
  by (auto simp: new_keys_def remdups_snoc rev_filter intro: filter_cong)

lemma validate_labels_loop_is_find:
  "validate_labels_loop h raws found seen result =
    (case find (\<lambda>raw. map_of (h_allowed_labels h) (label_key raw) = None) raws of
       Some raw \<Rightarrow> Inl (ErrText (''label '' @ go_quote raw @ '' is not allowlisted''))
     | None \<Rightarrow>
         if found \<or> h_required_label h \<in> label_key ` set raws
         then Inr (result @ map (\<lambda>k. the (map_of (h_allowed_labels h) k)) (new_keys seen (map label_key raws)))
         else Inl (ErrText (''required label '' @ go_quote (h_required_label h) @ '' is missing'')))"
proof (induction raws arbitrary: found seen result)
  case (Cons raw raws)
  show ?case
    by (cases "map_of (h_allowed_labels h) (label_key raw)")
      (auto simp: Let_def label_key_def [symmetric] Cons.IH split: option.splits)
qed simp

lemma label_loop_origin:
  "label_loop raws allowed = Inr allowed' \<Longrightarrow>
   (\<forall>k l. map_of allowed k = Some l \<longrightarrow> to_lower l = k \<and> P l) \<Longrightarrow> (\<forall>raw \<in> set raws. P (trim_space raw)) \<Longrightarrow>
   map_of allowed' k = Some l \<Longrightarrow> to_lower l = k \<and> P l"
proof (induction raws arbitrary: allowed)
  case (Cons raw raws)
  let ?l = "trim_space raw"
  from Cons.prems(1) have rest: "label_loop raws (AList.update (to_lower ?l) ?l allowed) = Inr allowed'"
    by (simp add: Let_def split: if_splits)
  have "\<forall>k l. map_of (AList.update (to_lower ?l) ?l allowed) k = Some l \<longrightarrow> to_lower l = k \<and> P l"
    using Cons.prems(2,3) by (metis fun_upd_apply list.set_intros(1) map_of_update option.inject)
  from Cons.IH [OF rest this _ Cons.prems(4)] Cons.prems(3) show ?case by simp
qed simp

lemma allowed_labels_origin:
  assumes "normalize_allowed_labels required labels = Inr (r, allowed)"
  shows "to_lower r = r" and "map_of allowed r \<noteq> None"
    and "map_of allowed k = Some l \<Longrightarrow> to_lower l = k \<and> l \<in> trim_space ` set labels"
proof -
  let ?r = "to_lower (trim_space required)"
  have loop: "label_loop labels [] = Inr allowed" and found: "map_of allowed r \<noteq> None"
    and r: "r = (if ?r = [] then ''self-hosted'' else ?r)"
    using assms by (simp_all add: normalize_allowed_labels_def Let_def split: sum.splits if_split_asm)
  show "map_of allowed r \<noteq> None" by (fact found)
  have "to_lower ''self-hosted'' = ''self-hosted''" by code_simp
  then show "to_lower r = r" by (subst (1 2) r) simp
  show "map_of allowed k = Some l \<Longrightarrow> to_lower l = k \<and> l \<in> trim_space ` set labels"
    by (rule label_loop_origin [OF loop, where P = "\<lambda>l. l \<in> trim_space ` set labels"]) auto
qed

text \<open>C30: The labels of a job are decided as the reference says: the loop with its set of seen
labels computes the canonical labels in order of first occurrence, or names the first label
outside the allowlist; and a job that is accepted gets only configured labels, none twice up to
case, the required one among them.\<close>

theorem authorize_labels_is_reference:
  assumes "normalize_allowed_labels required labels = Inr (h_required_label h, h_allowed_labels h)"
  shows "authorize_labels h requested = labels_spec h requested \<and>
    (authorize_labels h requested = Some (Inr granted) \<longrightarrow>
       set granted \<subseteq> trim_space ` set labels \<and> distinct (map to_lower granted) \<and>
       set (map to_lower granted) = label_key ` set requested \<and>
       h_required_label h \<in> set (map to_lower granted))"
proof -
  note origin = allowed_labels_origin [OF assms]
  have fold: "list_ex (\<lambda>raw. equal_fold (trim_space raw) (h_required_label h)) requested \<longleftrightarrow>
      h_required_label h \<in> label_key ` set requested"
    by (auto simp: list_ex_iff equal_fold_def label_key_def origin(1) image_iff intro: sym)
  have spec: "authorize_labels h requested = labels_spec h requested"
    by (auto simp: authorize_labels_def labels_spec_def fold validate_labels_def
        validate_labels_loop_is_find new_keys_def split: option.splits)
  let ?keys = "rev (remdups (rev (map label_key requested)))"
  have granted: "set granted \<subseteq> trim_space ` set labels \<and> map to_lower granted = ?keys \<and>
      h_required_label h \<in> label_key ` set requested"
    if "authorize_labels h requested = Some (Inr granted)"
  proof -
    from that have g: "granted = map (\<lambda>k. the (map_of (h_allowed_labels h) k)) ?keys"
      and req: "h_required_label h \<in> label_key ` set requested"
      and all: "find (\<lambda>raw. map_of (h_allowed_labels h) (label_key raw) = None) requested = None"
      by (auto simp: spec labels_spec_def split: if_splits option.splits)
    have key: "to_lower (the (map_of (h_allowed_labels h) k)) = k \<and>
        the (map_of (h_allowed_labels h) k) \<in> trim_space ` set labels" if "k \<in> set ?keys" for k
    proof -
      from all that obtain l where "map_of (h_allowed_labels h) k = Some l"
        by (auto simp: find_None_iff)
      with origin(3) [OF this] show ?thesis by auto
    qed
    from key have "map (\<lambda>k. to_lower (the (map_of (h_allowed_labels h) k))) ?keys = map (\<lambda>k. k) ?keys"
      by (intro map_cong) auto
    then have "map to_lower granted = ?keys" by (simp add: g comp_def)
    with key req g show ?thesis by auto
  qed
  have "set granted \<subseteq> trim_space ` set labels \<and> distinct (map to_lower granted) \<and>
      set (map to_lower granted) = label_key ` set requested \<and>
      h_required_label h \<in> set (map to_lower granted)"
    if "authorize_labels h requested = Some (Inr granted)"
    using granted [OF that] by (simp del: set_map add: set_map [of label_key])
  with spec show ?thesis by blast
qed

theorem authorize_labels_is_reference_witness:
  "authorize_labels (sample_handler\<lparr>h_allowed_labels := [(''self-hosted'', ''self-hosted'')]\<rparr>)
      [''Self-Hosted '', ''self-hosted''] = Some (Inr [''self-hosted''])"
proof -
  let ?h = "sample_handler\<lparr>h_allowed_labels := [(''self-hosted'', ''self-hosted'')]\<rparr>"
  have "normalize_allowed_labels ''self-hosted'' [''self-hosted''] =
      Inr (h_required_label ?h, h_allowed_labels ?h)"
    by (simp, code_simp)
  from authorize_labels_is_reference [OF this, of "[''Self-Hosted '', ''self-hosted'']"]
  have "authorize_labels ?h [''Self-Hosted '', ''self-hosted''] = labels_spec ?h [''Self-Hosted '', ''self-hosted'']"
    by blast
  also have "\<dots> = Some (Inr [''self-hosted''])" by code_simp
  finally show ?thesis .
qed

section \<open>Keys and names\<close>

lemma itoa_no_colon: "CHR '':'' \<notin> set (itoa i)"
  using itoa_chars [of "CHR '':''" i] by auto

lemma split_at_last:
  assumes "a @ c # b = a' @ c # b'" and "c \<notin> set b" and "c \<notin> set b'"
  shows "a = a' \<and> b = b'"
proof -
  from assms(1) have "rev b @ c # rev a = rev b' @ c # rev a'"
    by (metis append.assoc append_Cons append_Nil rev.simps(2) rev_append)
  moreover have "takeWhile (\<lambda>x. x \<noteq> c) (rev b @ c # rev a) = rev b"
    "takeWhile (\<lambda>x. x \<noteq> c) (rev b' @ c # rev a') = rev b'"
    using assms(2,3) by (auto simp: takeWhile_append)
  ultimately have "rev b = rev b'" by metis
  then have "b = b'" by simp
  with assms(1) show ?thesis by simp
qed

text \<open>C31: The key of a record identifies its job: two jobs share a key exactly if they have the
same identifier in the same repository, up to case.\<close>

theorem job_key_is_injective:
  "job_key repository job_id = job_key repository' job_id' \<longleftrightarrow>
    to_lower repository = to_lower repository' \<and> job_id = job_id'"
proof
  assume "job_key repository job_id = job_key repository' job_id'"
  then have "to_lower repository @ CHR '':'' # itoa job_id = to_lower repository' @ CHR '':'' # itoa job_id'"
    by (simp add: job_key_def)
  from split_at_last [OF this itoa_no_colon itoa_no_colon]
  show "to_lower repository = to_lower repository' \<and> job_id = job_id'"
    using itoa_inject by blast
qed (simp add: job_key_def)

lemma trim_right_prefix: "\<exists>n. s = trim_right c s @ replicate n c"
proof -
  have "takeWhile (\<lambda>d. d = c) xs = replicate (length (takeWhile (\<lambda>d. d = c) xs)) c" for xs :: string
    by (induction xs) auto
  then have "rev s = replicate (length (takeWhile (\<lambda>d. d = c) (rev s))) c @ dropWhile (\<lambda>d. d = c) (rev s)"
    by (metis takeWhile_dropWhile_id)
  then have "s = trim_right c s @ replicate (length (takeWhile (\<lambda>d. d = c) (rev s))) c"
    unfolding trim_right_def by (metis rev_append rev_replicate rev_rev_ident)
  then show ?thesis by blast
qed

lemma trim_right_facts:
  "length (trim_right c s) \<le> length s" "set (trim_right c s) \<subseteq> set s"
  "s = x # t \<Longrightarrow> x \<noteq> c \<Longrightarrow> \<exists>u. trim_right c s = x # u"
proof -
  obtain n where n: "s = trim_right c s @ replicate n c" using trim_right_prefix by blast
  show "length (trim_right c s) \<le> length s" by (subst (2) n) simp
  show "set (trim_right c s) \<subseteq> set s" by (subst (2) n) simp
  show "\<exists>u. trim_right c s = x # u" if "s = x # t" "x \<noteq> c"
  proof -
    from n that(1) have "trim_right c s @ replicate n c = x # t" by simp
    with that(2) show ?thesis by (cases "trim_right c s"; cases n) simp_all
  qed
qed

definition name_base :: "string \<Rightarrow> string" where
  "name_base repository = trim_right (CHR ''-'') (take 46 (map runner_base_char (to_lower repository)))"

lemma runner_name_shape:
  assumes "length (sha (job_key repository job_id)) = 32"
  shows "runner_name sha repository job_id =
    ''eph-'' @ name_base repository @ ''-'' @ hex_encode (take 6 (sha (job_key repository job_id)))"
  using assms by (simp add: runner_name_def name_base_def Let_def)

lemma last_twelve: "length h = 12 \<Longrightarrow> drop (length (a @ h) - 12) (a @ h) = h"
  by simp

lemma hex_digit_cases: "n < 16 \<Longrightarrow> is_lower (hex_digit n) \<or> is_digit (hex_digit n)"
  by (auto simp: is_lower_def is_digit_def hex_digit_code)

lemma hex_encode_chars: "c \<in> set (hex_encode s) \<Longrightarrow> is_lower c \<or> is_digit c"
proof -
  assume "c \<in> set (hex_encode s)"
  then obtain x where "c = hex_digit (code x div 16) \<or> c = hex_digit (code x mod 16)"
    by (auto simp: hex_encode_def)
  moreover have "code x div 16 < 16" "code x mod 16 < 16" using code_lt_256 [of x] by auto
  ultimately show ?thesis using hex_digit_cases by metis
qed

lemma name_base_facts:
  "length (name_base repository) \<le> 46"
  "c \<in> set (name_base repository) \<Longrightarrow> is_lower c \<or> is_digit c \<or> c = CHR ''-''"
  "to_lower repository = x # t \<Longrightarrow> is_lower x \<or> is_digit x \<Longrightarrow> \<exists>u. name_base repository = x # u"
proof -
  let ?s = "take 46 (map runner_base_char (to_lower repository))"
  show "length (name_base repository) \<le> 46"
    using trim_right_facts(1) [of "CHR ''-''" ?s] by (simp add: name_base_def)
  show "is_lower c \<or> is_digit c \<or> c = CHR ''-''" if "c \<in> set (name_base repository)"
    using that trim_right_facts(2) [of "CHR ''-''" ?s]
    by (auto simp: name_base_def runner_base_char_def dest!: subsetD in_set_takeD split: if_splits)
  show "\<exists>u. name_base repository = x # u"
    if "to_lower repository = x # t" and x: "is_lower x \<or> is_digit x"
  proof -
    from x have "runner_base_char x = x" by (simp add: runner_base_char_def)
    with that(1) have "?s = x # take 45 (map runner_base_char t)" by (simp add: numeral_eq_Suc)
    moreover from x have "x \<noteq> CHR ''-''" by (auto simp: is_lower_def is_digit_def code_def)
    ultimately show ?thesis unfolding name_base_def by (rule trim_right_facts(3))
  qed
qed

lemma alnum_lowers: "is_alnum c \<Longrightarrow> is_lower (to_lower_char c) \<or> is_digit (to_lower_char c)"
  by (auto simp: is_alnum_def is_lower_def is_upper_def is_digit_def to_lower_char_def code_def Let_def)

text \<open>The base of the name of an accepted repository is not empty.\<close>

lemma accepted_name_base:
  assumes "validate_repository h repo = Inr (full_name, authorized)"
  shows "name_base (ro_name repo) \<noteq> []"
proof -
  let ?low = "to_lower (ro_name repo)"
  have "safe_repo_name ?low" using assms by (auto simp: validate_repository_def Let_def split: if_splits)
  then consider "?low = ''.github''" | "safe_name ?low" by (auto simp: safe_repo_name_def)
  then show ?thesis
  proof cases
    case 1
    then show ?thesis by (simp add: name_base_def) code_simp
  next
    case 2
    then obtain c cs where c: "?low = c # cs" "is_alnum c"
      by (auto simp: safe_name_def matches_def split: list.splits)
    have "?low = to_lower_char c # to_lower cs"
      using arg_cong [OF c(1), of to_lower] by simp (simp add: to_lower_def)
    from name_base_facts(3) [OF this alnum_lowers [OF c(2)]] show ?thesis by auto
  qed
qed

text \<open>C32: The runner of a queued job has a name that is a DNS label of at most 63 lower-case
letters, digits and dashes, which the webhook recognises as one of its own when the completion
event comes back with it. The worker builds it from the record of the delivery, that is from the
bare repository name and the job id; it carries 48 bits of the hash of the two, so that equal names
mean equal hash prefixes.\<close>

theorem runner_name_is_recognised:
  assumes "validate_repository h (ev_repo event) = Inr (full_name, authorized)"
    and "\<forall>s. length (sha s) = 32"
    and "r = queued_record h event key delivery labels"
  shows "let name = runner_name sha (r_repository r) (r_job_id r) in
    length name \<le> 63 \<and> list_all (\<lambda>c. is_lower c \<or> is_digit c \<or> c = CHR ''-'') name \<and>
    has_prefix name ''eph-'' \<and> looks_like_ephemeral_runner_name name \<and>
    (name = runner_name sha repository' job_id' \<longrightarrow>
       take 6 (sha (job_key (ro_name (ev_repo event)) (wj_id (ev_job event)))) =
       take 6 (sha (job_key repository' job_id')))"
proof -
  define repository job_id where rj: "repository = ro_name (ev_repo event)" "job_id = wj_id (ev_job event)"
  have r: "r_repository r = repository" "r_job_id r = job_id"
    by (simp_all add: assms(3) queued_record_def rj)
  let ?n = "runner_name sha repository job_id"
  let ?h = "\<lambda>r i. hex_encode (take 6 (sha (job_key r i)))"
  have shape: "runner_name sha r i = ''eph-'' @ name_base r @ ''-'' @ ?h r i" for r i
    using assms(2) by (simp add: runner_name_shape)
  have len: "length (?h r i) = 12" for r i using assms(2) by simp
  obtain x u where u: "name_base repository = x # u"
    using accepted_name_base [OF assms(1)] by (auto simp: rj neq_Nil_conv)
  have drop12: "drop (length (runner_name sha r i) - 12) (runner_name sha r i) = ?h r i" for r i
    using last_twelve [OF len, of "''eph-'' @ name_base r @ ''-''"] by (simp add: shape)
  have "length ?n \<le> 63" using name_base_facts(1) [of repository] len by (simp add: shape)
  moreover have "list_all (\<lambda>c. is_lower c \<or> is_digit c \<or> c = CHR ''-'') ?n"
    using name_base_facts(2) hex_encode_chars
    by (auto simp: shape list_all_iff is_lower_def is_digit_def code_def)
  moreover have "has_prefix ?n ''eph-''" by (simp add: shape has_prefix_def)
  moreover have "looks_like_ephemeral_runner_name ?n"
    unfolding looks_like_ephemeral_runner_name_def drop12
    using u len by (simp add: shape has_prefix_def hex_decode_encode)
  moreover have "take 6 (sha (job_key repository job_id)) = take 6 (sha (job_key repository' job_id'))"
    if "?n = runner_name sha repository' job_id'"
    using drop12 [of repository job_id] drop12 [of repository' job_id'] that
    by (metis hex_encode_inject)
  ultimately show ?thesis by (simp add: r Let_def rj)
qed

definition github_event :: workflow_job_event where
  "github_event = zero_event\<lparr>ev_job := (ev_job zero_event)\<lparr>wj_id := 7\<rparr>,
     ev_repo := \<lparr>ro_full_name = ''Acme/App'', ro_name = ''App'', ro_private = True,
       ro_owner_login = ''Acme''\<rparr>\<rparr>"

theorem runner_name_is_recognised_witness:
  "looks_like_ephemeral_runner_name (runner_name (\<lambda>s. replicate 32 (CHR ''k'')) ''App'' 7)"
proof -
  have "validate_repository sample_handler (ev_repo github_event) = Inr (''acme/app'', True)"
    by code_simp
  from runner_name_is_recognised [OF this, of "\<lambda>s. replicate 32 (CHR ''k'')", OF _ refl] show ?thesis
    by (simp add: Let_def queued_record_def github_event_def)
qed

end
