(* ===== verification/GitHub_Properties.thy ===== *)
theory GitHub_Properties
  imports GitHub_API "HOL-Library.Sublist"
begin

text \<open>
  Properties of the GitHub App client: the codes of runner configurations, and the scope of the
  tokens that it caches and uses.
\<close>

section \<open>Configurations\<close>

lemma sextet_b64: "sextet (b64 n) = Some (n mod 64) \<and> code (b64 n) \<noteq> 10 \<and> code (b64 n) \<noteq> 13"
proof -
  have "n mod 64 \<in> set [0..<64]" by simp
  moreover have "list_all (\<lambda>n. sextet (base64_alphabet ! n) = Some n \<and>
      code (base64_alphabet ! n) \<noteq> 10 \<and> code (base64_alphabet ! n) \<noteq> 13) [0..<64]"
    by code_simp
  ultimately show ?thesis unfolding list_all_iff b64_def by blast
qed

lemma sextet_equals: "sextet (CHR ''='') = None"
  by code_simp

lemma quanta_step:
  "sextet w = Some a \<Longrightarrow> sextet x = Some b \<Longrightarrow> sextet y = Some c \<Longrightarrow> sextet z = Some d \<Longrightarrow>
   base64_quanta (w # x # y # z # s) =
     map_option (\<lambda>rest. char_of (a * 4 + b div 16) # char_of (b mod 16 * 16 + c div 4) #
       char_of (c mod 4 * 64 + d) # rest) (base64_quanta s)"
  by (cases s) (auto split: option.split)

lemma char_of_code [simp]: "char_of (code c) = c"
  by (simp add: code_def)

lemma byte_parts [simp]:
  "code c div 4 mod 64 = code c div 4" "code c div 16 div 16 = 0" "code c div 64 div 4 = 0"
  "code c div 16 mod 16 = code c div 16" "code c div 64 mod 4 = code c div 64"
  using code_lt_256 [of c] by auto

lemma sextets_bounded [simp]:
  "(code a mod 4 * 16 + code b div 16) mod 64 = code a mod 4 * 16 + code b div 16"
  "(code b mod 16 * 4 + code c div 64) mod 64 = code b mod 16 * 4 + code c div 64"
  "code a mod 4 * 16 mod 64 = code a mod 4 * 16" "code b mod 16 * 4 mod 64 = code b mod 16 * 4"
proof -
  have "code a mod 4 < 4" "code b mod 16 < 16" "code b div 16 < 16" "code c div 64 < 4"
    using code_lt_256 [of b] code_lt_256 [of c] by auto
  then have "code a mod 4 * 16 + code b div 16 < 64" "code b mod 16 * 4 + code c div 64 < 64"
    "code a mod 4 * 16 < 64" "code b mod 16 * 4 < 64" by linarith+
  then show
    "(code a mod 4 * 16 + code b div 16) mod 64 = code a mod 4 * 16 + code b div 16"
    "(code b mod 16 * 4 + code c div 64) mod 64 = code b mod 16 * 4 + code c div 64"
    "code a mod 4 * 16 mod 64 = code a mod 4 * 16" "code b mod 16 * 4 mod 64 = code b mod 16 * 4"
    by (simp_all only: mod_less)
qed

lemma quanta_encode: "base64_quanta (base64_encode d) = Some d"
  by (induction d rule: base64_encode.induct)
    (simp_all add: quanta_step sextet_b64 sextet_equals)

lemma encode_no_breaks: "filter (\<lambda>c. code c \<noteq> 10 \<and> code c \<noteq> 13) (base64_encode d) = base64_encode d"
proof -
  have eq: "code (CHR ''='') = 61" by code_simp
  show ?thesis by (induction d rule: base64_encode.induct) (simp_all add: sextet_b64 eq)
qed

text \<open>C33: A runner configuration is accepted exactly if it is the standard base64 coding of some
bytes, so that it can be handed to the instance unchanged: decoding inverts encoding, and a text
that decodes but is not in canonical form - line breaks, spare bits, wrong padding - is refused.\<close>

theorem jit_encoding_is_canonical:
  "base64_decode (base64_encode d) = Some d \<and>
   (valid_jit_encoding s \<longleftrightarrow> (\<exists>d. d \<noteq> [] \<and> s = base64_encode d))"
  by (auto simp: valid_jit_encoding_def base64_decode_def encode_no_breaks quanta_encode split: option.splits)

section \<open>Tokens\<close>

text \<open>A transport that also keeps the requests it was given with their answers, latest first.\<close>

type_synonym exchange = "http_request \<times> (go_error + http_response)"

definition recorded :: "'x net \<Rightarrow> ('x \<times> exchange list) net" where
  "recorded N =
    \<lparr>net_do = (\<lambda>rq (x, sent). case net_do N rq x of (r, y) \<Rightarrow> (r, (y, (rq, r) # sent))),
     net_now = (\<lambda>(x, sent). case net_now N x of (t, y) \<Rightarrow> (t, (y, sent))),
     net_json = net_json N, net_time = net_time N, net_http_time = net_http_time N,
     net_pem = net_pem N, net_pkcs1 = net_pkcs1 N, net_pkcs8 = net_pkcs8 N, net_sign = net_sign N\<rparr>"

text \<open>
  A token is granted for an App in view of the exchanges so far when one of them asked for a token of
  the scope of the App and GitHub issued this token in an answer with status 201 that names exactly
  the allowed repositories and at least the wanted permissions: the code refuses a missing
  permission, and passes over further ones.
\<close>

definition granted :: "'x net \<Rightarrow> github_app \<Rightarrow> exchange list \<Rightarrow> string \<Rightarrow> bool" where
  "granted N a es token \<longleftrightarrow>
    (\<exists>names expected scope jwt r t. token_scope a = Inr (names, expected, scope) \<and>
       (token_request a names jwt, Inr r) \<in> set es \<and> hr_status r = 201 \<and>
       unmarshal (net_json N) (dec_token_reply N) zero_token_reply (hr_body r) = Inr t \<and>
       tr_token t = token \<and> token \<noteq> '''' \<and>
       header_get (tr_permissions t) ''administration'' = ''write'' \<and>
       (app_read_workflow_runs a \<longrightarrow> header_get (tr_permissions t) ''actions'' = ''read'') \<and>
       join_with '','' (sort (map to_lower (tr_repositories t))) = join_with '','' expected)"

text \<open>
  The requests that may leave the client after some exchanges: for a token of its own scope, or
  under a granted one.
\<close>

definition admissible :: "'x net \<Rightarrow> github_app \<Rightarrow> exchange list \<Rightarrow> http_request \<Rightarrow> bool" where
  "admissible N a es rq \<longleftrightarrow>
    (\<exists>names expected scope jwt. token_scope a = Inr (names, expected, scope) \<and> rq = token_request a names jwt) \<or>
    (\<exists>token meth owner repo suffix body. granted N a es token \<and>
       rq = repo_request meth (repo_url owner repo suffix) token body)"

fun in_order :: "'x net \<Rightarrow> github_app \<Rightarrow> exchange list \<Rightarrow> bool" where
  "in_order N a [] = True"
| "in_order N a ((rq, r) # es) = (admissible N a es rq \<and> in_order N a es)"

lemma in_order_split: "in_order N a (late @ (rq, r) # early) \<Longrightarrow> admissible N a early rq"
  by (induction late) auto

lemma granted_later: "granted N a es token \<Longrightarrow> suffix es es' \<Longrightarrow> granted N a es' token"
  unfolding granted_def using set_mono_suffix by blast

definition uncached :: "github_app \<Rightarrow> int \<times> int \<times> string \<times> string list \<times> bool" where
  "uncached a = (app_id a, app_installation_id a, app_private_key a, app_allowed_repositories a,
     app_read_workflow_runs a)"

lemma uncached_cong:
  assumes "uncached a = uncached b"
  shows "app_id a = app_id b" "app_installation_id a = app_installation_id b"
    "app_private_key a = app_private_key b" "app_allowed_repositories a = app_allowed_repositories b"
    "app_read_workflow_runs a = app_read_workflow_runs b"
  using assms by (simp_all add: uncached_def)

lemma config_cong:
  assumes "uncached a = uncached b"
  shows "token_scope a = token_scope b" "token_request a names jwt = token_request b names jwt"
    "check_token a expected t = check_token b expected t"
  by (simp_all add: token_scope_def token_request_def check_token_def uncached_cong [OF assms])

abbreviation exchanges :: "('x \<times> exchange list) gh \<Rightarrow> exchange list" where
  "exchanges s \<equiv> snd (gh_outside s)"

definition client_ok :: "'x net \<Rightarrow> github_app \<Rightarrow> ('x \<times> exchange list) gh \<Rightarrow> bool" where
  "client_ok N a s \<longleftrightarrow> uncached (gh_app s) = uncached a \<and>
    (app_cached_token (gh_app s) = '''' \<or> granted N a (exchanges s) (app_cached_token (gh_app s))) \<and>
    in_order N a (exchanges s)"

text \<open>
  After the exchanges \<open>es\<close> and possibly others, a call keeps the client in order, only adds
  exchanges, and its value, if it has one, satisfies \<open>Q\<close> together with them.
\<close>

definition safe :: "'x net \<Rightarrow> github_app \<Rightarrow> exchange list \<Rightarrow> ('x \<times> exchange list, 'v) gh_call \<Rightarrow>
    (exchange list \<Rightarrow> 'v \<Rightarrow> bool) \<Rightarrow> bool" where
  "safe N a es m Q \<longleftrightarrow> (\<forall>s r t. client_ok N a s \<longrightarrow> suffix es (exchanges s) \<longrightarrow> run_state m s = (r, t) \<longrightarrow>
     client_ok N a t \<and> suffix (exchanges s) (exchanges t) \<and> (\<forall>v. r = Inr v \<longrightarrow> Q (exchanges t) v))"

lemma safeI:
  "(\<And>s r t. client_ok N a s \<Longrightarrow> suffix es (exchanges s) \<Longrightarrow> run_state m s = (r, t) \<Longrightarrow>
     client_ok N a t \<and> suffix (exchanges s) (exchanges t) \<and> (\<forall>v. r = Inr v \<longrightarrow> Q (exchanges t) v)) \<Longrightarrow>
   safe N a es m Q"
  by (simp add: safe_def)

lemma safeD:
  "safe N a es m Q \<Longrightarrow> client_ok N a s \<Longrightarrow> suffix es (exchanges s) \<Longrightarrow> run_state m s = (r, t) \<Longrightarrow>
   client_ok N a t \<and> suffix (exchanges s) (exchanges t) \<and> (\<forall>v. r = Inr v \<longrightarrow> Q (exchanges t) v)"
  by (simp add: safe_def)

lemma safe_fail [intro!]: "safe N a es (fail e) Q"
  by (simp add: safe_def)

lemma safe_ok: "(\<And>es'. suffix es es' \<Longrightarrow> Q es' v) \<Longrightarrow> safe N a es (ok v) Q"
  by (simp add: safe_def)

lemma safe_ok_any [intro!]: "safe N a es (ok v) (\<lambda>_ _. True)"
  by (rule safe_ok) simp

lemma safe_check:
  assumes "safe N a es m P" and "\<And>v es'. P es' v \<Longrightarrow> safe N a es' (f v) Q"
  shows "safe N a es (check wrap m f) Q"
proof (rule safeI)
  fix s r t
  assume ok: "client_ok N a s" "suffix es (exchanges s)" and run: "run_state (check wrap m f) s = (r, t)"
  obtain q u where m: "run_state m s = (q, u)" by fastforce
  from safeD [OF assms(1) ok m] have u: "client_ok N a u" "suffix (exchanges s) (exchanges u)"
    "\<forall>v. q = Inr v \<longrightarrow> P (exchanges u) v" by simp_all
  show "client_ok N a t \<and> suffix (exchanges s) (exchanges t) \<and> (\<forall>v. r = Inr v \<longrightarrow> Q (exchanges t) v)"
  proof (cases q)
    case (Inl e)
    with run m u show ?thesis by auto
  next
    case (Inr v)
    with run m have "run_state (f v) u = (r, t)" by simp
    from safeD [OF assms(2) u(1) suffix_order.refl this] u(2,3) Inr show ?thesis
      by (auto intro: suffix_order.trans)
  qed
qed

lemma client_ok_app: "client_ok N a s \<Longrightarrow> uncached (gh_app s) = uncached a"
  "client_ok N a s \<Longrightarrow> app_cached_token (gh_app s) = [] \<or> granted N a (exchanges s) (app_cached_token (gh_app s))"
  by (simp_all add: client_ok_def)

lemma safe_get:
  assumes "\<And>b es'. uncached b = uncached a \<Longrightarrow>
    app_cached_token b = [] \<or> granted N a es' (app_cached_token b) \<Longrightarrow> safe N a es' (f b) Q"
  shows "safe N a es (State_Monad.bind gh_get f) Q"
proof (rule safeI)
  fix s r t assume ok: "client_ok N a s" and run: "run_state (State_Monad.bind gh_get f) s = (r, t)"
  from run have "run_state (f (gh_app s)) s = (r, t)" by simp
  from safeD [OF assms [OF client_ok_app [OF ok]] ok suffix_order.refl this]
  show "client_ok N a t \<and> suffix (exchanges s) (exchanges t) \<and> (\<forall>v. r = Inr v \<longrightarrow> Q (exchanges t) v)" .
qed

lemma client_ok_outside:
  "client_ok N a s \<Longrightarrow> gh_outside s = (x, sent) \<Longrightarrow> client_ok N a (s\<lparr>gh_outside := (y, sent)\<rparr>)"
  "client_ok N a s \<Longrightarrow> gh_outside s = (x, sent) \<Longrightarrow> admissible N a sent rq \<Longrightarrow>
     client_ok N a (s\<lparr>gh_outside := (y, (rq, r) # sent)\<rparr>)"
  by (auto simp: client_ok_def intro: granted_later suffix_ConsI)

lemma admissible_later: "admissible N a es rq \<Longrightarrow> suffix es es' \<Longrightarrow> admissible N a es' rq"
  unfolding admissible_def using granted_later by blast

lemma recorded_run [simp]:
  "net_now (recorded N) (x, sent) = (case net_now N x of (t, y) \<Rightarrow> (t, (y, sent)))"
  "net_do (recorded N) rq (x, sent) = (case net_do N rq x of (r, y) \<Rightarrow> (r, (y, (rq, r) # sent)))"
  by (simp_all add: recorded_def)

lemma safe_now [intro!]:
  assumes "\<And>now. safe N a es (f now) Q"
  shows "safe N a es (State_Monad.bind (gh_now (recorded N)) f) Q"
proof (rule safeI)
  fix s r t
  assume ok: "client_ok N a s" and es: "suffix es (exchanges s)"
    and run: "run_state (State_Monad.bind (gh_now (recorded N)) f) s = (r, t)"
  obtain x sent where s: "gh_outside s = (x, sent)" by fastforce
  obtain now y where "net_now N x = (now, y)" by fastforce
  with run s have "run_state (f now) (s\<lparr>gh_outside := (y, sent)\<rparr>) = (r, t)" by simp
  from safeD [OF assms client_ok_outside(1) [OF ok s] _ this] es s
  show "client_ok N a t \<and> suffix (exchanges s) (exchanges t) \<and> (\<forall>v. r = Inr v \<longrightarrow> Q (exchanges t) v)" by simp
qed

lemma safe_do:
  assumes "admissible N a es rq"
  shows "safe N a es (gh_do (recorded N) rq) (\<lambda>es' r. (rq, Inr r) \<in> set es')"
proof (rule safeI)
  fix s r t
  assume ok: "client_ok N a s" and es: "suffix es (exchanges s)" and run: "run_state (gh_do (recorded N) rq) s = (r, t)"
  obtain x sent where s: "gh_outside s = (x, sent)" by fastforce
  obtain u y where "net_do N rq x = (u, y)" by fastforce
  with run s have t: "t = s\<lparr>gh_outside := (y, (rq, u) # sent)\<rparr>" "r = u" by auto
  have "admissible N a sent rq" using admissible_later [OF assms] es s by simp
  with client_ok_outside(2) [OF ok s this] s t
  show "client_ok N a t \<and> suffix (exchanges s) (exchanges t) \<and> (\<forall>v. r = Inr v \<longrightarrow> (rq, Inr v) \<in> set (exchanges t))"
    by (auto intro: suffix_ConsI)
qed

lemma safe_fail_status [intro!]: "safe N a es (fail_status (recorded N) r action) Q"
proof (cases "rate_limited_response r")
  case True
  have eq: "fail_status (recorded N) r action = State_Monad.bind (gh_now (recorded N))
      (\<lambda>now. fail (ErrRateLimit (retry_at_from_headers (recorded N) now (hr_headers r)) (hr_status r)))"
    using True by (simp add: fail_status_def api_status_error_def)
  show ?thesis unfolding eq by (intro safe_now safe_fail)
next
  case False
  then have eq: "fail_status (recorded N) r action = fail (ErrAPIStatus (hr_status r) action)"
    by (simp add: fail_status_def api_status_error_def)
  show ?thesis unfolding eq by (rule safe_fail)
qed

lemma safe_return: "safe N a es (State_Monad.return r) (\<lambda>_ _. True)"
  by (simp add: safe_def)

lemma safe_jwt [intro!]: "safe N a es (generate_jwt (recorded N)) (\<lambda>_ _. True)"
  unfolding generate_jwt_def
  by (intro safe_get) (auto split: option.split sum.split intro: safe_return)

lemma recorded_codecs [simp]:
  "net_json (recorded N) = net_json N" "dec_token_reply (recorded N) = dec_token_reply N"
proof -
  show json: "net_json (recorded N) = net_json N" by (simp add: recorded_def)
  have "dec_time (recorded N) = dec_time N"
    by (rule ext)+ (simp add: dec_time_def recorded_def split: json.split)
  then show "dec_token_reply (recorded N) = dec_token_reply N" by (simp add: dec_token_reply_def)
qed

lemma safe_cache:
  assumes "granted N a es (tr_token t)"
  shows "safe N a es (State_Monad.bind (cache_token scope t) (\<lambda>_. ok (tr_token t))) (granted N a)"
  using granted_later [OF assms]
  by (intro safeI) (auto simp: client_ok_def cache_token_def uncached_def)

text \<open>The part of \<open>installationToken\<close> after the cache.\<close>

lemma safe_fresh_token:
  assumes scope: "token_scope a = Inr (names, expected, scope)"
  shows "safe N a es
    (check (ErrWrap ''generate JWT: '') (generate_jwt (recorded N)) (\<lambda>jwt.
     check (ErrWrap ''request installation token: '') (gh_do (recorded N) (token_request a names jwt)) (\<lambda>r.
       if hr_status r \<noteq> 201 then fail_status (recorded N) r ''requesting installation token''
       else case unmarshal (net_json (recorded N)) (dec_token_reply (recorded N)) zero_token_reply (hr_body r) of
         Inl e \<Rightarrow> fail e
       | Inr t \<Rightarrow>
           (case check_token a expected t of
              Some e \<Rightarrow> fail e
            | None \<Rightarrow> do { _ \<leftarrow> cache_token scope t; ok (tr_token t) })))) (granted N a)"
proof (rule safe_check [OF safe_jwt])
  fix jwt es'
  have "admissible N a es' (token_request a names jwt)"
    using scope by (auto simp: admissible_def)
  then show "safe N a es' (check (ErrWrap ''request installation token: '')
      (gh_do (recorded N) (token_request a names jwt)) (\<lambda>r.
       if hr_status r \<noteq> 201 then fail_status (recorded N) r ''requesting installation token''
       else case unmarshal (net_json (recorded N)) (dec_token_reply (recorded N)) zero_token_reply (hr_body r) of
         Inl e \<Rightarrow> fail e
       | Inr t \<Rightarrow>
           (case check_token a expected t of
              Some e \<Rightarrow> fail e
            | None \<Rightarrow> do { _ \<leftarrow> cache_token scope t; ok (tr_token t) }))) (granted N a)"
  proof (rule safe_check [OF safe_do])
    fix r :: http_response and es'' :: "exchange list"
    assume sent: "(token_request a names jwt, Inr r) \<in> set es''"
    have "granted N a es'' (tr_token t)"
      if "check_token a expected t = None" "hr_status r = 201"
        "unmarshal (net_json N) (dec_token_reply N) zero_token_reply (hr_body r) = Inr t" for t
      using that scope sent unfolding granted_def check_token_def by (auto split: if_splits)
    then show "safe N a es'' (if hr_status r \<noteq> 201 then fail_status (recorded N) r ''requesting installation token''
       else case unmarshal (net_json (recorded N)) (dec_token_reply (recorded N)) zero_token_reply (hr_body r) of
         Inl e \<Rightarrow> fail e
       | Inr t \<Rightarrow>
           (case check_token a expected t of
              Some e \<Rightarrow> fail e
            | None \<Rightarrow> do { _ \<leftarrow> cache_token scope t; ok (tr_token t) })) (granted N a)"
      by (auto split: sum.split option.split intro!: safe_cache)
  qed
qed

lemma safe_token: "safe N a es (installation_token (recorded N)) (granted N a)"
  unfolding installation_token_def
proof (intro safe_get)
  fix b es'
  assume b: "uncached b = uncached a" "app_cached_token b = '''' \<or> granted N a es' (app_cached_token b)"
  note same = config_cong [OF b(1)]
  have cached: "safe N a es' (ok (app_cached_token b)) (granted N a)" if "token_cached b scope now" for scope now
    using that b(2) by (intro safe_ok) (auto simp: token_cached_def intro: granted_later)
  show "safe N a es' (case token_scope b of
       Inl e \<Rightarrow> fail e
     | Inr (names, expected, scope) \<Rightarrow> do {
         now \<leftarrow> gh_now (recorded N);
         if token_cached b scope now then ok (app_cached_token b)
         else
           check (ErrWrap ''generate JWT: '') (generate_jwt (recorded N)) (\<lambda>jwt.
           check (ErrWrap ''request installation token: '') (gh_do (recorded N) (token_request b names jwt)) (\<lambda>r.
             if hr_status r \<noteq> 201 then fail_status (recorded N) r ''requesting installation token''
             else case unmarshal (net_json (recorded N)) (dec_token_reply (recorded N)) zero_token_reply (hr_body r) of
               Inl e \<Rightarrow> fail e
             | Inr t \<Rightarrow>
                 (case check_token b expected t of
                    Some e \<Rightarrow> fail e
                  | None \<Rightarrow> do { _ \<leftarrow> cache_token scope t; ok (tr_token t) }))) }) (granted N a)"
    unfolding same using cached safe_fresh_token
    by (auto split: sum.split prod.split simp del: recorded_codecs)
qed

lemma safe_any: "safe N a es m Q \<Longrightarrow> safe N a es m (\<lambda>_ _. True)"
  by (auto simp: safe_def)

lemma safe_repo_call:
  assumes "granted N a es token" and "\<And>r es'. safe N a es' (f r) (\<lambda>_ _. True)"
  shows "safe N a es (check wrap (gh_do (recorded N) (repo_request meth (repo_url owner repo sfx) token body)) f) (\<lambda>_ _. True)"
proof (rule safe_check [OF safe_do])
  show "admissible N a es (repo_request meth (repo_url owner repo sfx) token body)"
    using assms(1) unfolding admissible_def by (intro disjI2) blast
qed (rule assms(2))

lemmas safe_steps [intro!] = safe_get safe_check [OF safe_token] safe_repo_call

lemma safe_calls:
  "safe N a es (repo_runner_status (recorded N) owner repo i) (\<lambda>_ _. True)"
  "safe N a es (generate_repo_jit_config (recorded N) owner repo name i labels) (\<lambda>_ _. True)"
  "safe N a es (remove_repo_runner (recorded N) owner repo i) (\<lambda>_ _. True)"
  "safe N a es (workflow_job_status (recorded N) owner repo i) (\<lambda>_ _. True)"
  "safe N a es (trusted_workflow_run (recorded N) owner repo i) (\<lambda>_ _. True)"
  unfolding repo_runner_status_def generate_repo_jit_config_def remove_repo_runner_def
    workflow_job_status_def trusted_workflow_run_def
  by (auto split: sum.split option.split prod.split)

text \<open>The calls of the client, and what a sequence of them leaves behind.\<close>

datatype client_op =
    OpValidateScope
  | OpRunnerStatus string string int
  | OpGenerateConfig string string string int "string list"
  | OpRemoveRunner string string int
  | OpJobStatus string string int
  | OpTrustedRun string string int

fun client_step :: "'x net \<Rightarrow> client_op \<Rightarrow> 'x gh \<Rightarrow> 'x gh" where
  "client_step N OpValidateScope s = snd (run_state (validate_token_scope N) s)"
| "client_step N (OpRunnerStatus owner repo i) s = snd (run_state (repo_runner_status N owner repo i) s)"
| "client_step N (OpGenerateConfig owner repo name i labels) s =
     snd (run_state (generate_repo_jit_config N owner repo name i labels) s)"
| "client_step N (OpRemoveRunner owner repo i) s = snd (run_state (remove_repo_runner N owner repo i) s)"
| "client_step N (OpJobStatus owner repo i) s = snd (run_state (workflow_job_status N owner repo i) s)"
| "client_step N (OpTrustedRun owner repo i) s = snd (run_state (trusted_workflow_run N owner repo i) s)"

lemma safe_snd: "safe N a [] m Q \<Longrightarrow> client_ok N a s \<Longrightarrow> client_ok N a (snd (run_state m s))"
  by (cases "run_state m s") (auto simp: safe_def)

lemma snd_validate: "snd (run_state (validate_token_scope N) s) = snd (run_state (installation_token N) s)"
  by (simp add: validate_token_scope_def split: prod.split)

lemma client_step_ok: "client_ok N a s \<Longrightarrow> client_ok N a (client_step (recorded N) op s)"
  by (cases op) (auto simp: snd_validate intro: safe_snd safe_calls safe_any [OF safe_token])

lemma client_run_ok: "client_ok N a s \<Longrightarrow> client_ok N a (fold (client_step (recorded N)) ops s)"
  by (induction ops arbitrary: s) (simp_all add: client_step_ok)

text \<open>C34: Whatever the order of its calls and whatever GitHub answers, the client sends only two
kinds of requests: for a token limited to the allowed repositories, with write access to runners
and, if configured, read access to runs; and calls on repositories under a token that an earlier
answer of the same run to such a request confirmed to have exactly these repositories and at least
these permissions - also when the token comes from the cache.\<close>

theorem client_uses_scoped_tokens:
  assumes "app_cached_token (gh_app s) = ''''" and "snd (gh_outside s) = []"
    and "snd (gh_outside (fold (client_step (recorded N)) ops s)) = late @ (rq, r) # early"
  shows "admissible N (gh_app s) early rq"
proof -
  have "client_ok N (gh_app s) s" using assms by (simp add: client_ok_def)
  from client_run_ok [OF this, of ops] have "in_order N (gh_app s) (late @ (rq, r) # early)"
    using assms(3) by (simp add: client_ok_def)
  then show ?thesis by (rule in_order_split)
qed

definition sample_net :: "unit net" where
  "sample_net =
    \<lparr>net_do = (\<lambda>rq x. (Inr \<lparr>hr_status = 201, hr_headers = [], hr_body = ''''\<rparr>, x)),
     net_now = (\<lambda>x. (1000 * second, x)),
     net_json = (\<lambda>_. Some (JObj [(''token'', JStr ''ghs''), (''expires_at'', JStr ''later''),
       (''permissions'', JObj [(''administration'', JStr ''write'')]),
       (''repositories'', JArr [JObj [(''full_name'', JStr ''Acme/App'')]])])),
     net_time = (\<lambda>_. Some (5000 * second)), net_http_time = (\<lambda>_. None), net_pem = Some,
     net_pkcs1 = Inr, net_pkcs8 = (\<lambda>k. Inr (Some k)), net_sign = (\<lambda>c k. Inr ''jwt'')\<rparr>"

definition sample_app :: github_app where
  "sample_app = \<lparr>app_id = 1, app_installation_id = 5, app_private_key = ''key'',
     app_allowed_repositories = [''acme/app''], app_read_workflow_runs = False, app_cached_token = '''',
     app_token_expires = zero_time, app_cached_scope = ''''\<rparr>"

theorem client_uses_scoped_tokens_witness:
  "\<exists>t rq r early. t = client_step (recorded sample_net) (OpRemoveRunner ''acme'' ''app'' 9) \<lparr>gh_app = sample_app, gh_outside = ((), [])\<rparr> \<and>
     snd (gh_outside t) = (rq, r) # early \<and> rq_authorization rq = ''Bearer ghs'' \<and> length early = 1 \<and>
     admissible sample_net sample_app early rq"
proof -
  let ?s = "\<lparr>gh_app = sample_app, gh_outside = ((), [])\<rparr>"
  let ?t = "client_step (recorded sample_net) (OpRemoveRunner ''acme'' ''app'' 9) ?s"
  have "map (rq_authorization \<circ> fst) (snd (gh_outside ?t)) = [''Bearer ghs'', ''Bearer jwt'']" by code_simp
  then obtain rq r early where t: "snd (gh_outside ?t) = (rq, r) # early" "rq_authorization rq = ''Bearer ghs''"
      "length early = 1"
    by (auto simp: map_eq_Cons_conv)
  have "app_cached_token (gh_app ?s) = ''''" by (simp add: sample_app_def)
  from client_uses_scoped_tokens [OF this, of sample_net "[OpRemoveRunner ''acme'' ''app'' 9]" "[]" rq r early] t
  show ?thesis by auto
qed

end
