(* ===== verification/Cloud.thy ===== *)
theory Cloud
  imports Compute Run_Logic
begin

text \<open>
  What the four cloud adapters share: the setting in which they call the SDK of their provider, the
  log of the requests that change resources, and the discipline that every deletion obeys.

  An SDK is a parameter, a record of functions over an outside world of any type. Every call gets a
  context: the one of the caller, or the detached one with a limit of its own that an adapter makes
  for a recovery. Both have a deadline, so that only finitely many requests can be made under one
  of them. A loop over the pages of a listing takes this number as an argument; a page requested
  beyond it is answered with the error of an expired context, which is what the SDK answers then.
\<close>

datatype call_ctx = CallerCtx | RecoveryCtx

text \<open>
  The calls of an adapter, latest first: identifiers \<open>'i\<close>, resources \<open>'r\<close>, creation requests \<open>'c\<close>
  and listing requests \<open>'q\<close> are those of its provider. A listing request names the page it asks for;
  its answer has the resources of the page and, when the provider says that there are more, the
  request of the next page. The log has no counterpart in the code.
\<close>

datatype ('i, 'r, 'c, 'q) cloud_event =
    CloudGet 'i "go_error + 'r"
  | CloudList 'q "go_error + 'r list \<times> 'q option"
  | CloudCreate 'c "go_error option"
  | CloudDelete 'i "go_error option"
  | CloudOther

text \<open>
  The event of a page whose answer is the resources and whether there is a next page: \<open>q\<close> is the
  request of a page by its number, \<open>K\<close> the resources among the answered values.
\<close>

definition page_event ::
    "(nat \<Rightarrow> 'q) \<Rightarrow> nat \<Rightarrow> ('a \<Rightarrow> 'r list) \<Rightarrow> go_error + 'a \<times> bool \<Rightarrow> ('i, 'r, 'c, 'q) cloud_event" where
  "page_event q page K r = CloudList (q page)
    (map_sum id (\<lambda>(xs, further). (K xs, if further then Some (q (page + 1)) else None)) r)"

text \<open>
  What the adapters use of the libraries: SHA-256, \<open>time.Parse\<close> with the layouts
  \<open>RFC3339\<close> and \<open>RFC3339Nano\<close>, \<open>template.ParseFiles\<close>, and the number of requests that fit under the deadline of a context.
\<close>

record cloud_lib =
  lib_sha256 :: "string \<Rightarrow> string"
  lib_rfc3339 :: "string \<Rightarrow> go_error + time"
  lib_rfc3339_nano :: "string \<Rightarrow> go_error + time"
  lib_parse_files :: "string \<Rightarrow> go_error + template"
  lib_budget :: nat

definition failure_of :: "go_error + 'a \<Rightarrow> go_error option" where
  "failure_of r = (case r of Inl e \<Rightarrow> Some e | Inr _ \<Rightarrow> None)"

record ('x, 'e) cloud =
  cl_outside :: 'x
  cl_log :: "'e list"

type_synonym ('x, 'e, 'a) cloud_call = "(('x, 'e) cloud, 'a) state"

definition api :: "('x \<Rightarrow> 'a \<times> 'x) \<Rightarrow> ('a \<Rightarrow> 'e) \<Rightarrow> ('x, 'e, 'a) cloud_call" where
  "api f ev = State (\<lambda>s. case f (cl_outside s) of
     (a, x) \<Rightarrow> (a, s\<lparr>cl_outside := x, cl_log := ev a # cl_log s\<rparr>))"

definition quiet_api :: "('x \<Rightarrow> 'a \<times> 'x) \<Rightarrow> ('x, 'e, 'a) cloud_call" where
  "quiet_api f = State (\<lambda>s. case f (cl_outside s) of (a, x) \<Rightarrow> (a, s\<lparr>cl_outside := x\<rparr>))"

lemma run_api [simp]:
  "run_state (api f ev) s =
    (case f (cl_outside s) of (a, x) \<Rightarrow> (a, s\<lparr>cl_outside := x, cl_log := ev a # cl_log s\<rparr>))"
  "run_state (quiet_api f) s = (case f (cl_outside s) of (a, x) \<Rightarrow> (a, s\<lparr>cl_outside := x\<rparr>))"
  by (simp_all add: api_def quiet_api_def)

lemma ensures_api [ensures_intros]: "(\<And>a. Q a (ev a # l)) \<Longrightarrow> ensures cl_log (api f ev) Q l"
  by (rule ensuresI) (auto split: prod.splits)

lemma ensures_quiet_api [ensures_intros]: "(\<And>a. Q a l) \<Longrightarrow> ensures cl_log (quiet_api f) Q l"
  by (rule ensuresI) (auto split: prod.splits)

text \<open>Results that are an error or nothing.\<close>

definition done_ok :: "('s, go_error option) state" where
  "done_ok = State_Monad.return None"

definition give_up :: "go_error \<Rightarrow> ('s, go_error option) state" where
  "give_up e = State_Monad.return (Some e)"

text \<open>The Go idiom \<open>if err := f(); err != nil { return err }\<close> in a function that returns an error.\<close>

definition try_call :: "(go_error \<Rightarrow> go_error) \<Rightarrow> ('s, go_error + 'a) state \<Rightarrow>
    ('a \<Rightarrow> ('s, go_error option) state) \<Rightarrow> ('s, go_error option) state" where
  "try_call wrap m f = do { r \<leftarrow> m; case r of Inl e \<Rightarrow> give_up (wrap e) | Inr a \<Rightarrow> f a }"

definition failed :: "go_error \<Rightarrow> string \<Rightarrow> go_error" where
  "failed sentinel reason = ErrWrapSuffix sentinel ('': '' @ reason)"

lemma ensures_ends [ensures_intros]:
  "Q None l \<Longrightarrow> ensures v done_ok Q l" "Q (Some e) l \<Longrightarrow> ensures v (give_up e) Q l"
  by (auto simp: done_ok_def give_up_def intro: ensures_return)

lemma ensures_try_call:
  "ensures v m (\<lambda>r s. case r of Inl e \<Rightarrow> Q (Some (wrap e)) s | Inr a \<Rightarrow> ensures v (f a) Q s) s \<Longrightarrow>
   ensures v (try_call wrap m f) Q s"
  unfolding try_call_def
  by (intro ensures_bind, erule ensures_mono) (auto intro: ensures_intros split: sum.splits)

text \<open>\<open>for _, x := range xs { if err := f(x); err != nil { return err } }; return nil\<close>\<close>

fun delete_each :: "('a \<Rightarrow> ('s, go_error option) state) \<Rightarrow> 'a list \<Rightarrow> ('s, go_error option) state" where
  "delete_each f [] = done_ok"
| "delete_each f (x # xs) = do {
     e \<leftarrow> f x;
     case e of Some e \<Rightarrow> give_up e | None \<Rightarrow> delete_each f xs }"

definition bad_controller_id :: go_error where
  "bad_controller_id =
    ErrText ''controller ID must contain only letters, numbers, underscores, and hyphens''"

end
