(* ===== verification/Cloud_Contract.thy ===== *)
theory Cloud_Contract
  imports Cloud
begin

text \<open>
  The contract of a cloud adapter. \<open>logs m P\<close> says that a run of \<open>m\<close> adds events to the log that
  satisfy \<open>P\<close> together with its result. An adapter is the record of its operations; the locale
  \<open>cloud_adapter\<close> states as laws which creations and deletions every operation may request, and
  derives from them what holds of any sequence of operations. Every adapter interprets it.
\<close>

section \<open>Added events\<close>

definition logs :: "('x, 'e, 'a) cloud_call \<Rightarrow> ('a \<Rightarrow> 'e list \<Rightarrow> bool) \<Rightarrow> bool" where
  "logs m P \<longleftrightarrow> (\<forall>l. ensures cl_log m (\<lambda>a l'. \<exists>es. l' = es @ l \<and> P a es) l)"

named_theorems logs_intros \<open>rules for the events that a call adds\<close>

lemma logsI: "(\<And>s a t. run_state m s = (a, t) \<Longrightarrow> \<exists>es. cl_log t = es @ cl_log s \<and> P a es) \<Longrightarrow> logs m P"
  by (auto simp: logs_def intro!: ensuresI)

lemma logsD: "logs m P \<Longrightarrow> run_state m s = (a, t) \<Longrightarrow> \<exists>es. cl_log t = es @ cl_log s \<and> P a es"
  unfolding logs_def by (drule spec, drule ensuresD, assumption) simp

lemma logs_mono: "logs m P \<Longrightarrow> (\<And>a es. P a es \<Longrightarrow> Q a es) \<Longrightarrow> logs m Q"
  by (rule logsI) (blast dest: logsD)

lemma logs_return [logs_intros]: "P a [] \<Longrightarrow> logs (State_Monad.return a) P"
  by (rule logsI) simp

lemma logs_ends [logs_intros]:
  "P (Inr a) [] \<Longrightarrow> logs (ok a) P" "P (Inl e) [] \<Longrightarrow> logs (fail e) P"
  "Q None [] \<Longrightarrow> logs done_ok Q" "Q (Some e) [] \<Longrightarrow> logs (give_up e) Q"
  by (rule logsI, simp add: ok_def fail_def done_ok_def give_up_def)+

lemma logs_bind:
  assumes "logs m P" and "\<And>a es. P a es \<Longrightarrow> logs (f a) (\<lambda>b es'. Q b (es' @ es))"
  shows "logs (State_Monad.bind m f) Q"
proof (rule logsI)
  fix s b t assume run: "run_state (State_Monad.bind m f) s = (b, t)"
  obtain a u where m: "run_state m s = (a, u)" by fastforce
  with run have f: "run_state (f a) u = (b, t)" by simp
  from logsD [OF assms(1) m] obtain es where es: "cl_log u = es @ cl_log s" "P a es" by blast
  from logsD [OF assms(2) [OF es(2)] f] es(1) show "\<exists>es. cl_log t = es @ cl_log s \<and> Q b es"
    by (metis append.assoc)
qed

lemma logs_check:
  assumes "logs m P" and "\<And>e es. P (Inl e) es \<Longrightarrow> Q (Inl (wrap e)) es"
    and "\<And>a es. P (Inr a) es \<Longrightarrow> logs (f a) (\<lambda>b es'. Q b (es' @ es))"
  shows "logs (check wrap m f) Q"
  unfolding check_def
  by (rule logs_bind [OF assms(1)]) (auto intro!: logs_intros assms(2,3) split: sum.split)

lemma logs_try_call:
  assumes "logs m P" and "\<And>e es. P (Inl e) es \<Longrightarrow> Q (Some (wrap e)) es"
    and "\<And>a es. P (Inr a) es \<Longrightarrow> logs (f a) (\<lambda>b es'. Q b (es' @ es))"
  shows "logs (try_call wrap m f) Q"
  unfolding try_call_def
  by (rule logs_bind [OF assms(1)]) (auto intro!: logs_intros assms(2,3) split: sum.split)

lemma logs_api: "(\<And>a. P a [ev a]) \<Longrightarrow> logs (api f ev) P"
  by (rule logsI) (auto split: prod.splits)

lemma logs_quiet_api: "(\<And>a. P a []) \<Longrightarrow> logs (quiet_api f) P"
  by (rule logsI) (auto split: prod.splits)

lemma logs_bind_api [logs_intros]:
  "(\<And>a. logs (f a) (\<lambda>b es. Q b (es @ [ev a]))) \<Longrightarrow> logs (State_Monad.bind (api g ev) f) Q"
  by (rule logs_bind [where P = "\<lambda>a es. es = [ev a]"]) (auto intro: logs_api)

lemma logs_check_api [logs_intros]:
  assumes "\<And>e. Q (Inl (wrap e)) [ev (Inl e)]" and "\<And>a. logs (f a) (\<lambda>b es. Q b (es @ [ev (Inr a)]))"
  shows "logs (check wrap (api g ev) f) Q"
  by (rule logs_check [where P = "\<lambda>r es. es = [ev r]"]) (auto intro: logs_api assms)

lemma logs_bind_quiet [logs_intros]:
  "(\<And>a. logs (f a) Q) \<Longrightarrow> logs (State_Monad.bind (quiet_api g) f) Q"
  by (rule logs_bind [where P = "\<lambda>a es. es = []"]) (auto intro: logs_quiet_api)

lemma logs_bind_return [logs_intros]:
  "logs (f a) Q \<Longrightarrow> logs (State_Monad.bind (State_Monad.return a) f) Q"
  by simp

section \<open>Discipline\<close>

fun mutation :: "('i, 'r, 'c, 'q) cloud_event \<Rightarrow> bool" where
  "mutation (CloudCreate c r) = True"
| "mutation (CloudDelete i r) = True"
| "mutation _ = False"

abbreviation harmless_events :: "('i, 'r, 'c, 'q) cloud_event list \<Rightarrow> bool" where
  "harmless_events es \<equiv> list_all (\<lambda>e. \<not> mutation e) es"

text \<open>Every mutation in the log is permitted by the events before it.\<close>

fun disciplined :: "(('i, 'r, 'c, 'q) cloud_event \<Rightarrow> ('i, 'r, 'c, 'q) cloud_event list \<Rightarrow> bool) \<Rightarrow>
    ('i, 'r, 'c, 'q) cloud_event list \<Rightarrow> bool" where
  "disciplined p [] = True"
| "disciplined p (e # es) = ((mutation e \<longrightarrow> p e es) \<and> disciplined p es)"

lemma disciplined_harmless: "harmless_events es \<Longrightarrow> disciplined p es"
  by (induction es) auto

lemma disciplined_append_harmless: "harmless_events es \<Longrightarrow> disciplined p (es @ es') = disciplined p es'"
  by (induction es) auto

lemma disciplined_split: "disciplined p (late @ e # early) \<Longrightarrow> mutation e \<Longrightarrow> p e early"
  by (induction late) auto

lemma disciplined_mono:
  "disciplined p es \<Longrightarrow> (\<And>e es. p e es \<Longrightarrow> q e es) \<Longrightarrow> disciplined q es"
  by (induction es) auto

lemma logs_harmless_disciplined: "logs m (\<lambda>_. harmless_events) \<Longrightarrow> logs m (\<lambda>_. disciplined p)"
  by (erule logs_mono) (rule disciplined_harmless)

text \<open>Permissions that hold on with more events before.\<close>

definition older_events :: "('e \<Rightarrow> 'e list \<Rightarrow> bool) \<Rightarrow> bool" where
  "older_events p \<longleftrightarrow> (\<forall>e es es'. p e es \<longrightarrow> p e (es @ es'))"

lemma disciplined_append:
  "older_events p \<Longrightarrow> disciplined p es \<Longrightarrow> disciplined p es' \<Longrightarrow> disciplined p (es @ es')"
  by (induction es) (auto simp: older_events_def)

lemma disciplined_list_all:
  "list_all P late \<Longrightarrow> (\<And>e es'. P e \<Longrightarrow> p e (es' @ es)) \<Longrightarrow> disciplined p es \<Longrightarrow> disciplined p (late @ es)"
  by (induction late) auto

lemma logs_after_reads:
  assumes "logs m (\<lambda>_. disciplined p)" and "older_events p" and "harmless_events es"
  shows "logs m (\<lambda>_ es'. disciplined p (es' @ es))"
  using assms(1) by (rule logs_mono)
    (rule disciplined_append [OF assms(2)], assumption, rule disciplined_harmless [OF assms(3)])

lemma logs_delete_each:
  assumes "\<And>x. x \<in> set xs \<Longrightarrow> logs (f x) (\<lambda>_. disciplined p)"
    and "older_events p"
  shows "logs (delete_each f xs) (\<lambda>_. disciplined p)"
  using assms(1)
proof (induction xs)
  case Nil
  then show ?case by (auto intro: logs_intros)
next
  case (Cons x xs)
  have "logs (f x) (\<lambda>_. disciplined p)" using Cons.prems by simp
  then show ?case
    unfolding delete_each.simps
  proof (rule logs_bind)
    fix r es assume es: "disciplined p es"
    have "logs (delete_each f xs) (\<lambda>_. disciplined p)" using Cons by simp
    then have "logs (delete_each f xs) (\<lambda>b es'. disciplined p (es' @ es))"
      by (rule logs_mono) (rule disciplined_append [OF assms(2) _ es])
    with es show "logs (case r of None \<Rightarrow> delete_each f xs | Some e \<Rightarrow> give_up e) (\<lambda>b es'. disciplined p (es' @ es))"
      by (auto intro: logs_intros split: option.split)
  qed
qed

text \<open>Computations that only read.\<close>

abbreviation reads :: "('x, ('i, 'r, 'c, 'q) cloud_event, 'a) cloud_call \<Rightarrow> bool" where
  "reads m \<equiv> logs m (\<lambda>_. harmless_events)"

named_theorems reads_intros \<open>rules for computations that only read\<close>

lemma reads_bind [reads_intros]: "reads m \<Longrightarrow> (\<And>a. reads (f a)) \<Longrightarrow> reads (State_Monad.bind m f)"
  by (erule logs_bind) (rule logs_mono, assumption, simp)

lemma reads_check [reads_intros]: "reads m \<Longrightarrow> (\<And>a. reads (f a)) \<Longrightarrow> reads (check wrap m f)"
  by (erule logs_check) (assumption, rule logs_mono, assumption, simp)

lemma reads_steps [reads_intros]:
  "reads (State_Monad.return a)" "reads (ok a)" "reads (fail e)" "reads (quiet_api g)"
  by (auto intro: logs_intros logs_quiet_api)

lemma reads_api [reads_intros]: "(\<And>a. \<not> mutation (ev a)) \<Longrightarrow> reads (api g ev)"
  by (rule logs_api) simp

lemma mutation_map_sum [simp]:
  "\<not> mutation (CloudList q r)" "\<not> mutation (CloudGet i r)" "\<not> mutation CloudOther"
  by simp_all

lemma reads_page [simp]: "\<not> mutation (page_event q page K r)"
  by (simp add: page_event_def)

text \<open>
  A complete listing. Its argument is in the order of time: the first request is \<open>q\<close>, every page is
  answered, the next request is the one that the page before names, and the last page names none.
  The result is all that the pages have shown; anything else is no complete listing.
\<close>

fun listing :: "'q \<Rightarrow> ('i, 'r, 'c, 'q) cloud_event list \<Rightarrow> 'r list option" where
  "listing q (CloudList p (Inr (rs, further)) # es) =
    (if p \<noteq> q then None
     else case further of
       None \<Rightarrow> if es = [] then Some rs else None
     | Some next_page \<Rightarrow> map_option ((@) rs) (listing next_page es))"
| "listing q es = None"

text \<open>The listing that the latest events are, in the log.\<close>

abbreviation listed :: "'q \<Rightarrow> ('i, 'r, 'c, 'q) cloud_event list \<Rightarrow> 'r list \<Rightarrow> bool" where
  "listed q es rs \<equiv> listing q (rev es) = Some rs"

lemma listing_reads: "listing q es = Some rs \<Longrightarrow> harmless_events es"
  by (induction q es arbitrary: rs rule: listing.induct) (auto split: if_splits option.splits)

lemma listed_reads: "listed q es rs \<Longrightarrow> harmless_events es"
  using listing_reads [of q "rev es" rs] by simp

lemma listed_page:
  "listed (q page) [page_event q page K (Inr (xs, False))] (K xs)"
  "listed (q (page + 1)) es rs \<Longrightarrow> listed (q page) (es @ [page_event q page K (Inr (xs, True))]) (K xs @ rs)"
  by (simp_all add: page_event_def)

text \<open>What the pages of the requests that satisfy \<open>Q\<close> have shown.\<close>

definition shown :: "('q \<Rightarrow> bool) \<Rightarrow> ('i, 'r, 'c, 'q) cloud_event list \<Rightarrow> 'r set" where
  "shown Q es = {x. \<exists>q rs further. Q q \<and> CloudList q (Inr (rs, further)) \<in> set es \<and> x \<in> set rs}"

lemma shown_append [simp]: "shown Q (es @ es') = shown Q es \<union> shown Q es'"
  by (force simp: shown_def)

lemma shown_simps [simp]:
  "shown Q [] = {}"
  "Q q \<Longrightarrow> shown Q (CloudList q (Inr (rs, further)) # es) = set rs \<union> shown Q es"
  "shown Q (CloudDelete i d # es) = shown Q es"
  by (auto simp: shown_def)

section \<open>Adapters\<close>

record ('x, 'e) adapter =
  ad_find :: "string \<Rightarrow> ('x, 'e, go_error + runner_instance option) cloud_call"
  ad_create :: "runner_params \<Rightarrow> ('x, 'e, go_error + runner_instance) cloud_call"
  ad_delete :: "string \<Rightarrow> string \<Rightarrow> ('x, 'e, go_error option) cloud_call"
  ad_cleanup :: "string \<Rightarrow> ('x, 'e, go_error option) cloud_call"
  ad_sweep :: "string list \<Rightarrow> time \<Rightarrow> ('x, 'e, int \<times> go_error option) cloud_call"
  ad_absent :: "(string \<Rightarrow> ('x, 'e, go_error + bool) cloud_call) option"
  ad_cleanup_except :: "(string \<Rightarrow> string \<Rightarrow> ('x, 'e, go_error option) cloud_call) option"

datatype adapter_op =
    AdFind string
  | AdCreate runner_params
  | AdDelete string string
  | AdCleanup string
  | AdSweep "string list" time
  | AdAbsent string
  | AdCleanupExcept string string

definition drop_value :: "('s, 'a) state \<Rightarrow> ('s, unit) state" where
  "drop_value m = do { _ \<leftarrow> m; State_Monad.return () }"

fun ad_call :: "('x, 'e) adapter \<Rightarrow> adapter_op \<Rightarrow> ('x, 'e, unit) cloud_call" where
  "ad_call ad (AdFind key) = drop_value (ad_find ad key)"
| "ad_call ad (AdCreate params) = drop_value (ad_create ad params)"
| "ad_call ad (AdDelete i key) = drop_value (ad_delete ad i key)"
| "ad_call ad (AdCleanup key) = drop_value (ad_cleanup ad key)"
| "ad_call ad (AdSweep known cutoff) = drop_value (ad_sweep ad known cutoff)"
| "ad_call ad (AdAbsent i) =
    (case ad_absent ad of None \<Rightarrow> State_Monad.return () | Some f \<Rightarrow> drop_value (f i))"
| "ad_call ad (AdCleanupExcept key i) =
    (case ad_cleanup_except ad of None \<Rightarrow> State_Monad.return () | Some f \<Rightarrow> drop_value (f key i))"

definition ad_run :: "('x, 'e) adapter \<Rightarrow> adapter_op list \<Rightarrow> ('x, 'e) cloud \<Rightarrow> ('x, 'e) cloud" where
  "ad_run ad ops s = fold (\<lambda>op s. snd (run_state (ad_call ad op) s)) ops s"

lemma logs_drop_value: "logs m (\<lambda>_. P) \<Longrightarrow> logs (drop_value m) (\<lambda>_. P)"
  unfolding drop_value_def by (erule logs_bind) (auto intro: logs_intros)

locale cloud_adapter =
  fixes ad :: "('x, ('i, 'r, 'c, 'q) cloud_event) adapter"
    and permitted :: "adapter_op \<Rightarrow> ('i, 'r, 'c, 'q) cloud_event \<Rightarrow>
      ('i, 'r, 'c, 'q) cloud_event list \<Rightarrow> bool"
  assumes find_law: "logs (ad_find ad key) (\<lambda>_. disciplined (permitted (AdFind key)))"
    and create_law: "logs (ad_create ad params) (\<lambda>_. disciplined (permitted (AdCreate params)))"
    and delete_law: "logs (ad_delete ad n key) (\<lambda>_. disciplined (permitted (AdDelete n key)))"
    and cleanup_law: "logs (ad_cleanup ad key) (\<lambda>_. disciplined (permitted (AdCleanup key)))"
    and sweep_law: "logs (ad_sweep ad known cutoff) (\<lambda>_. disciplined (permitted (AdSweep known cutoff)))"
    and absent_law: "ad_absent ad = Some f \<Longrightarrow> logs (f n) (\<lambda>_. disciplined (permitted (AdAbsent n)))"
    and cleanup_except_law: "ad_cleanup_except ad = Some g \<Longrightarrow>
      logs (g key n) (\<lambda>_. disciplined (permitted (AdCleanupExcept key n)))"
begin

lemma call_law: "logs (ad_call ad op) (\<lambda>_. disciplined (permitted op))"
  by (cases op)
    (auto intro!: logs_drop_value logs_return find_law create_law delete_law cleanup_law sweep_law
      absent_law cleanup_except_law split: option.split)

text \<open>Every mutation in the log of a run is one that an operation of the run permits.\<close>

lemma run_law:
  assumes "cl_log s = []" and "cl_log (ad_run ad ops s) = late @ e # early" and "mutation e"
  shows "\<exists>op \<in> set ops. \<exists>es rest. early = es @ rest \<and> permitted op e es"
  using assms(2)
proof (induction ops arbitrary: late early rule: rev_induct)
  case Nil
  then show ?case using assms(1) by (simp add: ad_run_def)
next
  case (snoc op ops)
  let ?t = "ad_run ad ops s"
  obtain u t' where step: "run_state (ad_call ad op) ?t = (u, t')"
    by (cases "run_state (ad_call ad op) ?t") simp
  from logsD [OF call_law step] obtain es where es: "cl_log t' = es @ cl_log ?t" "disciplined (permitted op) es"
    by blast
  from snoc.prems step es(1) have log: "es @ cl_log ?t = late @ e # early" by (simp add: ad_run_def)
  have old: ?case if "cl_log ?t = us @ e # early" for us
    using snoc.IH [OF that] by auto
  have new: ?case if "es = late @ e # us" and "early = us @ cl_log ?t" for us
    using disciplined_split [of "permitted op" late e us] es(2) assms(3) that by auto
  from log consider us where "es = late @ us" "us @ cl_log ?t = e # early"
    | us where "cl_log ?t = us @ e # early"
    unfolding append_eq_append_conv2 by blast
  then show ?case
  proof cases
    case (1 us)
    show ?thesis
    proof (cases us)
      case Nil
      with 1(2) have "cl_log ?t = [] @ e # early" by simp
      then show ?thesis by (rule old)
    next
      case (Cons a vs)
      with 1 have "es = late @ e # vs" "early = vs @ cl_log ?t" by simp_all
      then show ?thesis by (rule new)
    qed
  qed (rule old)
qed

end

end
