(* ===== verification/Cloud_DigitalOcean.thy ===== *)
theory Cloud_DigitalOcean
  imports Cloud_Contract
begin

text \<open>
  The DigitalOcean adapter, \<open>internal/digitalocean/droplet.go\<close>: the validation of its
  configuration, the creation of a droplet behind a deny-inbound firewall with the recovery of a
  creation whose outcome is unknown, lookup, deletion and cleanup by tags, and the sweep of
  orphans. The API of \<open>godo\<close> is a parameter.
\<close>

section \<open>The API\<close>

text \<open>Of the inbound rules of a firewall only their number matters.\<close>

record droplet =
  dr_id :: int
  dr_name :: string
  dr_tags :: "string list"
  dr_created :: string

record firewall =
  fw_id :: string
  fw_inbound_rules :: nat
  fw_tags :: "string list"

record droplet_request =
  dq_name :: string
  dq_region :: string
  dq_size :: string
  dq_image :: string
  dq_user_data :: string
  dq_ssh_keys :: "string list"
  dq_tags :: "string list"
  dq_vpc_uuid :: string

text \<open>
  A listing is asked by page and answers with whether there is a next one. \<open>dapi_wait\<close> answers
  whether the context was done before the timer.
\<close>

record 'x do_api =
  dapi_firewalls :: "call_ctx \<Rightarrow> nat \<Rightarrow> 'x \<Rightarrow> (go_error + (firewall list \<times> bool)) \<times> 'x"
  dapi_list_by_tag :: "call_ctx \<Rightarrow> string \<Rightarrow> nat \<Rightarrow> 'x \<Rightarrow> (go_error + (droplet list \<times> bool)) \<times> 'x"
  dapi_get :: "call_ctx \<Rightarrow> int \<Rightarrow> 'x \<Rightarrow> (go_error + droplet) \<times> 'x"
  dapi_create :: "call_ctx \<Rightarrow> droplet_request \<Rightarrow> 'x \<Rightarrow> (go_error + droplet) \<times> 'x"
  dapi_delete :: "call_ctx \<Rightarrow> int \<Rightarrow> 'x \<Rightarrow> go_error option \<times> 'x"
  dapi_ctx_err :: "call_ctx \<Rightarrow> 'x \<Rightarrow> go_error option \<times> 'x"
  dapi_wait :: "call_ctx \<Rightarrow> duration \<Rightarrow> 'x \<Rightarrow> bool \<times> 'x"

datatype do_resource = DropletResource droplet | FirewallResource firewall

text \<open>The listing requests: a page of the droplets with a tag, a page of the firewalls.\<close>

datatype do_query = DropletPage string nat | FirewallPage nat

type_synonym do_event = "(int, do_resource, droplet_request, do_query) cloud_event"
type_synonym ('x, 'a) do_call = "('x, do_event, go_error + 'a) cloud_call"
type_synonym 'x do_action = "('x, do_event, go_error option) cloud_call"

text \<open>
  An error of \<open>godo\<close> is \<open>ErrProvider\<close> with its type and the status of its response, zero when it
  has none.
\<close>

definition godo_status :: "go_error \<Rightarrow> int option" where
  "godo_status e = errors_as (\<lambda>e. case e of
     ErrProvider kind status \<Rightarrow> if kind = ''godo.ErrorResponse'' then Some status else None
   | _ \<Rightarrow> None) e"

definition do_not_found :: "go_error \<Rightarrow> bool" where
  "do_not_found e \<longleftrightarrow> godo_status e = Some 404"

definition ambiguous_create_error :: "go_error \<Rightarrow> bool" where
  "ambiguous_create_error e =
    (if errors_is e ErrCanceled \<or> errors_is e ErrDeadlineExceeded then False
     else case godo_status e of
       None \<Rightarrow> True
     | Some status \<Rightarrow> if status = 0 then True else status \<ge> 500 \<or> status = 408)"

section \<open>The client\<close>

record do_config =
  dc_token :: string
  dc_region :: string
  dc_size :: string
  dc_image :: string
  dc_ssh_fingerprints :: "string list"
  dc_cloud_init_path :: string
  dc_controller_id :: string
  dc_vpc_uuid :: string
  dc_firewall_id :: string

record do_client =
  do_template :: "template option"
  do_region :: string
  do_size :: string
  do_image :: string
  do_ssh_fingerprints :: "string list"
  do_controller_tag :: string
  do_vpc_uuid :: string
  do_firewall_id :: string
  do_recovery_timeout :: duration
  do_recovery_poll :: duration

definition default_text :: "string \<Rightarrow> string \<Rightarrow> string" where
  "default_text value fallback = (if value = '''' then fallback else value)"

definition new_do_client :: "cloud_lib \<Rightarrow> do_config \<Rightarrow> go_error + do_client" where
  "new_do_client L c =
    (if trim_space (dc_token c) = '''' then Inl (ErrText ''DigitalOcean token is required'')
     else if trim_space (dc_cloud_init_path c) = ''''
     then Inl (ErrText ''DigitalOcean cloud-init template path is required'')
     else case lib_parse_files L (dc_cloud_init_path c) of
       Inl e \<Rightarrow> Inl (ErrWrap ''parse cloud-init template: '' e)
     | Inr tmpl \<Rightarrow>
         if \<not> valid_controller_id (dc_controller_id c) then Inl bad_controller_id
         else if dc_vpc_uuid c = '''' \<or> dc_firewall_id c = ''''
         then Inl (ErrText ''DigitalOcean VPC UUID and deny-inbound firewall ID are required'')
         else Inr \<lparr>do_template = Some tmpl, do_region = default_text (dc_region c) ''nyc3'',
                   do_size = default_text (dc_size c) ''s-4vcpu-8gb-amd'',
                   do_image = default_text (dc_image c) ''ubuntu-24-04-x64'',
                   do_ssh_fingerprints = dc_ssh_fingerprints c,
                   do_controller_tag = ''runner-controller-'' @ dc_controller_id c,
                   do_vpc_uuid = dc_vpc_uuid c, do_firewall_id = dc_firewall_id c,
                   do_recovery_timeout = 15 * second, do_recovery_poll = 2 * second\<rparr>)"

definition runner_job_tag :: "cloud_lib \<Rightarrow> string \<Rightarrow> string" where
  "runner_job_tag L job_key = ''runner-job-'' @ hex_encode (take 8 (lib_sha256 L job_key))"

definition droplet_name :: "cloud_lib \<Rightarrow> string \<Rightarrow> int \<Rightarrow> string" where
  "droplet_name L job_key epoch =
    ''ghr-'' @ hex_encode (take 16 (lib_sha256 L (''digitalocean:'' @ job_key @ '':'' @ itoa epoch)))"

section \<open>Lookup\<close>

text \<open>The first argument counts the pages that can still be requested.\<close>

fun list_droplets_loop ::
    "nat \<Rightarrow> 'x do_api \<Rightarrow> call_ctx \<Rightarrow> string \<Rightarrow> nat \<Rightarrow> droplet list \<Rightarrow> ('x, droplet list) do_call" where
  "list_droplets_loop 0 A ctx tag page existing = fail ErrDeadlineExceeded"
| "list_droplets_loop (Suc n) A ctx tag page existing =
     check id (api (dapi_list_by_tag A ctx tag page) (page_event (DropletPage tag) page (map DropletResource)))
       (\<lambda>(droplets, more).
          if \<not> more then ok (existing @ droplets)
          else list_droplets_loop n A ctx tag (page + 1) (existing @ droplets))"

definition list_droplets_by_tag ::
    "cloud_lib \<Rightarrow> 'x do_api \<Rightarrow> call_ctx \<Rightarrow> string \<Rightarrow> ('x, droplet list) do_call" where
  "list_droplets_by_tag L A ctx tag = list_droplets_loop (lib_budget L) A ctx tag 1 []"

fun verify_droplets :: "do_client \<Rightarrow> string \<Rightarrow> droplet list \<Rightarrow> droplet list \<Rightarrow> go_error + droplet list" where
  "verify_droplets C excluded [] verified = Inr verified"
| "verify_droplets C excluded (d # ds) verified =
    (if excluded \<noteq> '''' \<and> itoa (dr_id d) = excluded then verify_droplets C excluded ds verified
     else if do_controller_tag C \<notin> set (dr_tags d)
     then Inl (failed ErrOwnershipMismatch
            (''job-tagged droplet '' @ itoa (dr_id d) @ '' belongs to another controller''))
     else verify_droplets C excluded ds (verified @ [d]))"

definition list_job_droplets_except ::
    "cloud_lib \<Rightarrow> do_client \<Rightarrow> 'x do_api \<Rightarrow> call_ctx \<Rightarrow> string \<Rightarrow> string \<Rightarrow> ('x, droplet list) do_call" where
  "list_job_droplets_except L C A ctx job_key excluded =
    check (ErrWrap ''look up existing runner droplet: '')
      (list_droplets_by_tag L A ctx (runner_job_tag L job_key))
      (\<lambda>existing. case verify_droplets C excluded existing [] of Inl e \<Rightarrow> fail e | Inr ds \<Rightarrow> ok ds)"

definition list_job_droplets ::
    "cloud_lib \<Rightarrow> do_client \<Rightarrow> 'x do_api \<Rightarrow> call_ctx \<Rightarrow> string \<Rightarrow> ('x, droplet list) do_call" where
  "list_job_droplets L C A ctx job_key = list_job_droplets_except L C A ctx job_key ''''"

definition droplet_instance :: "droplet \<Rightarrow> runner_instance" where
  "droplet_instance d = \<lparr>ri_id = itoa (dr_id d), ri_name = dr_name d\<rparr>"

definition do_find_runner ::
    "cloud_lib \<Rightarrow> do_client \<Rightarrow> 'x do_api \<Rightarrow> string \<Rightarrow> ('x, runner_instance option) do_call" where
  "do_find_runner L C A job_key =
    check id (list_job_droplets L C A CallerCtx job_key) (\<lambda>existing.
      case existing of
        [] \<Rightarrow> ok None
      | [d] \<Rightarrow> ok (Some (droplet_instance d))
      | _ \<Rightarrow> fail (failed ErrDuplicateInstances
               (''multiple DigitalOcean droplets exist for job '' @ job_key)))"

fun match_name :: "string \<Rightarrow> string \<Rightarrow> droplet list \<Rightarrow> droplet option \<Rightarrow> go_error + droplet option" where
  "match_name job_key name [] found = Inr found"
| "match_name job_key name (d # ds) found =
    (if dr_name d \<noteq> name then match_name job_key name ds found
     else case found of
       Some _ \<Rightarrow> Inl (ErrText (''multiple DigitalOcean droplets named '' @ go_quote name @
                            '' exist for job '' @ job_key))
     | None \<Rightarrow> match_name job_key name ds (Some d))"

definition find_job_droplet_by_name ::
    "cloud_lib \<Rightarrow> do_client \<Rightarrow> 'x do_api \<Rightarrow> call_ctx \<Rightarrow> string \<Rightarrow> string \<Rightarrow> ('x, droplet option) do_call" where
  "find_job_droplet_by_name L C A ctx job_key name =
    check id (list_job_droplets L C A ctx job_key)
      (\<lambda>droplets. case match_name job_key name droplets None of Inl e \<Rightarrow> fail e | Inr m \<Rightarrow> ok m)"

section \<open>Firewalls\<close>

definition validate_runner_firewall :: "firewall \<Rightarrow> string \<Rightarrow> go_error option" where
  "validate_runner_firewall f controller_tag =
    (if fw_inbound_rules f \<noteq> 0
     then Some (ErrText (''DigitalOcean runner firewall '' @ go_quote (fw_id f) @ '' must have no inbound rules''))
     else if controller_tag \<in> set (fw_tags f) then None
     else Some (ErrText (''DigitalOcean runner firewall '' @ go_quote (fw_id f) @
                         '' must target controller tag '' @ go_quote controller_tag)))"

definition shares_tag :: "string list \<Rightarrow> string list \<Rightarrow> bool" where
  "shares_tag left right = list_ex (\<lambda>candidate. list_ex (\<lambda>applied. candidate = applied) right) left"

fun check_firewalls :: "do_client \<Rightarrow> string list \<Rightarrow> firewall list \<Rightarrow> bool \<Rightarrow> go_error + bool" where
  "check_firewalls C tags [] found = Inr found"
| "check_firewalls C tags (f # fs) found =
    (if fw_id f = do_firewall_id C
     then case validate_runner_firewall f (do_controller_tag C) of
            Some e \<Rightarrow> Inl e
          | None \<Rightarrow> check_firewalls C tags fs True
     else if fw_inbound_rules f \<noteq> 0 \<and> shares_tag (fw_tags f) tags
     then Inl (ErrText (''DigitalOcean firewall '' @ go_quote (fw_id f) @ '' adds inbound rules to runner tag''))
     else check_firewalls C tags fs found)"

fun firewall_pages ::
    "nat \<Rightarrow> do_client \<Rightarrow> 'x do_api \<Rightarrow> string list \<Rightarrow> nat \<Rightarrow> bool \<Rightarrow> ('x, unit) do_call" where
  "firewall_pages 0 C A tags page found =
     fail (ErrWrap ''list DigitalOcean firewalls: '' ErrDeadlineExceeded)"
| "firewall_pages (Suc n) C A tags page found =
     check (ErrWrap ''list DigitalOcean firewalls: '')
       (api (dapi_firewalls A CallerCtx page) (page_event FirewallPage page (map FirewallResource)))
       (\<lambda>(firewalls, more).
          case check_firewalls C tags firewalls found of
            Inl e \<Rightarrow> fail e
          | Inr found \<Rightarrow>
              if more then firewall_pages n C A tags (page + 1) found
              else if \<not> found
              then fail (ErrText (''DigitalOcean deny-inbound firewall '' @ go_quote (do_firewall_id C) @
                                  '' was not found''))
              else ok ())"

definition validate_runner_firewalls ::
    "cloud_lib \<Rightarrow> do_client \<Rightarrow> 'x do_api \<Rightarrow> string list \<Rightarrow> ('x, unit) do_call" where
  "validate_runner_firewalls L C A tags = firewall_pages (lib_budget L) C A tags 1 False"

section \<open>Creation\<close>

text \<open>
  The polls after a creation of unknown outcome. The first argument counts the polls that fit under
  the limit of the recovery context; after the last one the context is done. A result without a
  droplet says whether its absence was confirmed.
\<close>

definition confirmed_absence_observations :: nat where
  "confirmed_absence_observations = 3"

definition ambiguous_recovery_result :: "nat \<Rightarrow> ('x, droplet option \<times> bool) do_call" where
  "ambiguous_recovery_result clean = ok (None, clean \<ge> confirmed_absence_observations)"

fun recovery_loop ::
    "nat \<Rightarrow> cloud_lib \<Rightarrow> do_client \<Rightarrow> 'x do_api \<Rightarrow> string \<Rightarrow> string \<Rightarrow> nat \<Rightarrow> ('x, droplet option \<times> bool) do_call" where
  "recovery_loop 0 L C A job_key name clean = ambiguous_recovery_result clean"
| "recovery_loop (Suc n) L C A job_key name clean = do {
     r \<leftarrow> find_job_droplet_by_name L C A RecoveryCtx job_key name;
     case r of
       Inr (Some d) \<Rightarrow> ok (Some d, False)
     | _ \<Rightarrow>
         if r = Inr None \<and> clean + 1 \<ge> confirmed_absence_observations
         then ambiguous_recovery_result (clean + 1)
         else do {
           clean \<leftarrow> (if r = Inr None then State_Monad.return (clean + 1)
                    else do { e \<leftarrow> quiet_api (dapi_ctx_err A RecoveryCtx);
                              State_Monad.return (if e = None then 0 else clean) });
           e \<leftarrow> quiet_api (dapi_ctx_err A RecoveryCtx);
           if e \<noteq> None then ambiguous_recovery_result clean
           else do {
             finished \<leftarrow> quiet_api (dapi_wait A RecoveryCtx (do_recovery_poll C));
             if finished then ambiguous_recovery_result clean
             else recovery_loop n L C A job_key name clean } } }"

definition reconcile_ambiguous_create ::
    "cloud_lib \<Rightarrow> do_client \<Rightarrow> 'x do_api \<Rightarrow> string \<Rightarrow> string \<Rightarrow> ('x, droplet option \<times> bool) do_call" where
  "reconcile_ambiguous_create L C A job_key name = recovery_loop (lib_budget L) L C A job_key name 0"

definition recover_create ::
    "cloud_lib \<Rightarrow> do_client \<Rightarrow> 'x do_api \<Rightarrow> string \<Rightarrow> string \<Rightarrow> go_error \<Rightarrow> ('x, runner_instance) do_call" where
  "recover_create L C A job_key name err =
    (if \<not> ambiguous_create_error err then fail (ErrWrap ''create droplet: '' err)
     else
       check (\<lambda>e. ErrJoin [ErrWrap ''create droplet: '' err, ErrWrap ''reconcile ambiguous create: '' e])
         (reconcile_ambiguous_create L C A job_key name)
         (\<lambda>(recovered, confirmed_absent).
            case recovered of
              Some d \<Rightarrow> ok (droplet_instance d)
            | None \<Rightarrow>
                if confirmed_absent then fail (ErrWrap ''create droplet after confirmed absence: '' err)
                else fail (failed ErrCreateOutcomeUnknown (''create droplet: '' @ error_text err))))"

definition droplet_create_request :: "cloud_lib \<Rightarrow> do_client \<Rightarrow> runner_params \<Rightarrow> string \<Rightarrow> droplet_request" where
  "droplet_create_request L C params user_data =
    \<lparr>dq_name = droplet_name L (p_job_key params) (p_provision_epoch params), dq_region = do_region C,
     dq_size = do_size C, dq_image = do_image C, dq_user_data = user_data,
     dq_ssh_keys = do_ssh_fingerprints C,
     dq_tags = [do_controller_tag C, runner_job_tag L (p_job_key params)], dq_vpc_uuid = do_vpc_uuid C\<rparr>"

definition do_create_runner ::
    "cloud_lib \<Rightarrow> do_client \<Rightarrow> 'x do_api \<Rightarrow> runner_params \<Rightarrow> ('x, runner_instance) do_call" where
  "do_create_runner L C A params =
    check id (do_find_runner L C A (p_job_key params)) (\<lambda>existing.
      case existing of
        Some i \<Rightarrow> ok i
      | None \<Rightarrow>
          check id (validate_runner_firewalls L C A [do_controller_tag C, runner_job_tag L (p_job_key params)])
            (\<lambda>_. case render_cloud_init (do_template C) params of
               Inl e \<Rightarrow> fail e
             | Inr user_data \<Rightarrow> do {
                 let rq = droplet_create_request L C params user_data;
                 r \<leftarrow> api (dapi_create A CallerCtx rq) (\<lambda>r. CloudCreate rq (failure_of r));
                 case r of
                   Inr d \<Rightarrow> ok (droplet_instance d)
                 | Inl err \<Rightarrow>
                     recover_create L C A (p_job_key params)
                       (droplet_name L (p_job_key params) (p_provision_epoch params)) err }))"

section \<open>Deletion\<close>

text \<open>\<open>strconv.Atoi\<close> on a 64-bit machine, and a positive identifier.\<close>

definition droplet_number :: "string \<Rightarrow> int option" where
  "droplet_number i = (case parse_int i of Some n \<Rightarrow> if n \<le> 0 then None else Some n | None \<Rightarrow> None)"

definition get_droplet :: "'x do_api \<Rightarrow> int \<Rightarrow> ('x, droplet) do_call" where
  "get_droplet A n = api (dapi_get A CallerCtx n) (\<lambda>r. CloudGet n (map_sum id DropletResource r))"

definition do_runner_absent :: "'x do_api \<Rightarrow> string \<Rightarrow> ('x, bool) do_call" where
  "do_runner_absent A i =
    (case droplet_number i of
       None \<Rightarrow> fail (ErrText (''invalid DigitalOcean droplet ID '' @ go_quote i))
     | Some n \<Rightarrow> do {
         r \<leftarrow> get_droplet A n;
         case r of
           Inr _ \<Rightarrow> ok False
         | Inl e \<Rightarrow>
             if \<not> do_not_found e
             then fail (ErrWrap (''confirm runner droplet '' @ i @ '' absence: '') e)
             else ok True })"

definition do_delete_runner ::
    "cloud_lib \<Rightarrow> do_client \<Rightarrow> 'x do_api \<Rightarrow> string \<Rightarrow> string \<Rightarrow> 'x do_action" where
  "do_delete_runner L C A i job_key =
    (case droplet_number i of
       None \<Rightarrow> give_up (ErrText (''invalid DigitalOcean droplet ID '' @ go_quote i))
     | Some n \<Rightarrow> do {
         r \<leftarrow> get_droplet A n;
         case r of
           Inl e \<Rightarrow> if do_not_found e then done_ok
                    else give_up (ErrWrap (''get droplet '' @ i @ '' before delete: '') e)
         | Inr d \<Rightarrow>
             if do_controller_tag C \<notin> set (dr_tags d) \<or> runner_job_tag L job_key \<notin> set (dr_tags d)
             then do {
               r \<leftarrow> get_droplet A n;
               case r of
                 Inl e \<Rightarrow> if do_not_found e then done_ok
                          else give_up (ErrWrap (''confirm droplet '' @ i @ '' after ownership mismatch: '') e)
               | Inr _ \<Rightarrow> give_up (failed ErrOwnershipMismatch
                   (''refusing to delete droplet '' @ i @ '' without controller and job ownership tags'')) }
             else do {
               e \<leftarrow> api (dapi_delete A CallerCtx n) (CloudDelete n);
               case e of
                 None \<Rightarrow> done_ok
               | Some e \<Rightarrow> if do_not_found e then done_ok
                           else give_up (ErrWrap (''delete owned droplet '' @ i @ '': '') e) } })"

definition do_cleanup_runner_except ::
    "cloud_lib \<Rightarrow> do_client \<Rightarrow> 'x do_api \<Rightarrow> string \<Rightarrow> string \<Rightarrow> 'x do_action" where
  "do_cleanup_runner_except L C A job_key excluded =
    try_call id (list_job_droplets_except L C A CallerCtx job_key excluded)
      (delete_each (\<lambda>d. do_delete_runner L C A (itoa (dr_id d)) job_key))"

definition do_cleanup_runner :: "cloud_lib \<Rightarrow> do_client \<Rightarrow> 'x do_api \<Rightarrow> string \<Rightarrow> 'x do_action" where
  "do_cleanup_runner L C A job_key = do_cleanup_runner_except L C A job_key ''''"

section \<open>Orphans\<close>

fun do_sweep_loop ::
    "cloud_lib \<Rightarrow> 'x do_api \<Rightarrow> string list \<Rightarrow> time \<Rightarrow> droplet list \<Rightarrow> int \<Rightarrow>
     ('x, do_event, int \<times> go_error option) cloud_call" where
  "do_sweep_loop L A known cutoff [] deleted = State_Monad.return (deleted, None)"
| "do_sweep_loop L A known cutoff (d # ds) deleted =
    (if itoa (dr_id d) \<in> set known then do_sweep_loop L A known cutoff ds deleted
     else case lib_rfc3339 L (dr_created d) of
       Inl e \<Rightarrow> State_Monad.return (deleted, Some (ErrWrap
         (''parse creation time for controller droplet '' @ itoa (dr_id d) @ '': '') e))
     | Inr created \<Rightarrow>
         if \<not> created < cutoff then do_sweep_loop L A known cutoff ds deleted
         else do {
           e \<leftarrow> api (dapi_delete A CallerCtx (dr_id d)) (CloudDelete (dr_id d));
           case e of
             None \<Rightarrow> do_sweep_loop L A known cutoff ds (deleted + 1)
           | Some e \<Rightarrow>
               if do_not_found e then do_sweep_loop L A known cutoff ds (deleted + 1)
               else State_Monad.return (deleted, Some (ErrWrap
                 (''delete orphaned controller droplet '' @ itoa (dr_id d) @ '': '') e)) })"

definition do_sweep_orphaned_runners ::
    "cloud_lib \<Rightarrow> do_client \<Rightarrow> 'x do_api \<Rightarrow> string list \<Rightarrow> time \<Rightarrow>
     ('x, do_event, int \<times> go_error option) cloud_call" where
  "do_sweep_orphaned_runners L C A known cutoff = do {
     r \<leftarrow> list_droplets_by_tag L A CallerCtx (do_controller_tag C);
     case r of
       Inl e \<Rightarrow> State_Monad.return (0, Some (ErrWrap ''list controller droplets for orphan sweep: '' e))
     | Inr droplets \<Rightarrow> do_sweep_loop L A known cutoff droplets 0 }"

section \<open>The contract\<close>

definition digitalocean :: "cloud_lib \<Rightarrow> do_client \<Rightarrow> 'x do_api \<Rightarrow> ('x, do_event) adapter" where
  "digitalocean L C A =
    \<lparr>ad_find = do_find_runner L C A, ad_create = do_create_runner L C A, ad_delete = do_delete_runner L C A,
     ad_cleanup = do_cleanup_runner L C A, ad_sweep = do_sweep_orphaned_runners L C A,
     ad_absent = Some (do_runner_absent A), ad_cleanup_except = Some (do_cleanup_runner_except L C A)\<rparr>"

text \<open>
  A firewall listing is acceptable when it has the configured firewall without inbound rules and on
  the tag of the controller, and no other firewall opens ports on the tags of the droplet.
\<close>

definition firewall_ok :: "do_client \<Rightarrow> string list \<Rightarrow> firewall \<Rightarrow> bool" where
  "firewall_ok C tags f \<longleftrightarrow>
    (if fw_id f = do_firewall_id C
     then fw_inbound_rules f = 0 \<and> do_controller_tag C \<in> set (fw_tags f)
     else fw_inbound_rules f = 0 \<or> set (fw_tags f) \<inter> set tags = {})"

definition firewalls_ok :: "do_client \<Rightarrow> string list \<Rightarrow> firewall set \<Rightarrow> bool" where
  "firewalls_ok C tags fs \<longleftrightarrow>
    (\<exists>f \<in> fs. fw_id f = do_firewall_id C) \<and> (\<forall>f \<in> fs. firewall_ok C tags f)"

definition do_owned :: "cloud_lib \<Rightarrow> do_client \<Rightarrow> string \<Rightarrow> droplet \<Rightarrow> bool" where
  "do_owned L C key d \<longleftrightarrow> do_controller_tag C \<in> set (dr_tags d) \<and> runner_job_tag L key \<in> set (dr_tags d)"

definition do_checked :: "cloud_lib \<Rightarrow> do_client \<Rightarrow> string \<Rightarrow> do_event \<Rightarrow> do_event list \<Rightarrow> bool" where
  "do_checked L C key e es \<longleftrightarrow>
    (\<exists>i r d rest. e = CloudDelete i r \<and> es = CloudGet i (Inr (DropletResource d)) # rest \<and> do_owned L C key d)"

text \<open>Complete listings of the droplets with a tag, and of the firewalls.\<close>

definition droplets_listed :: "string \<Rightarrow> do_event list \<Rightarrow> droplet list \<Rightarrow> bool" where
  "droplets_listed tag es ds \<longleftrightarrow> listed (DropletPage tag 1) es (map DropletResource ds)"

definition firewalls_listed :: "do_event list \<Rightarrow> firewall list \<Rightarrow> bool" where
  "firewalls_listed es fs \<longleftrightarrow> listed (FirewallPage 1) es (map FirewallResource fs)"

text \<open>
  What an operation may request, given its own events before, latest first. Before a creation these
  are the complete listing of the droplets of the job, which has none, and then the complete
  listing of the firewalls.
\<close>

fun do_permitted :: "cloud_lib \<Rightarrow> do_client \<Rightarrow> adapter_op \<Rightarrow> do_event \<Rightarrow> do_event list \<Rightarrow> bool" where
  "do_permitted L C (AdCreate params) e es \<longleftrightarrow>
    (\<exists>rq r lookup firewalls fs. e = CloudCreate rq r \<and> es = firewalls @ lookup \<and>
       dq_name rq = droplet_name L (p_job_key params) (p_provision_epoch params) \<and>
       dq_tags rq = [do_controller_tag C, runner_job_tag L (p_job_key params)] \<and>
       droplets_listed (runner_job_tag L (p_job_key params)) lookup [] \<and>
       firewalls_listed firewalls fs \<and> firewalls_ok C (dq_tags rq) (set fs))"
| "do_permitted L C (AdDelete n key) e es \<longleftrightarrow>
    do_checked L C key e es \<and> (\<exists>i r. e = CloudDelete i r \<and> droplet_number n = Some i)"
| "do_permitted L C (AdCleanup key) e es \<longleftrightarrow> do_checked L C key e es"
| "do_permitted L C (AdCleanupExcept key n) e es \<longleftrightarrow>
    do_checked L C key e es \<and> (\<exists>i r. e = CloudDelete i r \<and> (n = '''' \<or> itoa i \<noteq> n))"
| "do_permitted L C (AdSweep known cutoff) e es \<longleftrightarrow>
    (\<exists>i r deletions pages ds d t. e = CloudDelete i r \<and> es = deletions @ pages \<and>
       droplets_listed (do_controller_tag C) pages ds \<and> d \<in> set ds \<and> dr_id d = i \<and>
       itoa i \<notin> set known \<and> lib_rfc3339 L (dr_created d) = Inr t \<and> t < cutoff)"
| "do_permitted L C op e es \<longleftrightarrow> False"

text \<open>A run of a listing from \<open>page\<close> on has the value of a complete listing from there, or fails.\<close>

definition pages_listed :: "string \<Rightarrow> nat \<Rightarrow> droplet list \<Rightarrow> go_error + droplet list \<Rightarrow> do_event list \<Rightarrow> bool" where
  "pages_listed tag page existing r es \<longleftrightarrow> harmless_events es \<and>
    (\<forall>ds. r = Inr ds \<longrightarrow>
       (\<exists>rest. ds = existing @ rest \<and> listed (DropletPage tag page) es (map DropletResource rest)))"

lemma list_loop_logs:
  "logs (list_droplets_loop n A ctx tag page existing) (pages_listed tag page existing)"
proof (induction n arbitrary: page existing)
  case 0
  then show ?case by (auto simp: pages_listed_def intro!: logs_intros)
next
  case (Suc n)
  let ?ev = "page_event (DropletPage tag) page (map DropletResource) :: _ \<Rightarrow> do_event"
  show ?case
    unfolding list_droplets_loop.simps
  proof (rule logs_check_api)
    show "pages_listed tag page existing (Inl (id e)) [?ev (Inl e)]" for e
      by (simp add: pages_listed_def)
    fix p :: "droplet list \<times> bool"
    obtain ds more where p: "p = (ds, more)" by fastforce
    have step: "pages_listed tag page existing r (es @ [?ev (Inr (ds, True))])"
      if *: "pages_listed tag (page + 1) (existing @ ds) r es" for r es
      unfolding pages_listed_def
    proof (intro conjI allI impI)
      show "harmless_events (es @ [?ev (Inr (ds, True))])" using * by (simp add: pages_listed_def)
      fix all assume "r = Inr all"
      with * obtain rest where "all = (existing @ ds) @ rest"
          "listed (DropletPage tag (page + 1)) es (map DropletResource rest)"
        unfolding pages_listed_def by blast
      then show "\<exists>rest. all = existing @ rest \<and>
          listed (DropletPage tag page) (es @ [?ev (Inr (ds, True))]) (map DropletResource rest)"
        using listed_page(2) [of "DropletPage tag" page es "map DropletResource rest" "map DropletResource" ds]
        by (intro exI [where x = "ds @ rest"]) simp
    qed
    have last: "pages_listed tag page existing (Inr (existing @ ds)) [?ev (Inr (ds, False))]"
      using listed_page(1) [of "DropletPage tag" page "map DropletResource" ds] by (simp add: pages_listed_def)
    show "logs (case p of (ds, more) \<Rightarrow> if \<not> more then ok (existing @ ds)
        else list_droplets_loop n A ctx tag (page + 1) (existing @ ds))
        (\<lambda>r es. pages_listed tag page existing r (es @ [?ev (Inr p)]))"
    proof (cases more)
      case True
      with p show ?thesis by (simp del: list_droplets_loop.simps add: logs_mono [OF Suc.IH step, simplified])
    next
      case False
      with p last show ?thesis by (auto intro: logs_intros)
    qed
  qed
qed

lemma list_droplets_logs:
  "logs (list_droplets_by_tag L A ctx tag) (\<lambda>r es. harmless_events es \<and>
     (\<forall>ds. r = Inr ds \<longrightarrow> droplets_listed tag es ds))"
  unfolding list_droplets_by_tag_def
  by (rule logs_mono [OF list_loop_logs]) (auto simp: pages_listed_def droplets_listed_def)

lemma verify_all: "verify_droplets C '''' ds acc = Inr v \<Longrightarrow>
  v = acc @ ds \<and> (\<forall>d \<in> set ds. do_controller_tag C \<in> set (dr_tags d))"
proof (induction ds arbitrary: acc)
  case (Cons d ds)
  from Cons.prems have owned: "do_controller_tag C \<in> set (dr_tags d)"
    and "verify_droplets C '''' ds (acc @ [d]) = Inr v" by (simp_all split: if_splits)
  from Cons.IH [OF this(2)] owned show ?case by simp
qed simp

lemma reads_list: "reads (list_job_droplets_except L C A ctx key excluded)"
  unfolding list_job_droplets_except_def
  by (intro reads_intros logs_mono [OF list_droplets_logs])
    (auto split: sum.split intro: reads_intros)

text \<open>A lookup of the droplets of a job has the value of a complete listing.\<close>

definition job_droplets :: "cloud_lib \<Rightarrow> do_client \<Rightarrow> string \<Rightarrow> do_event list \<Rightarrow> droplet list \<Rightarrow> bool" where
  "job_droplets L C key es ds \<longleftrightarrow> droplets_listed (runner_job_tag L key) es ds \<and>
    (\<forall>d \<in> set ds. do_controller_tag C \<in> set (dr_tags d))"

lemma list_job_logs:
  "logs (list_job_droplets L C A ctx key) (\<lambda>r es. harmless_events es \<and>
     (\<forall>ds. r = Inr ds \<longrightarrow> job_droplets L C key es ds))"
  unfolding list_job_droplets_def list_job_droplets_except_def
  by (rule logs_check [OF list_droplets_logs])
    (auto split: sum.split dest!: verify_all simp: job_droplets_def intro!: logs_intros)

lemma find_logs:
  "logs (do_find_runner L C A key) (\<lambda>r es. harmless_events es \<and>
     (r = Inr None \<longrightarrow> droplets_listed (runner_job_tag L key) es []))"
  unfolding do_find_runner_def
  by (rule logs_check [OF list_job_logs]) (auto simp: job_droplets_def split: list.split intro: logs_intros)

lemma reads_recovery: "reads (recovery_loop n L C A key name clean)"
proof (induction n arbitrary: clean)
  case (Suc n)
  have "reads (find_job_droplet_by_name L C A RecoveryCtx key name)"
    unfolding find_job_droplet_by_name_def list_job_droplets_def
    by (auto split: sum.split intro!: reads_intros reads_list)
  with Suc show ?case
    by (auto simp: ambiguous_recovery_result_def split: sum.split option.split intro!: reads_intros)
qed (auto simp: ambiguous_recovery_result_def intro: reads_intros)

lemma check_firewalls_ok:
  "check_firewalls C tags fs found = Inr found' \<Longrightarrow>
   (found' \<longleftrightarrow> found \<or> (\<exists>f \<in> set fs. fw_id f = do_firewall_id C)) \<and>
   (\<forall>f \<in> set fs. firewall_ok C tags f)"
proof (induction fs arbitrary: found)
  case (Cons f fs)
  from Cons.prems Cons.IH show ?case
    by (auto simp: firewall_ok_def validate_runner_firewall_def shares_tag_def list_ex_iff
        split: if_splits option.splits)
qed simp

text \<open>A run over the firewalls from \<open>page\<close> on that succeeds has seen a complete listing from there.\<close>

definition firewalls_checked ::
    "do_client \<Rightarrow> string list \<Rightarrow> nat \<Rightarrow> bool \<Rightarrow> go_error + unit \<Rightarrow> do_event list \<Rightarrow> bool" where
  "firewalls_checked C tags page found r es \<longleftrightarrow> harmless_events es \<and>
    (r = Inr () \<longrightarrow>
       (\<exists>fs. listed (FirewallPage page) es (map FirewallResource fs) \<and>
          (found \<or> (\<exists>f \<in> set fs. fw_id f = do_firewall_id C)) \<and> (\<forall>f \<in> set fs. firewall_ok C tags f)))"

lemma firewall_pages_logs: "logs (firewall_pages n C A tags page found) (firewalls_checked C tags page found)"
proof (induction n arbitrary: page found)
  case 0
  then show ?case by (auto simp: firewalls_checked_def intro!: logs_intros)
next
  case (Suc n)
  let ?ev = "page_event FirewallPage page (map FirewallResource) :: _ \<Rightarrow> do_event"
  show ?case
    unfolding firewall_pages.simps
  proof (rule logs_check_api)
    show "firewalls_checked C tags page found (Inl (ErrWrap ''list DigitalOcean firewalls: '' e)) [?ev (Inl e)]" for e
      by (simp add: firewalls_checked_def)
    fix p :: "firewall list \<times> bool"
    obtain fs more where p: "p = (fs, more)" by fastforce
    have bad: "firewalls_checked C tags page found (Inl e) [?ev q]" for e q
      by (simp add: firewalls_checked_def)
    show "logs (case p of (firewalls, more) \<Rightarrow>
        case check_firewalls C tags firewalls found of Inl e \<Rightarrow> fail e
        | Inr found \<Rightarrow>
            if more then firewall_pages n C A tags (page + 1) found
            else if \<not> found
            then fail (ErrText (''DigitalOcean deny-inbound firewall '' @ go_quote (do_firewall_id C) @ '' was not found''))
            else ok ())
        (\<lambda>r es. firewalls_checked C tags page found r (es @ [?ev (Inr p)]))"
    proof (cases "check_firewalls C tags fs found")
      case (Inl e)
      with p bad show ?thesis by (auto intro: logs_intros)
    next
      case (Inr found')
      note ok = check_firewalls_ok [OF this]
      have step: "firewalls_checked C tags page found r (es @ [?ev (Inr (fs, True))])"
        if *: "firewalls_checked C tags (page + 1) found' r es" for r es
        unfolding firewalls_checked_def
      proof (intro conjI impI)
        show "harmless_events (es @ [?ev (Inr (fs, True))])" using * by (simp add: firewalls_checked_def)
        assume "r = Inr ()"
        with * obtain gs where gs: "listed (FirewallPage (page + 1)) es (map FirewallResource gs)"
            "found' \<or> (\<exists>f \<in> set gs. fw_id f = do_firewall_id C)" "\<forall>f \<in> set gs. firewall_ok C tags f"
          unfolding firewalls_checked_def by blast
        from listed_page(2) [of FirewallPage page es "map FirewallResource gs" "map FirewallResource" fs] gs ok
        show "\<exists>fs'. listed (FirewallPage page) (es @ [?ev (Inr (fs, True))]) (map FirewallResource fs') \<and>
            (found \<or> (\<exists>f \<in> set fs'. fw_id f = do_firewall_id C)) \<and> (\<forall>f \<in> set fs'. firewall_ok C tags f)"
          by (intro exI [where x = "fs @ gs"]) auto
      qed
      have last: "firewalls_checked C tags page found (Inr ()) [?ev (Inr (fs, False))]" if found'
        using that ok listed_page(1) [of FirewallPage page "map FirewallResource" fs]
        by (auto simp: firewalls_checked_def)
      from Inr p bad last show ?thesis
        by (cases more; cases found')
          (auto simp del: firewall_pages.simps intro: logs_intros logs_mono [OF Suc.IH step, simplified])
    qed
  qed
qed

lemma do_checked_older: "older_events (do_checked L C key)"
  unfolding older_events_def do_checked_def by fastforce

lemma do_delete_logs:
  "logs (do_delete_runner L C A n key) (\<lambda>_. disciplined (do_permitted L C (AdDelete n key)))"
  unfolding do_delete_runner_def get_droplet_def
  by (auto simp: do_checked_def do_owned_def intro!: logs_intros split: sum.split option.split)

lemma droplet_number_itoa: "droplet_number (itoa i) = Some n \<Longrightarrow> n = i"
  by (simp add: droplet_number_def parse_int_itoa_range split: if_splits)

lemma verify_spares:
  "verify_droplets C excluded ds acc = Inr v \<Longrightarrow> d \<in> set v \<Longrightarrow>
   d \<in> set acc \<or> excluded = '''' \<or> itoa (dr_id d) \<noteq> excluded"
proof (induction ds arbitrary: acc)
  case (Cons x ds)
  then show ?case by (fastforce split: if_splits)
qed simp

lemma list_except_logs:
  "logs (list_job_droplets_except L C A ctx key excluded) (\<lambda>r es. harmless_events es \<and>
     (\<forall>ds d. r = Inr ds \<longrightarrow> d \<in> set ds \<longrightarrow> excluded = '''' \<or> itoa (dr_id d) \<noteq> excluded))"
  unfolding list_job_droplets_except_def
  by (rule logs_check [OF list_droplets_logs])
    (auto split: sum.split intro!: logs_intros dest: verify_spares)

lemma do_cleanup_except_logs:
  "logs (do_cleanup_runner_except L C A key excluded)
     (\<lambda>_. disciplined (do_permitted L C (AdCleanupExcept key excluded)))"
proof -
  let ?p = "do_permitted L C (AdCleanupExcept key excluded)"
  have older: "older_events ?p"
    using do_checked_older unfolding older_events_def by fastforce
  have delete: "logs (do_delete_runner L C A (itoa (dr_id d)) key) (\<lambda>_. disciplined ?p)"
    if "excluded = '''' \<or> itoa (dr_id d) \<noteq> excluded" for d
    by (rule logs_mono [OF do_delete_logs], erule disciplined_mono)
      (use that in \<open>auto dest!: droplet_number_itoa\<close>)
  show ?thesis
    unfolding do_cleanup_runner_except_def
  proof (rule logs_try_call [OF list_except_logs])
    fix ds and es :: "do_event list"
    assume *: "harmless_events es \<and> (\<forall>ds' d. (Inr ds :: go_error + droplet list) = Inr ds' \<longrightarrow>
      d \<in> set ds' \<longrightarrow> excluded = '''' \<or> itoa (dr_id d) \<noteq> excluded)"
    have "logs (delete_each (\<lambda>d. do_delete_runner L C A (itoa (dr_id d)) key) ds) (\<lambda>_. disciplined ?p)"
      by (rule logs_delete_each [OF delete older]) (use * in blast)
    from logs_after_reads [OF this older] *
    show "logs (delete_each (\<lambda>d. do_delete_runner L C A (itoa (dr_id d)) key) ds) (\<lambda>_ es'. disciplined ?p (es' @ es))"
      by blast
  qed (auto intro: disciplined_harmless)
qed

text \<open>The sweep deletes only droplets among those it has listed.\<close>

definition do_orphan :: "cloud_lib \<Rightarrow> string list \<Rightarrow> time \<Rightarrow> droplet set \<Rightarrow> do_event \<Rightarrow> bool" where
  "do_orphan L known cutoff ds e \<longleftrightarrow>
    (\<exists>r d t. e = CloudDelete (dr_id d) r \<and> d \<in> ds \<and> itoa (dr_id d) \<notin> set known \<and>
       lib_rfc3339 L (dr_created d) = Inr t \<and> t < cutoff)"

lemma do_sweep_loop_logs:
  "set ds \<subseteq> all \<Longrightarrow> logs (do_sweep_loop L A known cutoff ds deleted) (\<lambda>_. list_all (do_orphan L known cutoff all))"
proof (induction ds arbitrary: deleted)
  case Nil
  then show ?case by (auto intro: logs_intros)
next
  case (Cons d ds)
  note IH = Cons.IH [OF subset_trans [OF set_subset_Cons Cons.prems]]
  have orphan: "do_orphan L known cutoff all (CloudDelete (dr_id d) r)"
    if "itoa (dr_id d) \<notin> set known" "lib_rfc3339 L (dr_created d) = Inr t" "t < cutoff" for r t
    using that Cons.prems by (auto simp: do_orphan_def)
  show ?case
    by (auto simp: orphan intro!: logs_intros IH split: sum.split option.split)
qed

lemma do_sweep_logs:
  "logs (do_sweep_orphaned_runners L C A known cutoff) (\<lambda>_. disciplined (do_permitted L C (AdSweep known cutoff)))"
  unfolding do_sweep_orphaned_runners_def
proof (rule logs_bind [OF list_droplets_logs])
  fix r :: "go_error + droplet list" and es :: "do_event list"
  assume listed: "harmless_events es \<and> (\<forall>ds. r = Inr ds \<longrightarrow> droplets_listed (do_controller_tag C) es ds)"
  then have quiet: "disciplined p es" for p
    by (auto intro: disciplined_harmless)
  let ?fine = "\<lambda>_ es'. disciplined (do_permitted L C (AdSweep known cutoff)) (es' @ es)"
  show "logs (case r of
       Inl e \<Rightarrow> State_Monad.return (0, Some (ErrWrap ''list controller droplets for orphan sweep: '' e))
     | Inr droplets \<Rightarrow> do_sweep_loop L A known cutoff droplets 0) ?fine"
  proof (cases r)
    case (Inl e)
    with quiet show ?thesis by (auto intro: logs_intros)
  next
    case (Inr ds)
    have old: "do_permitted L C (AdSweep known cutoff) e (es' @ es)"
      if "do_orphan L known cutoff (set ds) e" for e es'
      using that listed Inr unfolding do_orphan_def do_permitted.simps by blast
    have "logs (do_sweep_loop L A known cutoff ds 0) ?fine"
      by (rule logs_mono [OF do_sweep_loop_logs [OF subset_refl]])
        (erule disciplined_list_all, erule old, rule quiet)
    with Inr show ?thesis by simp
  qed
qed

lemma reads_recover: "reads (recover_create L C A key name err)"
  unfolding recover_create_def reconcile_ambiguous_create_def
  by (auto intro!: reads_intros reads_recovery split: option.split)

lemma do_create_logs:
  "logs (do_create_runner L C A params) (\<lambda>_. disciplined (do_permitted L C (AdCreate params)))"
proof -
  let ?key = "p_job_key params" and ?p = "do_permitted L C (AdCreate params)"
  let ?tags = "[do_controller_tag C, runner_job_tag L ?key]"
  show ?thesis
    unfolding do_create_runner_def
  proof (rule logs_check [OF find_logs])
    fix existing :: "runner_instance option" and es :: "do_event list"
    assume "harmless_events es \<and> ((Inr existing :: go_error + runner_instance option) = Inr None \<longrightarrow>
        droplets_listed (runner_job_tag L ?key) es [])"
    then have es: "harmless_events es"
      and none: "existing = None \<Longrightarrow> droplets_listed (runner_job_tag L ?key) es []" by auto
    show "logs (case existing of Some i \<Rightarrow> ok i | None \<Rightarrow>
        check id (validate_runner_firewalls L C A ?tags)
          (\<lambda>_. case render_cloud_init (do_template C) params of
             Inl e \<Rightarrow> fail e
           | Inr user_data \<Rightarrow> do {
               let rq = droplet_create_request L C params user_data;
               r \<leftarrow> api (dapi_create A CallerCtx rq) (\<lambda>r. CloudCreate rq (failure_of r));
               case r of
                 Inr d \<Rightarrow> ok (droplet_instance d)
               | Inl err \<Rightarrow> recover_create L C A ?key (droplet_name L ?key (p_provision_epoch params)) err }))
        (\<lambda>_ es'. disciplined ?p (es' @ es))"
    proof (cases existing)
      case (Some i)
      then show ?thesis using es by (auto intro!: logs_intros disciplined_harmless)
    next
      case None
      show ?thesis
        unfolding None option.case validate_runner_firewalls_def
      proof (rule logs_check [OF firewall_pages_logs])
        fix e es' assume "firewalls_checked C ?tags 1 False (Inl e) es'"
        with es show "disciplined ?p (es' @ es)"
          by (auto simp: firewalls_checked_def disciplined_append_harmless disciplined_harmless)
      next
        fix u es' assume checked: "firewalls_checked C ?tags 1 False (Inr u) es'"
        have quiet: "disciplined ?p (es' @ es)"
          using es checked by (auto simp: firewalls_checked_def disciplined_append_harmless disciplined_harmless)
        obtain fs where fs: "firewalls_listed es' fs" "firewalls_ok C ?tags (set fs)"
          using checked by (auto simp: firewalls_checked_def firewalls_listed_def firewalls_ok_def)
        have request: "dq_name (droplet_create_request L C params d) = droplet_name L ?key (p_provision_epoch params)"
            "dq_tags (droplet_create_request L C params d) = ?tags" for d
          by (simp_all add: droplet_create_request_def)
        have ready: "?p (CloudCreate (droplet_create_request L C params d) r) (es' @ es)" for d r
          unfolding do_permitted.simps using fs none [OF None] request by metis
        have created: "logs (recover_create L C A ?key name err)
            (\<lambda>_ es''. disciplined ?p (es'' @ CloudCreate (droplet_create_request L C params d) r # es' @ es))" for name err d r
          by (rule logs_mono [OF reads_recover])
            (subst disciplined_append_harmless, assumption, simp del: do_permitted.simps add: ready quiet)
        show "logs (case render_cloud_init (do_template C) params of
             Inl e \<Rightarrow> fail e
           | Inr user_data \<Rightarrow> do {
               let rq = droplet_create_request L C params user_data;
               r \<leftarrow> api (dapi_create A CallerCtx rq) (\<lambda>r. CloudCreate rq (failure_of r));
               case r of
                 Inr d \<Rightarrow> ok (droplet_instance d)
               | Inl err \<Rightarrow> recover_create L C A ?key (droplet_name L ?key (p_provision_epoch params)) err })
          (\<lambda>_ es''. disciplined ?p ((es'' @ es') @ es))"
          using quiet ready created
          by (auto simp del: do_permitted.simps simp: Let_def intro!: logs_intros split: sum.split)
      qed
    qed
  qed (auto intro: disciplined_harmless)
qed

lemma do_absent_logs: "reads (do_runner_absent A n)"
  unfolding do_runner_absent_def get_droplet_def
  by (auto intro!: reads_intros split: option.split sum.split)

interpretation dg: cloud_adapter "digitalocean L C A" "do_permitted L C" for L C A
proof
  note unfold = digitalocean_def adapter.select_convs
  show "logs (ad_find (digitalocean L C A) key) (\<lambda>_. disciplined (do_permitted L C (AdFind key)))" for key
    unfolding unfold by (rule logs_mono [OF find_logs]) (blast intro: disciplined_harmless)
  show "logs (ad_create (digitalocean L C A) params) (\<lambda>_. disciplined (do_permitted L C (AdCreate params)))" for params
    unfolding unfold by (rule do_create_logs)
  show "logs (ad_delete (digitalocean L C A) n key) (\<lambda>_. disciplined (do_permitted L C (AdDelete n key)))" for n key
    unfolding unfold by (rule do_delete_logs)
  show "logs (ad_cleanup (digitalocean L C A) key) (\<lambda>_. disciplined (do_permitted L C (AdCleanup key)))" for key
    unfolding unfold do_cleanup_runner_def by (rule logs_mono [OF do_cleanup_except_logs]) (erule disciplined_mono, simp)
  show "logs (ad_sweep (digitalocean L C A) known cutoff)
      (\<lambda>_. disciplined (do_permitted L C (AdSweep known cutoff)))" for known cutoff
    unfolding unfold by (rule do_sweep_logs)
  show "logs (f n) (\<lambda>_. disciplined (do_permitted L C (AdAbsent n)))"
    if "ad_absent (digitalocean L C A) = Some f" for f n
    using that unfolding unfold by (auto intro: logs_harmless_disciplined do_absent_logs)
  show "logs (g key n) (\<lambda>_. disciplined (do_permitted L C (AdCleanupExcept key n)))"
    if "ad_cleanup_except (digitalocean L C A) = Some g" for g key n
    using that unfolding unfold by (auto intro: do_cleanup_except_logs)
qed

end
