(* ===== verification/Cloud_AWS.thy ===== *)
theory Cloud_AWS
  imports Cloud_Contract
begin

text \<open>
  The EC2 adapter, \<open>internal/aws/ec2.go\<close>: the validation of its configuration, the launch request
  with its tags and idempotency token, lookup by tags over pages, deletion after a check of the
  tags of the instance, cleanup, and the sweep of orphans. The SDK is a parameter.
\<close>

section \<open>The API\<close>

text \<open>
  The pointers of the SDK's structs are options. A tag is a pair of a key and a value, either of
  which may be absent.
\<close>

type_synonym ec2_tag = "string option \<times> string option"

record ec2_instance =
  in_id :: "string option"
  in_tags :: "ec2_tag list"
  in_state :: "string option"
  in_launch_time :: "time option"

text \<open>A filter of \<open>DescribeInstances\<close>, and the fields of \<open>RunInstancesInput\<close> that vary.\<close>

type_synonym ec2_filter = "string \<times> string list"

record run_request =
  rr_image :: string
  rr_type :: string
  rr_public_ip :: bool
  rr_subnet :: string
  rr_groups :: "string list"
  rr_user_data :: string
  rr_client_token :: string
  rr_tags :: "ec2_tag list"
  rr_profile :: "string option"
  rr_key_name :: "string option"
  rr_spot :: bool

text \<open>
  A description answers with reservations - lists of instances - and the token of the next page. In
  the log a listing request is its filters and the token of its page.
\<close>

type_synonym ec2_query = "ec2_filter list \<times> string option"

record 'x ec2_api =
  eapi_describe_filters :: "ec2_filter list \<Rightarrow> string option \<Rightarrow> 'x \<Rightarrow>
    (go_error + (ec2_instance list list \<times> string option)) \<times> 'x"
  eapi_describe_id :: "string \<Rightarrow> 'x \<Rightarrow> (go_error + ec2_instance list list) \<times> 'x"
  eapi_run :: "run_request \<Rightarrow> 'x \<Rightarrow> (go_error + ec2_instance list) \<times> 'x"
  eapi_terminate :: "string \<Rightarrow> 'x \<Rightarrow> go_error option \<times> 'x"

type_synonym ec2_event = "(string, ec2_instance, run_request, ec2_query) cloud_event"
type_synonym ('x, 'a) ec2_call = "('x, ec2_event, go_error + 'a) cloud_call"
type_synonym 'x ec2_action = "('x, ec2_event, go_error option) cloud_call"

text \<open>An error of the SDK is \<open>ErrProvider\<close> with its code.\<close>

definition aws_not_found :: "go_error \<Rightarrow> bool" where
  "aws_not_found e \<longleftrightarrow>
    errors_as (\<lambda>e. case e of ErrProvider kind status \<Rightarrow> Some kind | _ \<Rightarrow> None) e =
      Some ''InvalidInstanceID.NotFound''"

fun ec2_tag_value :: "ec2_tag list \<Rightarrow> string \<Rightarrow> string" where
  "ec2_tag_value [] key = ''''"
| "ec2_tag_value ((k, v) # tags) key =
    (case (k, v) of (Some k, Some v) \<Rightarrow> if k = key then v else ec2_tag_value tags key
     | _ \<Rightarrow> ec2_tag_value tags key)"

section \<open>The client\<close>

record aws_config =
  ac_region :: string
  ac_ami :: string
  ac_instance_type :: string
  ac_subnet_id :: string
  ac_security_group_ids :: "string list"
  ac_instance_profile_arn :: string
  ac_key_name :: string
  ac_cloud_init_path :: string
  ac_controller_id :: string
  ac_spot :: bool
  ac_external_ip :: bool

record aws_client =
  aw_template :: "template option"
  aw_ami :: string
  aw_instance_type :: string
  aw_subnet_id :: string
  aw_security_group_ids :: "string list"
  aw_instance_profile_arn :: string
  aw_key_name :: string
  aw_controller_id :: string
  aw_spot :: bool
  aw_external_ip :: bool

definition make_aws_client :: "template \<Rightarrow> aws_config \<Rightarrow> aws_client" where
  "make_aws_client tmpl c =
    \<lparr>aw_template = Some tmpl, aw_ami = ac_ami c, aw_instance_type = ac_instance_type c,
     aw_subnet_id = ac_subnet_id c, aw_security_group_ids = ac_security_group_ids c,
     aw_instance_profile_arn = ac_instance_profile_arn c, aw_key_name = ac_key_name c,
     aw_controller_id = ac_controller_id c, aw_spot = ac_spot c, aw_external_ip = ac_external_ip c\<rparr>"

text \<open>\<open>load\<close> is \<open>awsconfig.LoadDefaultConfig\<close>, as far as it may fail.\<close>

definition new_aws_client :: "cloud_lib \<Rightarrow> (string \<Rightarrow> go_error option) \<Rightarrow> aws_config \<Rightarrow> go_error + aws_client" where
  "new_aws_client L load c =
    (if ac_region c = '''' \<or> ac_ami c = '''' \<or> ac_instance_type c = '''' \<or> ac_subnet_id c = '''' \<or>
        length (ac_security_group_ids c) = 0
     then Inl (ErrText ''AWS region, AMI, instance type, subnet ID, and at least one security group are required'')
     else if \<not> valid_controller_id (ac_controller_id c)
     then Inl bad_controller_id
     else case lib_parse_files L (ac_cloud_init_path c) of
       Inl e \<Rightarrow> Inl (ErrWrap ''parse cloud-init template: '' e)
     | Inr tmpl \<Rightarrow>
         (case load (ac_region c) of
            Some e \<Rightarrow> Inl (ErrWrap ''load AWS configuration: '' e)
          | None \<Rightarrow> Inr (make_aws_client tmpl c)))"

definition aws_controller_tag_key :: string where
  "aws_controller_tag_key = ''github-runners/controller''"

definition aws_job_tag_key :: string where
  "aws_job_tag_key = ''github-runners/job''"

definition aws_job_tag :: "cloud_lib \<Rightarrow> string \<Rightarrow> string" where
  "aws_job_tag L job_key = hex_encode (take 16 (lib_sha256 L job_key))"

definition client_token :: "cloud_lib \<Rightarrow> string \<Rightarrow> int \<Rightarrow> string" where
  "client_token L job_key epoch =
    ''github-runner-'' @ hex_encode (take 16 (lib_sha256 L (''aws:'' @ job_key @ '':'' @ itoa epoch)))"

definition aws_owned :: "cloud_lib \<Rightarrow> aws_client \<Rightarrow> string \<Rightarrow> ec2_instance \<Rightarrow> bool" where
  "aws_owned L C job_key i \<longleftrightarrow>
    ec2_tag_value (in_tags i) aws_controller_tag_key = aw_controller_id C \<and>
    ec2_tag_value (in_tags i) aws_job_tag_key = aws_job_tag L job_key"

section \<open>Lookup\<close>

definition live_states :: "string list" where
  "live_states = [''pending'', ''running'', ''stopping'', ''stopped'']"

text \<open>The loop over the instances of a page; an instance without identifier is passed over.\<close>

fun collect_instances ::
    "cloud_lib \<Rightarrow> aws_client \<Rightarrow> string \<Rightarrow> ec2_instance list \<Rightarrow> ec2_instance list \<Rightarrow> go_error + ec2_instance list" where
  "collect_instances L C job_key [] instances = Inr instances"
| "collect_instances L C job_key (i # is) instances =
    (case in_id i of
       None \<Rightarrow> collect_instances L C job_key is instances
     | Some n \<Rightarrow>
         if \<not> aws_owned L C job_key i
         then Inl (failed ErrOwnershipMismatch
                (''EC2 instance '' @ n @ '' lacks controller or job ownership tags''))
         else collect_instances L C job_key is (instances @ [i]))"

definition next_token :: "string option \<Rightarrow> bool" where
  "next_token t \<longleftrightarrow> t \<noteq> None \<and> t \<noteq> Some ''''"

definition described :: "ec2_filter list \<Rightarrow> string option \<Rightarrow>
    go_error + (ec2_instance list list \<times> string option) \<Rightarrow> ec2_event" where
  "described filters token r = CloudList (filters, token)
    (map_sum id (\<lambda>(reservations, next). (concat reservations,
       if next = None \<or> next = Some '''' then None else Some (filters, next))) r)"

definition describe ::
    "'x ec2_api \<Rightarrow> ec2_filter list \<Rightarrow> string option \<Rightarrow>
     ('x, ec2_instance list list \<times> string option) ec2_call" where
  "describe A filters token =
    api (eapi_describe_filters A filters token) (described filters token)"

fun list_instances_loop ::
    "nat \<Rightarrow> cloud_lib \<Rightarrow> aws_client \<Rightarrow> 'x ec2_api \<Rightarrow> string \<Rightarrow> ec2_filter list \<Rightarrow> string option \<Rightarrow>
     ec2_instance list \<Rightarrow> ('x, ec2_instance list) ec2_call" where
  "list_instances_loop 0 L C A job_key filters token instances =
     fail (ErrWrap ''find EC2 runner: '' ErrDeadlineExceeded)"
| "list_instances_loop (Suc n) L C A job_key filters token instances =
     check (ErrWrap ''find EC2 runner: '') (describe A filters token)
       (\<lambda>(reservations, next).
          case collect_instances L C job_key (concat reservations) instances of
            Inl e \<Rightarrow> fail e
          | Inr instances \<Rightarrow>
              if \<not> next_token next then ok instances
              else list_instances_loop n L C A job_key filters next instances)"

definition list_job_instances ::
    "cloud_lib \<Rightarrow> aws_client \<Rightarrow> 'x ec2_api \<Rightarrow> string \<Rightarrow> ('x, ec2_instance list) ec2_call" where
  "list_job_instances L C A job_key =
    list_instances_loop (lib_budget L) L C A job_key
      [(''tag:'' @ aws_controller_tag_key, [aw_controller_id C]),
       (''tag:'' @ aws_job_tag_key, [aws_job_tag L job_key]),
       (''instance-state-name'', live_states)] None []"

definition aws_find_runner ::
    "cloud_lib \<Rightarrow> aws_client \<Rightarrow> 'x ec2_api \<Rightarrow> string \<Rightarrow> ('x, runner_instance option) ec2_call" where
  "aws_find_runner L C A job_key =
    check id (list_job_instances L C A job_key) (\<lambda>instances.
      case instances of
        [] \<Rightarrow> ok None
      | [i] \<Rightarrow> ok (Some \<lparr>ri_id = the (in_id i), ri_name = ec2_tag_value (in_tags i) ''Name''\<rparr>)
      | _ \<Rightarrow> fail (failed ErrDuplicateInstances (''multiple EC2 instances exist for job '' @ job_key)))"

section \<open>Creation\<close>

text \<open>The constant fields of the request - one instance, IMDSv2 only, no instance tags in the
  metadata, one-time spot requests that terminate - are left out.\<close>

definition run_input :: "cloud_lib \<Rightarrow> aws_client \<Rightarrow> runner_params \<Rightarrow> string \<Rightarrow> run_request" where
  "run_input L C params user_data =
    \<lparr>rr_image = aw_ami C, rr_type = aw_instance_type C, rr_public_ip = aw_external_ip C,
     rr_subnet = aw_subnet_id C, rr_groups = aw_security_group_ids C,
     rr_user_data = base64_encode user_data,
     rr_client_token = client_token L (p_job_key params) (p_provision_epoch params),
     rr_tags = [(Some ''Name'', Some (p_runner_name params)),
                (Some aws_controller_tag_key, Some (aw_controller_id C)),
                (Some aws_job_tag_key, Some (aws_job_tag L (p_job_key params)))],
     rr_profile = (if aw_instance_profile_arn C \<noteq> '''' then Some (aw_instance_profile_arn C) else None),
     rr_key_name = (if aw_key_name C \<noteq> '''' then Some (aw_key_name C) else None),
     rr_spot = aw_spot C\<rparr>"

definition aws_create_runner ::
    "cloud_lib \<Rightarrow> aws_client \<Rightarrow> 'x ec2_api \<Rightarrow> runner_params \<Rightarrow> ('x, runner_instance) ec2_call" where
  "aws_create_runner L C A params =
    check id (aws_find_runner L C A (p_job_key params)) (\<lambda>existing.
      case existing of
        Some i \<Rightarrow> ok i
      | None \<Rightarrow>
          (case render_cloud_init (aw_template C) params of
             Inl e \<Rightarrow> fail e
           | Inr user_data \<Rightarrow>
               (let rq = run_input L C params user_data in
                check (ErrWrap ''create EC2 runner: '') (api (eapi_run A rq) (\<lambda>r. CloudCreate rq (failure_of r)))
                  (\<lambda>instances. case instances of
                     [i] \<Rightarrow> (case in_id i of
                        Some n \<Rightarrow> ok \<lparr>ri_id = n, ri_name = p_runner_name params\<rparr>
                      | None \<Rightarrow> fail (ErrText ''create EC2 runner: API returned no instance identity''))
                   | _ \<Rightarrow> fail (ErrText ''create EC2 runner: API returned no instance identity'')))))"

section \<open>Deletion\<close>

text \<open>The first instance of the first reservation that has one.\<close>

fun first_instance :: "ec2_instance list list \<Rightarrow> ec2_instance option" where
  "first_instance [] = None"
| "first_instance ([] # rs) = first_instance rs"
| "first_instance ((i # is) # rs) = Some i"

definition fetched_instance :: "string \<Rightarrow> go_error + ec2_instance list list \<Rightarrow> ec2_event" where
  "fetched_instance n r =
    (case r of
       Inl e \<Rightarrow> CloudGet n (Inl e)
     | Inr rs \<Rightarrow> (case first_instance rs of Some i \<Rightarrow> CloudGet n (Inr i) | None \<Rightarrow> CloudOther))"

definition shutting_down :: "ec2_instance \<Rightarrow> bool" where
  "shutting_down i \<longleftrightarrow> in_state i = Some ''shutting-down'' \<or> in_state i = Some ''terminated''"

definition aws_delete_runner ::
    "cloud_lib \<Rightarrow> aws_client \<Rightarrow> 'x ec2_api \<Rightarrow> string \<Rightarrow> string \<Rightarrow> 'x ec2_action" where
  "aws_delete_runner L C A n job_key = do {
     r \<leftarrow> api (eapi_describe_id A n) (fetched_instance n);
     case r of
       Inl e \<Rightarrow> if aws_not_found e then done_ok
                else give_up (ErrWrap (''get EC2 runner '' @ n @ '' before delete: '') e)
     | Inr reservations \<Rightarrow>
         (case first_instance reservations of
            None \<Rightarrow> done_ok
          | Some i \<Rightarrow>
              if shutting_down i then done_ok
              else if \<not> aws_owned L C job_key i
              then give_up (failed ErrOwnershipMismatch
                (''refusing to delete EC2 instance '' @ n @ '' without controller and job ownership tags''))
              else do {
                e \<leftarrow> api (eapi_terminate A n) (CloudDelete n);
                case e of
                  None \<Rightarrow> done_ok
                | Some e \<Rightarrow> if aws_not_found e then done_ok
                            else give_up (ErrWrap (''terminate owned EC2 runner '' @ n @ '': '') e) }) }"

definition aws_cleanup_runner ::
    "cloud_lib \<Rightarrow> aws_client \<Rightarrow> 'x ec2_api \<Rightarrow> string \<Rightarrow> 'x ec2_action" where
  "aws_cleanup_runner L C A job_key =
    try_call id (list_job_instances L C A job_key)
      (delete_each (\<lambda>i. aws_delete_runner L C A (the (in_id i)) job_key))"

section \<open>Orphans\<close>

text \<open>
  The sweep deletes page by page. The first function handles the instances of a page and answers
  with the count so far and the error that ends the sweep.
\<close>

fun sweep_page ::
    "aws_client \<Rightarrow> 'x ec2_api \<Rightarrow> string list \<Rightarrow> time \<Rightarrow> ec2_instance list \<Rightarrow> int \<Rightarrow>
     ('x, ec2_event, int \<times> go_error option) cloud_call" where
  "sweep_page C A known cutoff [] deleted = State_Monad.return (deleted, None)"
| "sweep_page C A known cutoff (i # is) deleted =
    (case in_id i of
       None \<Rightarrow> State_Monad.return (deleted, Some (ErrText ''controller EC2 instance has no instance ID''))
     | Some n \<Rightarrow>
         if ec2_tag_value (in_tags i) aws_controller_tag_key \<noteq> aw_controller_id C
         then State_Monad.return (deleted, Some (failed ErrOwnershipMismatch
                (''EC2 orphan sweep returned unowned instance '' @ n)))
         else case in_launch_time i of
           None \<Rightarrow> State_Monad.return (deleted, Some (ErrText
             (''controller-owned EC2 instance '' @ n @ '' has no launch time'')))
         | Some launched \<Rightarrow>
             if n \<in> set known \<or> \<not> launched < cutoff then sweep_page C A known cutoff is deleted
             else do {
               e \<leftarrow> api (eapi_terminate A n) (CloudDelete n);
               case e of
                 None \<Rightarrow> sweep_page C A known cutoff is (deleted + 1)
               | Some e \<Rightarrow>
                   if aws_not_found e then sweep_page C A known cutoff is (deleted + 1)
                   else State_Monad.return (deleted, Some (ErrWrap
                     (''terminate orphaned controller EC2 instance '' @ n @ '': '') e)) })"

fun aws_sweep_loop ::
    "nat \<Rightarrow> aws_client \<Rightarrow> 'x ec2_api \<Rightarrow> string list \<Rightarrow> time \<Rightarrow> ec2_filter list \<Rightarrow> string option \<Rightarrow> int \<Rightarrow>
     ('x, ec2_event, int \<times> go_error option) cloud_call" where
  "aws_sweep_loop 0 C A known cutoff filters token deleted = State_Monad.return
     (deleted, Some (ErrWrap ''list controller EC2 instances for orphan sweep: '' ErrDeadlineExceeded))"
| "aws_sweep_loop (Suc n) C A known cutoff filters token deleted = do {
     r \<leftarrow> describe A filters token;
     case r of
       Inl e \<Rightarrow> State_Monad.return
         (deleted, Some (ErrWrap ''list controller EC2 instances for orphan sweep: '' e))
     | Inr (reservations, next) \<Rightarrow> do {
         p \<leftarrow> sweep_page C A known cutoff (concat reservations) deleted;
         case p of
           (deleted, Some e) \<Rightarrow> State_Monad.return (deleted, Some e)
         | (deleted, None) \<Rightarrow>
             if \<not> next_token next then State_Monad.return (deleted, None)
             else aws_sweep_loop n C A known cutoff filters next deleted } }"

definition aws_sweep_orphaned_runners ::
    "cloud_lib \<Rightarrow> aws_client \<Rightarrow> 'x ec2_api \<Rightarrow> string list \<Rightarrow> time \<Rightarrow>
     ('x, ec2_event, int \<times> go_error option) cloud_call" where
  "aws_sweep_orphaned_runners L C A known cutoff =
    aws_sweep_loop (lib_budget L) C A known cutoff
      [(''tag:'' @ aws_controller_tag_key, [aw_controller_id C]),
       (''instance-state-name'', live_states)] None 0"

section \<open>The contract\<close>

definition amazon :: "cloud_lib \<Rightarrow> aws_client \<Rightarrow> 'x ec2_api \<Rightarrow> ('x, ec2_event) adapter" where
  "amazon L C A =
    \<lparr>ad_find = aws_find_runner L C A, ad_create = aws_create_runner L C A, ad_delete = aws_delete_runner L C A,
     ad_cleanup = aws_cleanup_runner L C A, ad_sweep = aws_sweep_orphaned_runners L C A,
     ad_absent = None, ad_cleanup_except = None\<rparr>"

definition aws_checked :: "cloud_lib \<Rightarrow> aws_client \<Rightarrow> string \<Rightarrow> ec2_event \<Rightarrow> ec2_event list \<Rightarrow> bool" where
  "aws_checked L C key e es \<longleftrightarrow>
    (\<exists>n r i rest. e = CloudDelete n r \<and> es = CloudGet n (Inr i) # rest \<and> aws_owned L C key i \<and> \<not> shutting_down i)"

text \<open>The filters of the instances of a controller that are not terminated, and of those of a job.\<close>

definition of_controller :: "aws_client \<Rightarrow> ec2_filter list" where
  "of_controller C =
    [(''tag:github-runners/controller'', [aw_controller_id C]),
     (''instance-state-name'', [''pending'', ''running'', ''stopping'', ''stopped''])]"

definition of_job :: "cloud_lib \<Rightarrow> aws_client \<Rightarrow> string \<Rightarrow> ec2_filter list" where
  "of_job L C key =
    [(''tag:github-runners/controller'', [aw_controller_id C]),
     (''tag:github-runners/job'', [aws_job_tag L key]),
     (''instance-state-name'', [''pending'', ''running'', ''stopping'', ''stopped''])]"

text \<open>The sweep deletes instances that a page of the listing of the controller has shown.\<close>

definition ec2_orphan :: "aws_client \<Rightarrow> string list \<Rightarrow> time \<Rightarrow> ec2_event \<Rightarrow> ec2_event list \<Rightarrow> bool" where
  "ec2_orphan C known cutoff e es \<longleftrightarrow>
    (\<exists>n r i t. e = CloudDelete n r \<and> i \<in> shown (\<lambda>q. fst q = of_controller C) es \<and> in_id i = Some n \<and>
       ec2_tag_value (in_tags i) aws_controller_tag_key = aw_controller_id C \<and>
       n \<notin> set known \<and> in_launch_time i = Some t \<and> t < cutoff)"

text \<open>The events are a complete listing of the job, over all its pages, without an instance.\<close>

definition none_listed :: "cloud_lib \<Rightarrow> aws_client \<Rightarrow> string \<Rightarrow> ec2_event list \<Rightarrow> bool" where
  "none_listed L C key es \<longleftrightarrow>
    (\<exists>is. listed (of_job L C key, None) es is \<and> (\<forall>i \<in> set is. in_id i = None))"

fun aws_permitted :: "cloud_lib \<Rightarrow> aws_client \<Rightarrow> adapter_op \<Rightarrow> ec2_event \<Rightarrow> ec2_event list \<Rightarrow> bool" where
  "aws_permitted L C (AdCreate params) e es \<longleftrightarrow>
    (\<exists>rq r. e = CloudCreate rq r \<and>
       rr_client_token rq = client_token L (p_job_key params) (p_provision_epoch params) \<and>
       ec2_tag_value (rr_tags rq) aws_controller_tag_key = aw_controller_id C \<and>
       ec2_tag_value (rr_tags rq) aws_job_tag_key = aws_job_tag L (p_job_key params) \<and>
       none_listed L C (p_job_key params) es)"
| "aws_permitted L C (AdDelete n key) e es \<longleftrightarrow> aws_checked L C key e es \<and> (\<exists>r. e = CloudDelete n r)"
| "aws_permitted L C (AdCleanup key) e es \<longleftrightarrow> aws_checked L C key e es"
| "aws_permitted L C (AdSweep known cutoff) e es \<longleftrightarrow> ec2_orphan C known cutoff e es"
| "aws_permitted L C op e es \<longleftrightarrow> False"

lemma aws_checked_older: "older_events (aws_checked L C key)"
  unfolding older_events_def aws_checked_def by fastforce

lemma filters_of:
  "[(''tag:'' @ aws_controller_tag_key, [aw_controller_id C]), (''tag:'' @ aws_job_tag_key, [aws_job_tag L key]),
    (''instance-state-name'', live_states)] = of_job L C key"
  "[(''tag:'' @ aws_controller_tag_key, [aw_controller_id C]), (''instance-state-name'', live_states)] = of_controller C"
  by (simp_all add: of_job_def of_controller_def aws_controller_tag_key_def aws_job_tag_key_def live_states_def)

lemma collect_grows:
  "collect_instances L C key is acc = Inr r \<Longrightarrow> r = [] \<Longrightarrow> acc = [] \<and> (\<forall>i \<in> set is. in_id i = None)"
  by (induction "is" arbitrary: acc) (auto split: option.splits if_splits)

text \<open>A lookup from a page on that finds nothing has seen a complete listing from there without an instance.\<close>

definition instances_listed ::
    "ec2_filter list \<Rightarrow> string option \<Rightarrow> ec2_instance list \<Rightarrow> go_error + ec2_instance list \<Rightarrow> ec2_event list \<Rightarrow> bool" where
  "instances_listed filters token acc r es \<longleftrightarrow> harmless_events es \<and>
    (r = Inr [] \<longrightarrow> acc = [] \<and> (\<exists>is. listed (filters, token) es is \<and> (\<forall>i \<in> set is. in_id i = None)))"

lemma described_reads [simp]: "\<not> mutation (described filters token r)"
  by (simp add: described_def)

lemma instances_loop_logs:
  "logs (list_instances_loop n L C A key filters token acc) (instances_listed filters token acc)"
proof (induction n arbitrary: token acc)
  case 0
  then show ?case by (auto simp: instances_listed_def intro!: logs_intros)
next
  case (Suc n)
  show ?case
    unfolding list_instances_loop.simps describe_def
  proof (rule logs_check_api)
    show "instances_listed filters token acc (Inl (ErrWrap ''find EC2 runner: '' e)) [described filters token (Inl e)]" for e
      by (simp add: instances_listed_def)
    fix p :: "ec2_instance list list \<times> string option"
    obtain rs token' where p: "p = (rs, token')" by fastforce
    let ?ev = "described filters token (Inr (rs, token'))"
    have stop: "instances_listed filters token acc (Inl e) [?ev]" for e
      by (simp add: instances_listed_def)
    have step: "instances_listed filters token acc r (es @ [?ev])"
      if "collect_instances L C key (concat rs) acc = Inr acc'" and "next_token token'"
        and "instances_listed filters token' acc' r es" for acc' r es
      unfolding instances_listed_def
    proof (intro conjI impI)
      show "harmless_events (es @ [?ev])" using that(3) by (simp add: instances_listed_def)
      assume r: "r = Inr []"
      with that(3) obtain "is" where *: "acc' = []" "listed (filters, token') es is" "\<forall>i \<in> set is. in_id i = None"
        unfolding instances_listed_def by blast
      show "acc = []" using collect_grows [OF that(1) *(1)] by simp
      show "\<exists>is. listed (filters, token) (es @ [?ev]) is \<and> (\<forall>i \<in> set is. in_id i = None)"
        using * that(2) collect_grows [OF that(1) *(1)]
        by (intro exI [where x = "concat rs @ is"]) (auto simp: described_def next_token_def)
    qed
    have last: "instances_listed filters token acc (Inr acc') [?ev]"
      if "collect_instances L C key (concat rs) acc = Inr acc'" and "\<not> next_token token'" for acc'
      using collect_grows [OF that(1)] that(2)
      by (auto simp: instances_listed_def described_def next_token_def)
    show "logs (case p of (reservations, next) \<Rightarrow>
         case collect_instances L C key (concat reservations) acc of
           Inl e \<Rightarrow> fail e
         | Inr instances \<Rightarrow>
             if \<not> next_token next then ok instances
             else list_instances_loop n L C A key filters next instances)
        (\<lambda>r es. instances_listed filters token acc r (es @ [described filters token (Inr p)]))"
    proof (cases "collect_instances L C key (concat rs) acc")
      case (Inl e)
      with p stop show ?thesis by (auto intro!: logs_intros)
    next
      case (Inr acc')
      have "logs (list_instances_loop n L C A key filters token' acc')
          (\<lambda>r es. instances_listed filters token acc r (es @ [?ev]))" if "next_token token'"
        by (rule logs_mono [OF Suc.IH]) (rule step [OF Inr that])
      with p Inr last [OF Inr] show ?thesis
        by (auto simp del: list_instances_loop.simps intro!: logs_intros)
    qed
  qed
qed

lemma aws_job_logs:
  "logs (list_job_instances L C A key) (\<lambda>r es. harmless_events es \<and> (r = Inr [] \<longrightarrow> none_listed L C key es))"
  unfolding list_job_instances_def filters_of
  by (rule logs_mono [OF instances_loop_logs]) (simp add: instances_listed_def none_listed_def)

lemma aws_find_logs:
  "logs (aws_find_runner L C A key) (\<lambda>r es. harmless_events es \<and>
     (r = Inr None \<longrightarrow> none_listed L C key es))"
  unfolding aws_find_runner_def
  by (rule logs_check [OF aws_job_logs])
    (auto split: list.split intro!: logs_intros)

lemma none_listed_reads: "none_listed L C key es \<Longrightarrow> harmless_events es"
  unfolding none_listed_def by (blast dest: listed_reads)

lemma aws_create_logs: "logs (aws_create_runner L C A params) (\<lambda>_. disciplined (aws_permitted L C (AdCreate params)))"
  unfolding aws_create_runner_def
  by (rule logs_check [OF aws_find_logs])
    (auto simp: Let_def run_input_def aws_controller_tag_key_def aws_job_tag_key_def disciplined_harmless split: option.split sum.split list.split intro!: logs_intros)

lemma aws_delete_logs:
  "logs (aws_delete_runner L C A n key) (\<lambda>_. disciplined (aws_permitted L C (AdDelete n key)))"
  unfolding aws_delete_runner_def
  by (auto simp: aws_checked_def fetched_instance_def intro!: logs_intros split: sum.split option.split)

lemma aws_cleanup_logs:
  "logs (aws_cleanup_runner L C A key) (\<lambda>_. disciplined (aws_permitted L C (AdCleanup key)))"
proof -
  have older: "older_events (aws_permitted L C (AdCleanup key))"
    using aws_checked_older by (simp add: older_events_def)
  have delete: "logs (aws_delete_runner L C A n key) (\<lambda>_. disciplined (aws_permitted L C (AdCleanup key)))" for n
    by (rule logs_mono [OF aws_delete_logs]) (erule disciplined_mono, simp)
  have each: "logs (delete_each (\<lambda>i. aws_delete_runner L C A (the (in_id i)) key) is)
      (\<lambda>_. disciplined (aws_permitted L C (AdCleanup key)))" for "is"
    by (rule logs_delete_each [OF delete older])
  show ?thesis
    unfolding aws_cleanup_runner_def
    by (rule logs_try_call [OF aws_job_logs])
      (auto intro: disciplined_harmless logs_after_reads [OF each older])
qed

lemma ec2_orphan_older: "older_events (ec2_orphan C known cutoff)"
  unfolding older_events_def ec2_orphan_def by fastforce

lemma sweep_page_logs:
  "set is \<subseteq> shown (\<lambda>q. fst q = of_controller C) es \<Longrightarrow> disciplined (ec2_orphan C known cutoff) es \<Longrightarrow>
   logs (sweep_page C A known cutoff is deleted) (\<lambda>_ es'. disciplined (ec2_orphan C known cutoff) (es' @ es))"
proof (induction "is" arbitrary: deleted es)
  case Nil
  then show ?case by (auto intro: logs_intros)
next
  case (Cons i "is")
  let ?p = "ec2_orphan C known cutoff"
  have orphan: "?p (CloudDelete n r) es"
    if "in_id i = Some n" "ec2_tag_value (in_tags i) aws_controller_tag_key = aw_controller_id C"
      "n \<notin> set known" "in_launch_time i = Some t" "t < cutoff" for n r t
    using that Cons.prems(1) by (auto simp: ec2_orphan_def)
  have again: "logs (sweep_page C A known cutoff is deleted') (\<lambda>_ es'. disciplined ?p (es' @ es))" for deleted'
    using Cons by simp
  have after: "logs (sweep_page C A known cutoff is deleted') (\<lambda>_ es'. disciplined ?p (es' @ CloudDelete n r # es))"
    if "?p (CloudDelete n r) es" for deleted' n r
    using Cons.IH [of "CloudDelete n r # es"] Cons.prems that by simp
  show ?case
    using Cons.prems(2) by (auto simp: orphan intro!: logs_intros again after split: option.split)
qed

lemma aws_sweep_loop_logs:
  "disciplined (ec2_orphan C known cutoff) es \<Longrightarrow>
   logs (aws_sweep_loop n C A known cutoff (of_controller C) token deleted)
     (\<lambda>_ es'. disciplined (ec2_orphan C known cutoff) (es' @ es))"
proof (induction n arbitrary: token deleted es)
  case 0
  then show ?case by (auto intro!: logs_intros)
next
  case (Suc n)
  let ?p = "ec2_orphan C known cutoff"
  show ?case
    unfolding aws_sweep_loop.simps describe_def
  proof (rule logs_bind_api)
    fix r :: "go_error + (ec2_instance list list \<times> string option)"
    let ?es = "described (of_controller C) token r # es"
    have quiet: "disciplined ?p ?es" using Suc.prems by simp
    have page: "logs (sweep_page C A known cutoff (concat rs) deleted) (\<lambda>_ es'. disciplined ?p (es' @ ?es))"
      if "r = Inr (rs, t)" for rs t
      by (rule sweep_page_logs) (use that quiet in \<open>simp_all add: described_def\<close>)
    have rest: "logs (aws_sweep_loop n C A known cutoff (of_controller C) t d) (\<lambda>_ es''. disciplined ?p (es'' @ es' @ ?es))"
      if "disciplined ?p (es' @ ?es)" for es' t d
      using Suc.IH [OF that] by simp
    show "logs (case r of
         Inl e \<Rightarrow> State_Monad.return
           (deleted, Some (ErrWrap ''list controller EC2 instances for orphan sweep: '' e))
       | Inr (reservations, next) \<Rightarrow> do {
           p \<leftarrow> sweep_page C A known cutoff (concat reservations) deleted;
           case p of
             (deleted, Some e) \<Rightarrow> State_Monad.return (deleted, Some e)
           | (deleted, None) \<Rightarrow>
               if \<not> next_token next then State_Monad.return (deleted, None)
               else aws_sweep_loop n C A known cutoff (of_controller C) next deleted })
        (\<lambda>_ es'. disciplined ?p ((es' @ [described (of_controller C) token r]) @ es))"
    proof (cases r)
      case (Inl e)
      with quiet show ?thesis by (auto intro!: logs_intros)
    next
      case (Inr p)
      obtain rs t where p: "p = (rs, t)" by fastforce
      show ?thesis
        using page rest Inr p
        by (auto simp del: aws_sweep_loop.simps intro!: logs_intros logs_bind [OF page] split: option.split)
    qed
  qed
qed

interpretation am: cloud_adapter "amazon L C A" "aws_permitted L C" for L C A
proof
  note unfold = amazon_def adapter.select_convs
  show "logs (ad_find (amazon L C A) key) (\<lambda>_. disciplined (aws_permitted L C (AdFind key)))" for key
    unfolding unfold by (rule logs_mono [OF aws_find_logs]) (blast intro: disciplined_harmless)
  show "logs (ad_create (amazon L C A) params) (\<lambda>_. disciplined (aws_permitted L C (AdCreate params)))" for params
    unfolding unfold by (rule aws_create_logs)
  show "logs (ad_delete (amazon L C A) n key) (\<lambda>_. disciplined (aws_permitted L C (AdDelete n key)))" for n key
    unfolding unfold by (rule aws_delete_logs)
  show "logs (ad_cleanup (amazon L C A) key) (\<lambda>_. disciplined (aws_permitted L C (AdCleanup key)))" for key
    unfolding unfold by (rule aws_cleanup_logs)
  show "logs (ad_sweep (amazon L C A) known cutoff)
      (\<lambda>_. disciplined (aws_permitted L C (AdSweep known cutoff)))" for known cutoff
    unfolding unfold aws_sweep_orphaned_runners_def filters_of
    by (rule logs_mono [OF aws_sweep_loop_logs [where es = "[]"]]) (auto elim: disciplined_mono)
qed (simp_all add: amazon_def)

end
