(* ===== verification/Cloud_GCP.thy ===== *)
theory Cloud_GCP
  imports Cloud_Contract
begin

text \<open>
  The Compute Engine adapter, \<open>internal/gcp/compute.go\<close>: one instance per job under a name that is
  a hash of the job key, its specification and request identifier, lookup, deletion and cleanup by
  that name with a check of the ownership labels, and the sweep of orphans. The SDK is a parameter.
\<close>

section \<open>The API\<close>

record gce_instance =
  ge_name :: string
  ge_labels :: "string gomap"
  ge_created :: string

text \<open>The fields of an instance specification that vary.\<close>

record gce_spec =
  gs_name :: string
  gs_machine_type :: string
  gs_labels :: "string gomap"
  gs_source_image :: string
  gs_subnetwork :: string
  gs_external_ip :: bool
  gs_service_account :: string
  gs_scopes :: "string list"
  gs_user_data :: string
  gs_spot :: bool

text \<open>
  An insertion or deletion that is accepted is an operation to wait for. The iterator of a listing
  answers with an instance, which may be nil, or with an error; \<open>Inl None\<close> is \<open>iterator.Done\<close>.
\<close>

record 'x gce_api =
  gapi_get :: "string \<Rightarrow> 'x \<Rightarrow> (go_error + gce_instance) \<times> 'x"
  gapi_insert :: "gce_spec \<Rightarrow> string \<Rightarrow> 'x \<Rightarrow> go_error option \<times> 'x"
  gapi_delete :: "string \<Rightarrow> 'x \<Rightarrow> go_error option \<times> 'x"
  gapi_wait :: "'x \<Rightarrow> go_error option \<times> 'x"
  gapi_next :: "'x \<Rightarrow> (go_error option + gce_instance option) \<times> 'x"

text \<open>
  In the log every answer of the iterator is a page: an instance or nil with more to come, or the
  end. The only listing request is that of the zone.
\<close>

type_synonym gce_event = "(string, gce_instance, gce_spec, unit) cloud_event"
type_synonym ('x, 'a) gce_call = "('x, gce_event, go_error + 'a) cloud_call"
type_synonym 'x gce_action = "('x, gce_event, go_error option) cloud_call"

text \<open>
  A gRPC status and a \<open>googleapi.Error\<close> are \<open>ErrProvider\<close> with their type and code. \<open>status.Code\<close>
  of an error without a status is \<open>Unknown\<close>, 2; \<open>NotFound\<close> is 5.
\<close>

definition provider_code :: "string \<Rightarrow> go_error \<Rightarrow> int option" where
  "provider_code kind e = errors_as (\<lambda>e. case e of
     ErrProvider k status \<Rightarrow> if k = kind then Some status else None | _ \<Rightarrow> None) e"

definition status_code :: "go_error \<Rightarrow> int" where
  "status_code e = (case provider_code ''grpc.Status'' e of Some c \<Rightarrow> c | None \<Rightarrow> 2)"

definition gcp_not_found :: "go_error \<Rightarrow> bool" where
  "gcp_not_found e = (if status_code e = 5 then True else provider_code ''googleapi.Error'' e = Some 404)"

section \<open>The client\<close>

record gcp_config =
  gf_project_id :: string
  gf_zone :: string
  gf_machine_type :: string
  gf_source_image :: string
  gf_subnetwork :: string
  gf_cloud_init_path :: string
  gf_controller_id :: string
  gf_service_account_email :: string
  gf_spot :: bool
  gf_external_ip :: bool

record gcp_client =
  gp_template :: "template option"
  gp_project_id :: string
  gp_zone :: string
  gp_machine_type :: string
  gp_source_image :: string
  gp_subnetwork :: string
  gp_service_account_email :: string
  gp_controller_hash :: string
  gp_spot :: bool
  gp_external_ip :: bool

definition short_hash :: "cloud_lib \<Rightarrow> string \<Rightarrow> string" where
  "short_hash L v = hex_encode (take 16 (lib_sha256 L v))"

text \<open>\<open>rest\<close> is \<open>gce.NewInstancesRESTClient\<close>, as far as it may fail.\<close>

definition new_gcp_client :: "cloud_lib \<Rightarrow> go_error option \<Rightarrow> gcp_config \<Rightarrow> go_error + gcp_client" where
  "new_gcp_client L rest c =
    (if gf_project_id c = '''' \<or> gf_zone c = '''' \<or> gf_machine_type c = '''' \<or> gf_source_image c = '''' \<or>
        gf_subnetwork c = '''' \<or> gf_service_account_email c = ''''
     then Inl (ErrText (''GCP project, zone, machine type, source image, subnetwork, and runner '' @
                        ''service account are required''))
     else if \<not> valid_controller_id (gf_controller_id c) then Inl bad_controller_id
     else case lib_parse_files L (gf_cloud_init_path c) of
       Inl e \<Rightarrow> Inl (ErrWrap ''parse cloud-init template: '' e)
     | Inr tmpl \<Rightarrow>
         (case rest of
            Some e \<Rightarrow> Inl (ErrWrap ''create GCP Compute client: '' e)
          | None \<Rightarrow> Inr
              \<lparr>gp_template = Some tmpl, gp_project_id = gf_project_id c, gp_zone = gf_zone c,
               gp_machine_type = gf_machine_type c, gp_source_image = gf_source_image c,
               gp_subnetwork = gf_subnetwork c, gp_service_account_email = gf_service_account_email c,
               gp_controller_hash = short_hash L (gf_controller_id c), gp_spot = gf_spot c,
               gp_external_ip = gf_external_ip c\<rparr>))"

definition gcp_controller_label :: string where
  "gcp_controller_label = ''github-runners-controller''"

definition gcp_job_label :: string where
  "gcp_job_label = ''github-runners-job''"

definition label_value :: "string gomap \<Rightarrow> string \<Rightarrow> string" where
  "label_value labels key = (case map_of labels key of Some v \<Rightarrow> v | None \<Rightarrow> '''')"

definition gcp_resource_name :: "cloud_lib \<Rightarrow> string \<Rightarrow> string" where
  "gcp_resource_name L job_key = ''ghr-'' @ short_hash L job_key"

text \<open>
  A UUID from the first 16 bytes of the hash: \<open>(b & 0x0f) | 0x40\<close> of byte 6 and
  \<open>(b & 0x3f) | 0x80\<close> of byte 8 as sums of disjoint bits.
\<close>

definition request_id :: "cloud_lib \<Rightarrow> string \<Rightarrow> int \<Rightarrow> string" where
  "request_id L job_key epoch =
    (let raw = take 16 (lib_sha256 L (''gcp:'' @ job_key @ '':'' @ itoa epoch));
         raw = raw[6 := char_of (code (raw ! 6) mod 16 + 64)];
         raw = raw[8 := char_of (code (raw ! 8) mod 64 + 128)];
         h = hex_encode raw
     in take 8 h @ ''-'' @ take 4 (drop 8 h) @ ''-'' @ take 4 (drop 12 h) @ ''-'' @
        take 4 (drop 16 h) @ ''-'' @ drop 20 h)"

definition gcp_owned :: "cloud_lib \<Rightarrow> gcp_client \<Rightarrow> string \<Rightarrow> gce_instance \<Rightarrow> bool" where
  "gcp_owned L C job_key i \<longleftrightarrow>
    label_value (ge_labels i) gcp_controller_label = gp_controller_hash C \<and>
    label_value (ge_labels i) gcp_job_label = short_hash L job_key"

section \<open>Lookup\<close>

definition gcp_find_runner ::
    "cloud_lib \<Rightarrow> gcp_client \<Rightarrow> 'x gce_api \<Rightarrow> string \<Rightarrow> ('x, runner_instance option) gce_call" where
  "gcp_find_runner L C A job_key =
    (let name = gcp_resource_name L job_key in do {
       r \<leftarrow> api (gapi_get A name) (CloudGet name);
       case r of
         Inl e \<Rightarrow> if gcp_not_found e then ok None else fail (ErrWrap ''find GCP runner: '' e)
       | Inr i \<Rightarrow>
           if \<not> gcp_owned L C job_key i
           then fail (failed ErrOwnershipMismatch
             (''GCP instance '' @ name @ '' exists without expected ownership labels''))
           else ok (Some \<lparr>ri_id = name, ri_name = name\<rparr>) })"

text \<open>The wrapper around the iterator of the SDK collects all instances.\<close>

definition iterated :: "go_error option + gce_instance option \<Rightarrow> gce_event" where
  "iterated r = CloudList () (case r of
     Inl (Some e) \<Rightarrow> Inl e | Inl None \<Rightarrow> Inr ([], None) | Inr i \<Rightarrow> Inr (List.map_filter id [i], Some ()))"

fun gce_list_loop ::
    "nat \<Rightarrow> 'x gce_api \<Rightarrow> gce_instance option list \<Rightarrow> ('x, gce_instance option list) gce_call" where
  "gce_list_loop 0 A instances = fail ErrDeadlineExceeded"
| "gce_list_loop (Suc n) A instances = do {
     r \<leftarrow> api (gapi_next A) iterated;
     case r of
       Inl None \<Rightarrow> ok instances
     | Inl (Some e) \<Rightarrow> fail e
     | Inr i \<Rightarrow> gce_list_loop n A (instances @ [i]) }"

section \<open>Creation\<close>

definition instance_spec :: "cloud_lib \<Rightarrow> gcp_client \<Rightarrow> string \<Rightarrow> string \<Rightarrow> gce_spec" where
  "instance_spec L C job_key user_data =
    \<lparr>gs_name = gcp_resource_name L job_key,
     gs_machine_type = ''zones/'' @ gp_zone C @ ''/machineTypes/'' @ gp_machine_type C,
     gs_labels = [(gcp_controller_label, gp_controller_hash C), (gcp_job_label, short_hash L job_key)],
     gs_source_image = gp_source_image C, gs_subnetwork = gp_subnetwork C,
     gs_external_ip = gp_external_ip C, gs_service_account = gp_service_account_email C,
     gs_scopes = [''https://www.googleapis.com/auth/userinfo.email''],
     gs_user_data = user_data, gs_spot = gp_spot C\<rparr>"

definition gcp_create_runner ::
    "cloud_lib \<Rightarrow> gcp_client \<Rightarrow> 'x gce_api \<Rightarrow> runner_params \<Rightarrow> ('x, runner_instance) gce_call" where
  "gcp_create_runner L C A params =
    check id (gcp_find_runner L C A (p_job_key params)) (\<lambda>existing.
      case existing of
        Some i \<Rightarrow> ok i
      | None \<Rightarrow>
          (case render_cloud_init (gp_template C) params of
             Inl e \<Rightarrow> fail e
           | Inr user_data \<Rightarrow> do {
               let name = gcp_resource_name L (p_job_key params);
               let spec = instance_spec L C (p_job_key params) user_data;
               r \<leftarrow> api (gapi_insert A spec (request_id L (p_job_key params) (p_provision_epoch params)))
                        (CloudCreate spec);
               case r of
                 Some e \<Rightarrow> fail (ErrWrap ''create GCP runner: '' e)
               | None \<Rightarrow> do {
                   w \<leftarrow> quiet_api (gapi_wait A);
                   case w of
                     Some e \<Rightarrow> fail (ErrWrap ''wait for GCP runner creation: '' e)
                   | None \<Rightarrow> ok \<lparr>ri_id = name, ri_name = name\<rparr> } }))"

section \<open>Deletion\<close>

definition gcp_delete_runner ::
    "cloud_lib \<Rightarrow> gcp_client \<Rightarrow> 'x gce_api \<Rightarrow> string \<Rightarrow> string \<Rightarrow> 'x gce_action" where
  "gcp_delete_runner L C A n job_key = do {
     r \<leftarrow> api (gapi_get A n) (CloudGet n);
     case r of
       Inl e \<Rightarrow> if gcp_not_found e then done_ok
                else give_up (ErrWrap (''get GCP runner '' @ n @ '' before delete: '') e)
     | Inr i \<Rightarrow>
         if \<not> gcp_owned L C job_key i
         then give_up (failed ErrOwnershipMismatch
           (''refusing to delete GCP instance '' @ n @ '' without controller and job ownership labels''))
         else do {
           e \<leftarrow> api (gapi_delete A n) (CloudDelete n);
           case e of
             Some e \<Rightarrow> if gcp_not_found e then done_ok
                       else give_up (ErrWrap (''delete owned GCP runner '' @ n @ '': '') e)
           | None \<Rightarrow> do {
               w \<leftarrow> quiet_api (gapi_wait A);
               case w of
                 None \<Rightarrow> done_ok
               | Some e \<Rightarrow> if status_code e \<noteq> 5
                           then give_up (ErrWrap ''wait for GCP runner deletion: '' e)
                           else done_ok } } }"

definition gcp_cleanup_runner ::
    "cloud_lib \<Rightarrow> gcp_client \<Rightarrow> 'x gce_api \<Rightarrow> string \<Rightarrow> 'x gce_action" where
  "gcp_cleanup_runner L C A job_key =
    try_call id (gcp_find_runner L C A job_key) (\<lambda>found.
      case found of None \<Rightarrow> done_ok | Some i \<Rightarrow> gcp_delete_runner L C A (ri_id i) job_key)"

section \<open>Orphans\<close>

text \<open>An instance whose creation time cannot be read is kept, and reported at the end.\<close>

fun gcp_sweep_loop ::
    "cloud_lib \<Rightarrow> gcp_client \<Rightarrow> 'x gce_api \<Rightarrow> string list \<Rightarrow> time \<Rightarrow> gce_instance option list \<Rightarrow> int \<Rightarrow>
     go_error list \<Rightarrow> ('x, gce_event, int \<times> go_error option) cloud_call" where
  "gcp_sweep_loop L C A known cutoff [] deleted parse_errs =
     State_Monad.return (deleted, if length parse_errs > 0 then errors_join (map Some parse_errs) else None)"
| "gcp_sweep_loop L C A known cutoff (None # is) deleted parse_errs =
     gcp_sweep_loop L C A known cutoff is deleted parse_errs"
| "gcp_sweep_loop L C A known cutoff (Some i # is) deleted parse_errs =
    (if label_value (ge_labels i) gcp_controller_label \<noteq> gp_controller_hash C
     then gcp_sweep_loop L C A known cutoff is deleted parse_errs
     else if ge_name i \<in> set known then gcp_sweep_loop L C A known cutoff is deleted parse_errs
     else case lib_rfc3339 L (ge_created i) of
       Inl e \<Rightarrow> gcp_sweep_loop L C A known cutoff is deleted (parse_errs @
         [ErrWrap (''parse creation time for controller GCP instance '' @ ge_name i @ '': '') e])
     | Inr created \<Rightarrow>
         if \<not> created < cutoff then gcp_sweep_loop L C A known cutoff is deleted parse_errs
         else do {
           e \<leftarrow> api (gapi_delete A (ge_name i)) (CloudDelete (ge_name i));
           case e of
             Some e \<Rightarrow>
               if gcp_not_found e then gcp_sweep_loop L C A known cutoff is deleted parse_errs
               else State_Monad.return (deleted, Some (ErrWrap
                 (''delete orphaned controller GCP instance '' @ ge_name i @ '': '') e))
           | None \<Rightarrow> do {
               w \<leftarrow> quiet_api (gapi_wait A);
               (case w of
                  Some e \<Rightarrow>
                    if status_code e \<noteq> 5
                    then State_Monad.return (deleted, Some (ErrWrap
                      ''wait for orphaned GCP instance deletion: '' e))
                    else gcp_sweep_loop L C A known cutoff is (deleted + 1) parse_errs
                | None \<Rightarrow> gcp_sweep_loop L C A known cutoff is (deleted + 1) parse_errs) } })"

definition gcp_sweep_orphaned_runners ::
    "cloud_lib \<Rightarrow> gcp_client \<Rightarrow> 'x gce_api \<Rightarrow> string list \<Rightarrow> time \<Rightarrow>
     ('x, gce_event, int \<times> go_error option) cloud_call" where
  "gcp_sweep_orphaned_runners L C A known cutoff = do {
     r \<leftarrow> gce_list_loop (lib_budget L) A [];
     case r of
       Inl e \<Rightarrow> State_Monad.return (0, Some (ErrWrap ''list GCP instances for orphan sweep: '' e))
     | Inr instances \<Rightarrow> gcp_sweep_loop L C A known cutoff instances 0 [] }"

section \<open>The contract\<close>

definition google :: "cloud_lib \<Rightarrow> gcp_client \<Rightarrow> 'x gce_api \<Rightarrow> ('x, gce_event) adapter" where
  "google L C A =
    \<lparr>ad_find = gcp_find_runner L C A, ad_create = gcp_create_runner L C A, ad_delete = gcp_delete_runner L C A,
     ad_cleanup = gcp_cleanup_runner L C A, ad_sweep = gcp_sweep_orphaned_runners L C A,
     ad_absent = None, ad_cleanup_except = None\<rparr>"

definition gcp_checked :: "cloud_lib \<Rightarrow> gcp_client \<Rightarrow> string \<Rightarrow> string \<Rightarrow> gce_event \<Rightarrow> gce_event list \<Rightarrow> bool" where
  "gcp_checked L C n key e es \<longleftrightarrow>
    (\<exists>r i rest. e = CloudDelete n r \<and> es = CloudGet n (Inr i) # rest \<and> gcp_owned L C key i)"

definition gce_orphan :: "cloud_lib \<Rightarrow> gcp_client \<Rightarrow> string list \<Rightarrow> time \<Rightarrow> gce_event \<Rightarrow> gce_event list \<Rightarrow> bool" where
  "gce_orphan L C known cutoff e es \<longleftrightarrow>
    (\<exists>deletions pages is i r t. es = deletions @ pages \<and> listed () pages is \<and> i \<in> set is \<and>
       e = CloudDelete (ge_name i) r \<and>
       label_value (ge_labels i) gcp_controller_label = gp_controller_hash C \<and>
       ge_name i \<notin> set known \<and> lib_rfc3339 L (ge_created i) = Inr t \<and> t < cutoff)"

fun gcp_permitted :: "cloud_lib \<Rightarrow> gcp_client \<Rightarrow> adapter_op \<Rightarrow> gce_event \<Rightarrow> gce_event list \<Rightarrow> bool" where
  "gcp_permitted L C (AdCreate params) e es \<longleftrightarrow>
    (\<exists>spec r err. e = CloudCreate spec r \<and> gs_name spec = gcp_resource_name L (p_job_key params) \<and>
       label_value (gs_labels spec) gcp_controller_label = gp_controller_hash C \<and>
       label_value (gs_labels spec) gcp_job_label = short_hash L (p_job_key params) \<and>
       es = [CloudGet (gs_name spec) (Inl err)] \<and> gcp_not_found err)"
| "gcp_permitted L C (AdDelete n key) e es \<longleftrightarrow> gcp_checked L C n key e es"
| "gcp_permitted L C (AdCleanup key) e es \<longleftrightarrow> gcp_checked L C (gcp_resource_name L key) key e es"
| "gcp_permitted L C (AdSweep known cutoff) e es \<longleftrightarrow> gce_orphan L C known cutoff e es"
| "gcp_permitted L C op e es \<longleftrightarrow> False"

lemma gcp_checked_older: "older_events (gcp_checked L C n key)"
  unfolding older_events_def gcp_checked_def by fastforce

definition name_looked_up :: "cloud_lib \<Rightarrow> string \<Rightarrow> go_error + runner_instance option \<Rightarrow> gce_event list \<Rightarrow> bool" where
  "name_looked_up L key r es \<longleftrightarrow> harmless_events es \<and>
    (r = Inr None \<longrightarrow> (\<exists>err. es = [CloudGet (gcp_resource_name L key) (Inl err)] \<and> gcp_not_found err)) \<and>
    (\<forall>i. r = Inr (Some i) \<longrightarrow> ri_id i = gcp_resource_name L key)"

lemma gcp_find_logs: "logs (gcp_find_runner L C A key) (name_looked_up L key)"
  unfolding gcp_find_runner_def Let_def
  by (auto simp: name_looked_up_def split: sum.split intro!: logs_intros)

lemma gcp_create_logs: "logs (gcp_create_runner L C A params) (\<lambda>_. disciplined (gcp_permitted L C (AdCreate params)))"
  unfolding gcp_create_runner_def
  by (rule logs_check [OF gcp_find_logs])
    (auto simp: Let_def name_looked_up_def instance_spec_def label_value_def gcp_controller_label_def gcp_job_label_def
      disciplined_harmless split: option.split sum.split intro!: logs_intros)

lemma gcp_delete_logs:
  "logs (gcp_delete_runner L C A n key) (\<lambda>_. disciplined (gcp_permitted L C (AdDelete n key)))"
  unfolding gcp_delete_runner_def
  by (auto simp: gcp_checked_def intro!: logs_intros split: sum.split option.split)

lemma gcp_cleanup_logs:
  "logs (gcp_cleanup_runner L C A key) (\<lambda>_. disciplined (gcp_permitted L C (AdCleanup key)))"
proof -
  let ?p = "gcp_permitted L C (AdCleanup key)"
  have older: "older_events ?p"
    using gcp_checked_older by (simp add: older_events_def)
  have delete: "logs (gcp_delete_runner L C A (gcp_resource_name L key) key) (\<lambda>_. disciplined ?p)"
    by (rule logs_mono [OF gcp_delete_logs]) (erule disciplined_mono, simp)
  show ?thesis
    unfolding gcp_cleanup_runner_def
    by (rule logs_try_call [OF gcp_find_logs])
      (auto simp: name_looked_up_def split: option.split
        intro!: logs_intros disciplined_harmless logs_after_reads [OF delete older])
qed

definition zone_listed :: "gce_instance option list \<Rightarrow> go_error + gce_instance option list \<Rightarrow> gce_event list \<Rightarrow> bool" where
  "zone_listed acc r es \<longleftrightarrow> harmless_events es \<and>
    (\<forall>all. r = Inr all \<longrightarrow> (\<exists>rest. all = acc @ rest \<and> listed () es (List.map_filter id rest)))"

lemma iterated_reads [simp]: "\<not> mutation (iterated r)"
  by (simp add: iterated_def)

lemma gce_list_logs: "logs (gce_list_loop n A acc) (zone_listed acc)"
proof (induction n arbitrary: acc)
  case 0
  then show ?case by (auto simp: zone_listed_def intro!: logs_intros)
next
  case (Suc n)
  have step: "zone_listed acc r (es @ [iterated (Inr i)])" if *: "zone_listed (acc @ [i]) r es" for i r es
    unfolding zone_listed_def
  proof (intro conjI allI impI)
    show "harmless_events (es @ [iterated (Inr i)])" using * by (simp add: zone_listed_def)
    fix all assume "r = Inr all"
    with * obtain rest where "all = (acc @ [i]) @ rest" "listed () es (List.map_filter id rest)"
      unfolding zone_listed_def by blast
    then show "\<exists>rest. all = acc @ rest \<and> listed () (es @ [iterated (Inr i)]) (List.map_filter id rest)"
      by (intro exI [where x = "i # rest"]) (auto simp: iterated_def List.map_filter_def)
  qed
  show ?case
    unfolding gce_list_loop.simps
  proof (rule logs_bind_api)
    fix r :: "go_error option + gce_instance option"
    show "logs (case r of
         Inl None \<Rightarrow> ok acc
       | Inl (Some e) \<Rightarrow> fail e
       | Inr i \<Rightarrow> gce_list_loop n A (acc @ [i]))
        (\<lambda>q es. zone_listed acc q (es @ [iterated r]))"
    proof (cases r)
      case (Inl e)
      then show ?thesis
        by (cases e) (auto simp: zone_listed_def iterated_def List.map_filter_def intro!: logs_intros)
    next
      case (Inr i)
      have "logs (gce_list_loop n A (acc @ [i])) (\<lambda>q es. zone_listed acc q (es @ [iterated (Inr i)]))"
        by (rule logs_mono [OF Suc.IH step])
      with Inr show ?thesis by simp
    qed
  qed
qed

text \<open>The sweep deletes only instances among those it has listed.\<close>

definition gce_orphan_of ::
    "cloud_lib \<Rightarrow> gcp_client \<Rightarrow> string list \<Rightarrow> time \<Rightarrow> gce_instance option list \<Rightarrow> gce_event \<Rightarrow> bool" where
  "gce_orphan_of L C known cutoff all e \<longleftrightarrow>
    (\<exists>i r t. Some i \<in> set all \<and> e = CloudDelete (ge_name i) r \<and>
       label_value (ge_labels i) gcp_controller_label = gp_controller_hash C \<and>
       ge_name i \<notin> set known \<and> lib_rfc3339 L (ge_created i) = Inr t \<and> t < cutoff)"

lemma gcp_sweep_loop_logs:
  "set is \<subseteq> set all \<Longrightarrow>
   logs (gcp_sweep_loop L C A known cutoff is deleted parse_errs) (\<lambda>_. list_all (gce_orphan_of L C known cutoff all))"
proof (induction "is" arbitrary: deleted parse_errs)
  case Nil
  then show ?case by (auto intro!: logs_intros)
next
  case (Cons io "is")
  note IH = Cons.IH [OF subset_trans [OF set_subset_Cons Cons.prems]]
  show ?case
  proof (cases io)
    case None
    with IH show ?thesis by simp
  next
    case (Some i)
    have orphan: "gce_orphan_of L C known cutoff all (CloudDelete (ge_name i) r)"
      if "label_value (ge_labels i) gcp_controller_label = gp_controller_hash C"
        "ge_name i \<notin> set known" "lib_rfc3339 L (ge_created i) = Inr t" "t < cutoff" for r t
      using that Cons.prems Some by (auto simp: gce_orphan_of_def)
    show ?thesis
      by (auto simp: Some orphan intro!: logs_intros IH split: option.split sum.split)
  qed
qed

lemma gcp_sweep_logs:
  "logs (gcp_sweep_orphaned_runners L C A known cutoff) (\<lambda>_. disciplined (gcp_permitted L C (AdSweep known cutoff)))"
proof -
  let ?p = "gcp_permitted L C (AdSweep known cutoff)"
  have sweep: "logs (gcp_sweep_loop L C A known cutoff all d ps) (\<lambda>_ es'. disciplined ?p (es' @ es))"
    if *: "zone_listed [] (Inr all) es" for all d ps es
  proof -
    from * have es: "listed () es (List.map_filter id all)" "disciplined ?p es"
      by (auto simp: zone_listed_def intro: disciplined_harmless)
    have "?p e (es' @ es)" if "gce_orphan_of L C known cutoff all e" for e es'
    proof -
      from that obtain i r t where "Some i \<in> set all" "e = CloudDelete (ge_name i) r"
          "label_value (ge_labels i) gcp_controller_label = gp_controller_hash C"
          "ge_name i \<notin> set known" "lib_rfc3339 L (ge_created i) = Inr t" "t < cutoff"
        unfolding gce_orphan_of_def by blast
      moreover from this(1) have "i \<in> set (List.map_filter id all)"
        by (force simp: List.map_filter_def)
      ultimately show ?thesis using es(1) unfolding gcp_permitted.simps gce_orphan_def by blast
    qed
    then show ?thesis
      by (intro logs_mono [OF gcp_sweep_loop_logs [OF subset_refl]]) (erule disciplined_list_all, simp_all add: es)
  qed
  show ?thesis
    unfolding gcp_sweep_orphaned_runners_def
    by (rule logs_bind [OF gce_list_logs])
      (auto simp: zone_listed_def intro!: logs_intros disciplined_harmless sweep split: sum.split)
qed

interpretation gc: cloud_adapter "google L C A" "gcp_permitted L C" for L C A
proof
  note unfold = google_def adapter.select_convs
  show "logs (ad_find (google L C A) key) (\<lambda>_. disciplined (gcp_permitted L C (AdFind key)))" for key
    unfolding unfold by (rule logs_mono [OF gcp_find_logs]) (auto simp: name_looked_up_def intro: disciplined_harmless)
  show "logs (ad_create (google L C A) params) (\<lambda>_. disciplined (gcp_permitted L C (AdCreate params)))" for params
    unfolding unfold by (rule gcp_create_logs)
  show "logs (ad_delete (google L C A) n key) (\<lambda>_. disciplined (gcp_permitted L C (AdDelete n key)))" for n key
    unfolding unfold by (rule gcp_delete_logs)
  show "logs (ad_cleanup (google L C A) key) (\<lambda>_. disciplined (gcp_permitted L C (AdCleanup key)))" for key
    unfolding unfold by (rule gcp_cleanup_logs)
  show "logs (ad_sweep (google L C A) known cutoff)
      (\<lambda>_. disciplined (gcp_permitted L C (AdSweep known cutoff)))" for known cutoff
    unfolding unfold by (rule gcp_sweep_logs)
qed (simp_all add: google_def)

end
