(* ===== verification/Cloud_Azure.thy ===== *)
theory Cloud_Azure
  imports Cloud_Contract
begin

text \<open>
  The Azure adapter, \<open>internal/azure/compute.go\<close>: a virtual machine and a network interface per job
  under names derived from a hash of the job key. Creation makes the interface first and removes it
  when the machine fails; deletion checks the ownership tags of both; the sweep reclaims machines
  and then interfaces that belong to none. The SDK is a parameter.
\<close>

section \<open>The API\<close>

text \<open>Tags are a map to string pointers. \<open>nic_attached\<close> is whether the interface has a machine.\<close>

type_synonym azure_tags = "string option gomap"

record azure_vm =
  vm_name :: "string option"
  vm_tags :: azure_tags
  vm_created :: "time option"

record azure_nic =
  nic_name :: "string option"
  nic_id :: "string option"
  nic_tags :: azure_tags
  nic_attached :: bool

datatype azure_resource = VmResource azure_vm | NicResource azure_nic

datatype azure_id = VmId string | NicId string

text \<open>The fields of the specifications that vary.\<close>

record vm_spec =
  vs_name :: string
  vs_location :: string
  vs_tags :: azure_tags
  vs_size :: string
  vs_image :: "string list"
  vs_admin_username :: string
  vs_custom_data :: string
  vs_ssh_path :: string
  vs_ssh_key :: string
  vs_nic_id :: string
  vs_spot :: bool

record nic_spec =
  ns_name :: string
  ns_location :: string
  ns_tags :: azure_tags
  ns_subnet :: string

datatype azure_spec = VmSpec vm_spec | NicSpec nic_spec

text \<open>
  A listing is asked by page and answers with pointers and whether the pager has more. An accepted
  creation or deletion is an operation to wait for; the one of an interface yields the interface.
\<close>

record 'x azure_api =
  aapi_now :: "'x \<Rightarrow> time \<times> 'x"
  aapi_vm_get :: "string \<Rightarrow> 'x \<Rightarrow> (go_error + azure_vm) \<times> 'x"
  aapi_vm_list :: "nat \<Rightarrow> 'x \<Rightarrow> (go_error + (azure_vm option list \<times> bool)) \<times> 'x"
  aapi_vm_create :: "vm_spec \<Rightarrow> 'x \<Rightarrow> go_error option \<times> 'x"
  aapi_vm_delete :: "string \<Rightarrow> 'x \<Rightarrow> go_error option \<times> 'x"
  aapi_nic_get :: "call_ctx \<Rightarrow> string \<Rightarrow> 'x \<Rightarrow> (go_error + azure_nic) \<times> 'x"
  aapi_nic_list :: "nat \<Rightarrow> 'x \<Rightarrow> (go_error + (azure_nic option list \<times> bool)) \<times> 'x"
  aapi_nic_create :: "nic_spec \<Rightarrow> 'x \<Rightarrow> go_error option \<times> 'x"
  aapi_nic_delete :: "call_ctx \<Rightarrow> string \<Rightarrow> 'x \<Rightarrow> go_error option \<times> 'x"
  aapi_wait :: "call_ctx \<Rightarrow> 'x \<Rightarrow> go_error option \<times> 'x"
  aapi_wait_nic :: "'x \<Rightarrow> (go_error + azure_nic) \<times> 'x"

text \<open>The listing requests: a page of the machines, a page of the interfaces of the resource group.\<close>

datatype azure_query = VmPage nat | NicPage nat

type_synonym azure_event = "(azure_id, azure_resource, azure_spec, azure_query) cloud_event"
type_synonym ('x, 'a) azure_call = "('x, azure_event, go_error + 'a) cloud_call"
type_synonym 'x azure_action = "('x, azure_event, go_error option) cloud_call"

text \<open>An \<open>azcore.ResponseError\<close> is \<open>ErrProvider\<close> with its type and status.\<close>

definition azure_not_found :: "go_error \<Rightarrow> bool" where
  "azure_not_found e \<longleftrightarrow>
    errors_as (\<lambda>e. case e of
      ErrProvider kind status \<Rightarrow> if kind = ''azcore.ResponseError'' then Some status else None
    | _ \<Rightarrow> None) e = Some 404"

definition azure_tag_value :: "azure_tags \<Rightarrow> string \<Rightarrow> string" where
  "azure_tag_value tags key = (case map_of tags key of Some (Some v) \<Rightarrow> v | _ \<Rightarrow> '''')"

section \<open>The client\<close>

record azure_config =
  az_subscription_id :: string
  az_resource_group :: string
  az_location :: string
  az_vm_size :: string
  az_image :: string
  az_subnet_id :: string
  az_admin_username :: string
  az_ssh_public_key :: string
  az_cloud_init_path :: string
  az_controller_id :: string
  az_spot :: bool

record azure_client =
  ax_template :: "template option"
  ax_resource_group :: string
  ax_location :: string
  ax_vm_size :: string
  ax_image :: "string list"
  ax_subnet_id :: string
  ax_admin_username :: string
  ax_ssh_public_key :: string
  ax_controller_id :: string
  ax_spot :: bool

definition slices_contain_empty :: "string list \<Rightarrow> bool" where
  "slices_contain_empty values = list_ex (\<lambda>v. trim_space v = '''') values"

text \<open>\<open>sdk\<close> is the first error of the three SDK constructors, with its prefix.\<close>

definition new_azure_client :: "cloud_lib \<Rightarrow> (string \<times> go_error) option \<Rightarrow> azure_config \<Rightarrow> go_error + azure_client" where
  "new_azure_client L sdk c =
    (if az_subscription_id c = '''' \<or> az_resource_group c = '''' \<or> az_location c = '''' \<or>
        az_vm_size c = '''' \<or> az_subnet_id c = '''' \<or> az_admin_username c = '''' \<or> az_ssh_public_key c = ''''
     then Inl (ErrText (''azure subscription, resource group, location, VM size, subnet, admin '' @
                        ''username, and SSH public key are required''))
     else if \<not> valid_controller_id (az_controller_id c) then Inl bad_controller_id
     else
       let parts = split_on (CHR '':'') (az_image c) in
       if length parts \<noteq> 4 \<or> slices_contain_empty parts \<or> equal_fold (parts ! 3) ''latest''
       then Inl (ErrText ''azure image must be a pinned publisher:offer:sku:version value'')
       else case lib_parse_files L (az_cloud_init_path c) of
         Inl e \<Rightarrow> Inl (ErrWrap ''parse cloud-init template: '' e)
       | Inr tmpl \<Rightarrow>
           (case sdk of
              Some (prefix, e) \<Rightarrow> Inl (ErrWrap prefix e)
            | None \<Rightarrow> Inr
                \<lparr>ax_template = Some tmpl, ax_resource_group = az_resource_group c,
                 ax_location = az_location c, ax_vm_size = az_vm_size c, ax_image = parts,
                 ax_subnet_id = az_subnet_id c, ax_admin_username = az_admin_username c,
                 ax_ssh_public_key = az_ssh_public_key c, ax_controller_id = az_controller_id c,
                 ax_spot = az_spot c\<rparr>))"

definition azure_controller_tag :: string where
  "azure_controller_tag = ''github-runners-controller''"

definition azure_job_tag_key :: string where
  "azure_job_tag_key = ''github-runners-job''"

definition azure_created_tag :: string where
  "azure_created_tag = ''github-runners-created''"

definition job_hash :: "cloud_lib \<Rightarrow> string \<Rightarrow> string" where
  "job_hash L v = hex_encode (take 16 (lib_sha256 L v))"

definition azure_resource_name :: "cloud_lib \<Rightarrow> string \<Rightarrow> string" where
  "azure_resource_name L job_key = ''ghr-'' @ job_hash L job_key"

definition ownership_tags :: "cloud_lib \<Rightarrow> azure_client \<Rightarrow> string \<Rightarrow> azure_tags" where
  "ownership_tags L C job_key =
    [(azure_controller_tag, Some (ax_controller_id C)), (azure_job_tag_key, Some (job_hash L job_key))]"

definition azure_owned :: "cloud_lib \<Rightarrow> azure_client \<Rightarrow> string \<Rightarrow> azure_tags \<Rightarrow> bool" where
  "azure_owned L C job_key tags \<longleftrightarrow>
    azure_tag_value tags azure_controller_tag = ax_controller_id C \<and>
    azure_tag_value tags azure_job_tag_key = job_hash L job_key"

definition validate_ownership :: "string \<Rightarrow> string \<Rightarrow> bool \<Rightarrow> go_error option" where
  "validate_ownership resource_type name owned =
    (if owned then None
     else Some (failed ErrOwnershipMismatch
       (resource_type @ '' '' @ name @ '' exists without expected ownership tags'')))"

text \<open>The name of the interface of a machine.\<close>

definition nic_of :: "string \<Rightarrow> string" where
  "nic_of name = name @ ''-nic''"

definition get_vm :: "'x azure_api \<Rightarrow> string \<Rightarrow> ('x, azure_vm) azure_call" where
  "get_vm A name = api (aapi_vm_get A name) (\<lambda>r. CloudGet (VmId name) (map_sum id VmResource r))"

definition get_nic :: "'x azure_api \<Rightarrow> call_ctx \<Rightarrow> string \<Rightarrow> ('x, azure_nic) azure_call" where
  "get_nic A ctx name = api (aapi_nic_get A ctx name) (\<lambda>r. CloudGet (NicId name) (map_sum id NicResource r))"

section \<open>Lookup\<close>

definition azure_find_runner ::
    "cloud_lib \<Rightarrow> azure_client \<Rightarrow> 'x azure_api \<Rightarrow> string \<Rightarrow> ('x, runner_instance option) azure_call" where
  "azure_find_runner L C A job_key =
    (let name = azure_resource_name L job_key in do {
       r \<leftarrow> get_vm A name;
       case r of
         Inl e \<Rightarrow> if azure_not_found e then ok None else fail (ErrWrap ''find Azure runner: '' e)
       | Inr vm \<Rightarrow>
           (case validate_ownership ''azure VM'' name (azure_owned L C job_key (vm_tags vm)) of
              Some e \<Rightarrow> fail e
            | None \<Rightarrow> ok (Some \<lparr>ri_id = name, ri_name = name\<rparr>)) })"

section \<open>Deletion\<close>

definition delete_nic ::
    "cloud_lib \<Rightarrow> azure_client \<Rightarrow> 'x azure_api \<Rightarrow> call_ctx \<Rightarrow> string \<Rightarrow> string \<Rightarrow> 'x azure_action" where
  "delete_nic L C A ctx name job_key = do {
     r \<leftarrow> get_nic A ctx name;
     case r of
       Inl e \<Rightarrow> if azure_not_found e then done_ok
                else give_up (ErrWrap (''get Azure runner NIC '' @ name @ '' before delete: '') e)
     | Inr nic \<Rightarrow>
         if \<not> azure_owned L C job_key (nic_tags nic)
         then give_up (failed ErrOwnershipMismatch
           (''refusing to delete NIC '' @ name @ '' without controller and job ownership tags''))
         else do {
           e \<leftarrow> api (aapi_nic_delete A ctx name) (CloudDelete (NicId name));
           case e of
             Some e \<Rightarrow> if azure_not_found e then done_ok
                       else give_up (ErrWrap (''delete owned Azure runner NIC '' @ name @ '': '') e)
           | None \<Rightarrow> do {
               w \<leftarrow> quiet_api (aapi_wait A ctx);
               case w of
                 None \<Rightarrow> done_ok
               | Some e \<Rightarrow> if azure_not_found e then done_ok
                           else give_up (ErrWrap ''wait for Azure runner NIC deletion: '' e) } } }"

text \<open>The part of \<open>DeleteRunner\<close> for a machine that was found.\<close>

definition delete_vm ::
    "cloud_lib \<Rightarrow> azure_client \<Rightarrow> 'x azure_api \<Rightarrow> string \<Rightarrow> string \<Rightarrow> azure_vm \<Rightarrow> 'x azure_action" where
  "delete_vm L C A n job_key vm =
    (if \<not> azure_owned L C job_key (vm_tags vm)
     then give_up (failed ErrOwnershipMismatch
       (''refusing to delete VM '' @ n @ '' without controller and job ownership tags''))
     else do {
       e \<leftarrow> api (aapi_vm_delete A n) (CloudDelete (VmId n));
       case e of
         Some e \<Rightarrow> if azure_not_found e then done_ok
                   else give_up (ErrWrap (''delete owned Azure runner '' @ n @ '': '') e)
       | None \<Rightarrow> do {
           w \<leftarrow> quiet_api (aapi_wait A CallerCtx);
           case w of
             None \<Rightarrow> done_ok
           | Some e \<Rightarrow> if azure_not_found e then done_ok
                       else give_up (ErrWrap ''wait for Azure runner deletion: '' e) } })"

definition azure_delete_runner ::
    "cloud_lib \<Rightarrow> azure_client \<Rightarrow> 'x azure_api \<Rightarrow> string \<Rightarrow> string \<Rightarrow> 'x azure_action" where
  "azure_delete_runner L C A n job_key = do {
     r \<leftarrow> get_vm A n;
     e \<leftarrow> (case r of
            Inl e \<Rightarrow> if azure_not_found e then done_ok
                     else give_up (ErrWrap (''get Azure runner '' @ n @ '' before delete: '') e)
          | Inr vm \<Rightarrow> delete_vm L C A n job_key vm);
     case e of
       Some e \<Rightarrow> give_up e
     | None \<Rightarrow> delete_nic L C A CallerCtx (nic_of n) job_key }"

definition azure_cleanup_runner ::
    "cloud_lib \<Rightarrow> azure_client \<Rightarrow> 'x azure_api \<Rightarrow> string \<Rightarrow> 'x azure_action" where
  "azure_cleanup_runner L C A job_key = azure_delete_runner L C A (azure_resource_name L job_key) job_key"

section \<open>Creation\<close>

text \<open>\<open>Format(time.RFC3339Nano)\<close>: the fraction of the second without trailing zeros.\<close>

definition format_rfc3339_nano :: "time \<Rightarrow> string" where
  "format_rfc3339_nano t =
    (let fraction = rev (dropWhile (\<lambda>c. c = CHR ''0'') (rev (pad 9 (t mod second)))) in
     butlast (format_rfc3339 t) @ (if fraction = '''' then '''' else ''.'' @ fraction) @ ''Z'')"

definition nic_create_spec :: "cloud_lib \<Rightarrow> azure_client \<Rightarrow> string \<Rightarrow> string \<Rightarrow> time \<Rightarrow> nic_spec" where
  "nic_create_spec L C name job_key now =
    \<lparr>ns_name = name, ns_location = ax_location C,
     ns_tags = AList.update azure_created_tag (Some (format_rfc3339_nano now)) (ownership_tags L C job_key),
     ns_subnet = ax_subnet_id C\<rparr>"

text \<open>An interface that exists is reused if it belongs to the controller and has an identifier.\<close>

definition ensure_nic ::
    "cloud_lib \<Rightarrow> azure_client \<Rightarrow> 'x azure_api \<Rightarrow> string \<Rightarrow> string \<Rightarrow> ('x, string) azure_call" where
  "ensure_nic L C A machine job_key =
    (let name = nic_of machine in do {
       r \<leftarrow> get_nic A CallerCtx name;
       case r of
         Inr nic \<Rightarrow>
           (case validate_ownership ''azure NIC'' name
               (azure_tag_value (nic_tags nic) azure_controller_tag = ax_controller_id C \<and> nic_id nic \<noteq> None) of
              Some e \<Rightarrow> fail e
            | None \<Rightarrow> ok (the (nic_id nic)))
       | Inl e \<Rightarrow>
           if \<not> azure_not_found e then fail (ErrWrap ''find Azure runner NIC: '' e)
           else do {
             now \<leftarrow> quiet_api (aapi_now A);
             let spec = nic_create_spec L C name job_key now;
             c \<leftarrow> api (aapi_nic_create A spec) (CloudCreate (NicSpec spec));
             case c of
               Some e \<Rightarrow> fail (ErrWrap ''create Azure runner NIC: '' e)
             | None \<Rightarrow>
                 check (ErrWrap ''wait for Azure runner NIC creation: '') (quiet_api (aapi_wait_nic A))
                   (\<lambda>created. case nic_id created of
                      None \<Rightarrow> fail (ErrText ''create Azure runner NIC: API returned no resource ID'')
                    | Some i \<Rightarrow> ok i) } })"

definition vm_create_spec :: "cloud_lib \<Rightarrow> azure_client \<Rightarrow> string \<Rightarrow> string \<Rightarrow> string \<Rightarrow> string \<Rightarrow> vm_spec" where
  "vm_create_spec L C job_key name the_nic user_data =
    \<lparr>vs_name = name, vs_location = ax_location C, vs_tags = ownership_tags L C job_key,
     vs_size = ax_vm_size C, vs_image = ax_image C, vs_admin_username = ax_admin_username C,
     vs_custom_data = base64_encode user_data,
     vs_ssh_path = ''/home/'' @ ax_admin_username C @ ''/.ssh/authorized_keys'',
     vs_ssh_key = ax_ssh_public_key C, vs_nic_id = the_nic, vs_spot = ax_spot C\<rparr>"

definition cleanup_nic_after_vm_failure ::
    "cloud_lib \<Rightarrow> azure_client \<Rightarrow> 'x azure_api \<Rightarrow> string \<Rightarrow> string \<Rightarrow> go_error \<Rightarrow> ('x, 'a) azure_call" where
  "cleanup_nic_after_vm_failure L C A machine job_key cause = do {
     e \<leftarrow> delete_nic L C A RecoveryCtx (nic_of machine) job_key;
     case e of
       None \<Rightarrow> fail cause
     | Some e \<Rightarrow> fail (ErrJoin [cause, ErrWrap ''clean up Azure NIC after VM creation failure: '' e]) }"

definition azure_create_runner ::
    "cloud_lib \<Rightarrow> azure_client \<Rightarrow> 'x azure_api \<Rightarrow> runner_params \<Rightarrow> ('x, runner_instance) azure_call" where
  "azure_create_runner L C A params =
    check id (azure_find_runner L C A (p_job_key params)) (\<lambda>existing.
      case existing of
        Some i \<Rightarrow> ok i
      | None \<Rightarrow>
          (case render_cloud_init (ax_template C) params of
             Inl e \<Rightarrow> fail e
           | Inr user_data \<Rightarrow>
               (let name = azure_resource_name L (p_job_key params) in
                check id (ensure_nic L C A name (p_job_key params)) (\<lambda>the_nic. do {
                  let spec = vm_create_spec L C (p_job_key params) name the_nic user_data;
                  r \<leftarrow> api (aapi_vm_create A spec) (CloudCreate (VmSpec spec));
                  case r of
                    Some e \<Rightarrow> cleanup_nic_after_vm_failure L C A name (p_job_key params)
                                (ErrWrap ''create Azure runner: '' e)
                  | None \<Rightarrow> do {
                      w \<leftarrow> quiet_api (aapi_wait A CallerCtx);
                      case w of
                        Some e \<Rightarrow> cleanup_nic_after_vm_failure L C A name (p_job_key params)
                                    (ErrWrap ''wait for Azure runner creation: '' e)
                      | None \<Rightarrow> ok \<lparr>ri_id = name, ri_name = name\<rparr> } }))))"

section \<open>Orphans\<close>

text \<open>The wrappers around the pagers of the SDK; the first argument bounds the pages.\<close>

fun vm_pages :: "nat \<Rightarrow> 'x azure_api \<Rightarrow> nat \<Rightarrow> azure_vm option list \<Rightarrow> ('x, azure_vm option list) azure_call" where
  "vm_pages 0 A page result = fail ErrDeadlineExceeded"
| "vm_pages (Suc n) A page result =
     check id (api (aapi_vm_list A page) (page_event VmPage page (map VmResource \<circ> List.map_filter id)))
       (\<lambda>(values, more). if more then vm_pages n A (page + 1) (result @ values) else ok (result @ values))"

fun nic_pages :: "nat \<Rightarrow> 'x azure_api \<Rightarrow> nat \<Rightarrow> azure_nic option list \<Rightarrow> ('x, azure_nic option list) azure_call" where
  "nic_pages 0 A page result = fail ErrDeadlineExceeded"
| "nic_pages (Suc n) A page result =
     check id (api (aapi_nic_list A page) (page_event NicPage page (map NicResource \<circ> List.map_filter id)))
       (\<lambda>(values, more). if more then nic_pages n A (page + 1) (result @ values) else ok (result @ values))"

text \<open>
  The loop over the machines answers with the count, the interfaces protected so far, and the error
  that ends the sweep.
\<close>

fun vm_sweep_loop ::
    "azure_client \<Rightarrow> 'x azure_api \<Rightarrow> string list \<Rightarrow> time \<Rightarrow> azure_vm option list \<Rightarrow> int \<Rightarrow> string list \<Rightarrow>
     ('x, azure_event, int \<times> string list \<times> go_error option) cloud_call" where
  "vm_sweep_loop C A known cutoff [] deleted protected = State_Monad.return (deleted, protected, None)"
| "vm_sweep_loop C A known cutoff (v # vs) deleted protected =
    (case v of
       None \<Rightarrow> vm_sweep_loop C A known cutoff vs deleted protected
     | Some vm \<Rightarrow>
         if azure_tag_value (vm_tags vm) azure_controller_tag \<noteq> ax_controller_id C \<or> vm_name vm = None
         then vm_sweep_loop C A known cutoff vs deleted protected
         else
           let name = the (vm_name vm); protected = nic_of name # protected in
           if name \<in> set known then vm_sweep_loop C A known cutoff vs deleted protected
           else case vm_created vm of
             None \<Rightarrow> State_Monad.return (deleted, protected, Some (ErrText
               (''controller-owned Azure VM '' @ name @ '' has no creation timestamp'')))
           | Some created \<Rightarrow>
               if \<not> created < cutoff then vm_sweep_loop C A known cutoff vs deleted protected
               else do {
                 e \<leftarrow> api (aapi_vm_delete A name) (CloudDelete (VmId name));
                 case e of
                   Some e \<Rightarrow>
                     if azure_not_found e then vm_sweep_loop C A known cutoff vs deleted protected
                     else State_Monad.return (deleted, protected, Some (ErrWrap
                       (''delete orphaned controller Azure VM '' @ name @ '': '') e))
                 | None \<Rightarrow> do {
                     w \<leftarrow> quiet_api (aapi_wait A CallerCtx);
                     (case w of
                        Some e \<Rightarrow>
                          if \<not> azure_not_found e
                          then State_Monad.return (deleted, protected, Some (ErrWrap
                            ''wait for orphaned Azure VM deletion: '' e))
                          else vm_sweep_loop C A known cutoff vs (deleted + 1) protected
                      | None \<Rightarrow> vm_sweep_loop C A known cutoff vs (deleted + 1) protected) } })"

fun nic_sweep_loop ::
    "cloud_lib \<Rightarrow> azure_client \<Rightarrow> 'x azure_api \<Rightarrow> time \<Rightarrow> azure_nic option list \<Rightarrow> int \<Rightarrow> string list \<Rightarrow>
     ('x, azure_event, int \<times> go_error option) cloud_call" where
  "nic_sweep_loop L C A cutoff [] deleted protected = State_Monad.return (deleted, None)"
| "nic_sweep_loop L C A cutoff (n # ns) deleted protected =
    (case n of
       None \<Rightarrow> nic_sweep_loop L C A cutoff ns deleted protected
     | Some nic \<Rightarrow>
         if nic_name nic = None \<or> azure_tag_value (nic_tags nic) azure_controller_tag \<noteq> ax_controller_id C
         then nic_sweep_loop L C A cutoff ns deleted protected
         else
           let name = the (nic_name nic) in
           if name \<in> set protected \<or> nic_attached nic then nic_sweep_loop L C A cutoff ns deleted protected
           else case lib_rfc3339_nano L (azure_tag_value (nic_tags nic) azure_created_tag) of
             Inl e \<Rightarrow> State_Monad.return (deleted, Some (ErrText
               (''controller-owned Azure NIC '' @ name @ '' has no valid creation timestamp'')))
           | Inr created \<Rightarrow>
               if \<not> created < cutoff then nic_sweep_loop L C A cutoff ns deleted protected
               else do {
                 e \<leftarrow> api (aapi_nic_delete A CallerCtx name) (CloudDelete (NicId name));
                 case e of
                   Some e \<Rightarrow>
                     if azure_not_found e then nic_sweep_loop L C A cutoff ns deleted protected
                     else State_Monad.return (deleted, Some (ErrWrap
                       (''delete orphaned controller Azure NIC '' @ name @ '': '') e))
                 | None \<Rightarrow> do {
                     w \<leftarrow> quiet_api (aapi_wait A CallerCtx);
                     (case w of
                        Some e \<Rightarrow>
                          if \<not> azure_not_found e
                          then State_Monad.return (deleted, Some (ErrWrap
                            ''wait for orphaned Azure NIC deletion: '' e))
                          else nic_sweep_loop L C A cutoff ns (deleted + 1) protected
                      | None \<Rightarrow> nic_sweep_loop L C A cutoff ns (deleted + 1) protected) } })"

definition azure_sweep_orphaned_runners ::
    "cloud_lib \<Rightarrow> azure_client \<Rightarrow> 'x azure_api \<Rightarrow> string list \<Rightarrow> time \<Rightarrow>
     ('x, azure_event, int \<times> go_error option) cloud_call" where
  "azure_sweep_orphaned_runners L C A known cutoff = do {
     r \<leftarrow> vm_pages (lib_budget L) A 1 [];
     case r of
       Inl e \<Rightarrow> State_Monad.return (0, Some (ErrWrap ''list Azure VMs for orphan sweep: '' e))
     | Inr vms \<Rightarrow> do {
         p \<leftarrow> vm_sweep_loop C A known cutoff vms 0 (map nic_of known);
         case p of
           (deleted, protected, Some e) \<Rightarrow> State_Monad.return (deleted, Some e)
         | (deleted, protected, None) \<Rightarrow> do {
             r \<leftarrow> nic_pages (lib_budget L) A 1 [];
             case r of
               Inl e \<Rightarrow> State_Monad.return (deleted, Some (ErrWrap ''list Azure NICs for orphan sweep: '' e))
             | Inr nics \<Rightarrow> nic_sweep_loop L C A cutoff nics deleted protected } } }"

section \<open>The contract\<close>

definition azure :: "cloud_lib \<Rightarrow> azure_client \<Rightarrow> 'x azure_api \<Rightarrow> ('x, azure_event) adapter" where
  "azure L C A =
    \<lparr>ad_find = azure_find_runner L C A, ad_create = azure_create_runner L C A, ad_delete = azure_delete_runner L C A,
     ad_cleanup = azure_cleanup_runner L C A, ad_sweep = azure_sweep_orphaned_runners L C A,
     ad_absent = None, ad_cleanup_except = None\<rparr>"

definition nic_checked :: "cloud_lib \<Rightarrow> azure_client \<Rightarrow> string \<Rightarrow> string \<Rightarrow> azure_event \<Rightarrow> azure_event list \<Rightarrow> bool" where
  "nic_checked L C name key e es \<longleftrightarrow>
    (\<exists>r nic rest. e = CloudDelete (NicId name) r \<and> es = CloudGet (NicId name) (Inr (NicResource nic)) # rest \<and>
       azure_owned L C key (nic_tags nic))"

definition azure_checked :: "cloud_lib \<Rightarrow> azure_client \<Rightarrow> string \<Rightarrow> string \<Rightarrow> azure_event \<Rightarrow> azure_event list \<Rightarrow> bool" where
  "azure_checked L C n key e es \<longleftrightarrow>
    (\<exists>r vm rest. e = CloudDelete (VmId n) r \<and> es = CloudGet (VmId n) (Inr (VmResource vm)) # rest \<and>
       azure_owned L C key (vm_tags vm)) \<or>
    nic_checked L C (nic_of n) key e es"

definition vm_not_found :: "string \<Rightarrow> azure_event list \<Rightarrow> bool" where
  "vm_not_found name es \<longleftrightarrow> (\<exists>err. CloudGet (VmId name) (Inl err) \<in> set es \<and> azure_not_found err)"

fun nic_creation :: "azure_event \<Rightarrow> bool" where
  "nic_creation (CloudCreate (NicSpec spec) r) = True"
| "nic_creation _ = False"

text \<open>The three changes of a creation: of the interface, of the machine, and the removal of the interface.\<close>

definition azure_creation :: "cloud_lib \<Rightarrow> azure_client \<Rightarrow> string \<Rightarrow> azure_event \<Rightarrow> azure_event list \<Rightarrow> bool" where
  "azure_creation L C key e es \<longleftrightarrow>
    (let name = azure_resource_name L key in
     (\<exists>spec r err rest. e = CloudCreate (NicSpec spec) r \<and> ns_name spec = nic_of name \<and>
        azure_owned L C key (ns_tags spec) \<and> harmless_events es \<and> vm_not_found name es \<and>
        es = CloudGet (NicId (nic_of name)) (Inl err) # rest \<and> azure_not_found err) \<or>
     (\<exists>spec r. e = CloudCreate (VmSpec spec) r \<and> vs_name spec = name \<and> azure_owned L C key (vs_tags spec) \<and>
        vm_not_found name es \<and> list_all (\<lambda>e. mutation e \<longrightarrow> nic_creation e) es) \<or>
     (nic_checked L C (nic_of name) key e es \<and>
        (\<exists>spec r. vs_name spec = name \<and> CloudCreate (VmSpec spec) r = hd (tl es))))"

text \<open>
  An orphaned machine is one of a listing; an orphaned interface is one of a listing, attached to
  nothing, and of no machine that the store knows or that the listing of the machines has shown.
\<close>

definition vm_orphan :: "azure_client \<Rightarrow> string list \<Rightarrow> time \<Rightarrow> azure_vm list \<Rightarrow> azure_event \<Rightarrow> bool" where
  "vm_orphan C known cutoff vms e \<longleftrightarrow>
    (\<exists>n r vm t. e = CloudDelete (VmId n) r \<and> vm \<in> set vms \<and> vm_name vm = Some n \<and>
       azure_tag_value (vm_tags vm) azure_controller_tag = ax_controller_id C \<and>
       n \<notin> set known \<and> vm_created vm = Some t \<and> t < cutoff)"

definition nic_orphan ::
    "cloud_lib \<Rightarrow> azure_client \<Rightarrow> string list \<Rightarrow> time \<Rightarrow> azure_vm list \<Rightarrow> azure_nic list \<Rightarrow> azure_event \<Rightarrow> bool" where
  "nic_orphan L C known cutoff vms nics e \<longleftrightarrow>
    (\<exists>n r nic t. e = CloudDelete (NicId n) r \<and> nic \<in> set nics \<and> nic_name nic = Some n \<and>
       azure_tag_value (nic_tags nic) azure_controller_tag = ax_controller_id C \<and> \<not> nic_attached nic \<and>
       n \<notin> nic_of ` set known \<and>
       (\<forall>vm \<in> set vms. \<forall>m. vm_name vm = Some m \<longrightarrow>
          azure_tag_value (vm_tags vm) azure_controller_tag = ax_controller_id C \<longrightarrow> n \<noteq> nic_of m) \<and>
       lib_rfc3339_nano L (azure_tag_value (nic_tags nic) azure_created_tag) = Inr t \<and> t < cutoff)"

text \<open>
  The sweep lists the machines, over all pages, before it deletes one, and then all the interfaces
  before it deletes one of them.
\<close>

definition azure_orphan :: "cloud_lib \<Rightarrow> azure_client \<Rightarrow> string list \<Rightarrow> time \<Rightarrow> azure_event \<Rightarrow> azure_event list \<Rightarrow> bool" where
  "azure_orphan L C known cutoff e es \<longleftrightarrow>
    (\<exists>deletions pages vms. es = deletions @ pages \<and> listed (VmPage 1) pages (map VmResource vms) \<and>
       vm_orphan C known cutoff vms e) \<or>
    (\<exists>deletions pages' deletions' pages vms nics. es = deletions @ pages' @ deletions' @ pages \<and>
       listed (VmPage 1) pages (map VmResource vms) \<and> listed (NicPage 1) pages' (map NicResource nics) \<and>
       nic_orphan L C known cutoff vms nics e)"

fun azure_permitted :: "cloud_lib \<Rightarrow> azure_client \<Rightarrow> adapter_op \<Rightarrow> azure_event \<Rightarrow> azure_event list \<Rightarrow> bool" where
  "azure_permitted L C (AdCreate params) e es \<longleftrightarrow> azure_creation L C (p_job_key params) e es"
| "azure_permitted L C (AdDelete n key) e es \<longleftrightarrow> azure_checked L C n key e es"
| "azure_permitted L C (AdCleanup key) e es \<longleftrightarrow> azure_checked L C (azure_resource_name L key) key e es"
| "azure_permitted L C (AdSweep known cutoff) e es \<longleftrightarrow> azure_orphan L C known cutoff e es"
| "azure_permitted L C op e es \<longleftrightarrow> False"

lemma nic_checked_older: "older_events (nic_checked L C n key)"
  unfolding older_events_def nic_checked_def by fastforce

lemma azure_checked_older: "older_events (azure_checked L C n key)"
  using nic_checked_older [of L C "nic_of n" key] unfolding older_events_def azure_checked_def by fastforce

lemma delete_nic_logs: "logs (delete_nic L C A ctx name key) (\<lambda>_. disciplined (nic_checked L C name key))"
  unfolding delete_nic_def get_nic_def
  by (auto simp: nic_checked_def intro!: logs_intros split: sum.split option.split)

lemma delete_vm_logs:
  "logs (delete_vm L C A n key vm)
     (\<lambda>_ es'. disciplined (azure_checked L C n key) (es' @ CloudGet (VmId n) (Inr (VmResource vm)) # rest))"
  if "disciplined (azure_checked L C n key) rest"
  unfolding delete_vm_def using that
  by (auto simp: azure_checked_def intro!: logs_intros split: option.split)

lemma azure_delete_logs: "logs (azure_delete_runner L C A n key) (\<lambda>_. disciplined (azure_checked L C n key))"
proof -
  let ?fine = "disciplined (azure_checked L C n key)"
  have nic: "logs (delete_nic L C A ctx (nic_of n) key) (\<lambda>_ es'. ?fine (es' @ es))" if "?fine es" for ctx es
    by (rule logs_mono [OF delete_nic_logs], rule disciplined_append [OF azure_checked_older _ that])
      (erule disciplined_mono, simp add: azure_checked_def)
  show ?thesis
    unfolding azure_delete_runner_def get_vm_def
  proof (rule logs_bind_api)
    fix r :: "go_error + azure_vm"
    have "logs (case r of
           Inl e \<Rightarrow> if azure_not_found e then done_ok
                    else give_up (ErrWrap (''get Azure runner '' @ n @ '' before delete: '') e)
         | Inr vm \<Rightarrow> delete_vm L C A n key vm)
        (\<lambda>_ es'. ?fine (es' @ [CloudGet (VmId n) (map_sum id VmResource r)]))"
      using delete_vm_logs [where rest = "[]"] by (auto intro!: logs_intros split: sum.split)
    then show "logs (do {
        e \<leftarrow> (case r of
            Inl e \<Rightarrow> if azure_not_found e then done_ok
                     else give_up (ErrWrap (''get Azure runner '' @ n @ '' before delete: '') e)
          | Inr vm \<Rightarrow> delete_vm L C A n key vm);
        case e of Some e \<Rightarrow> give_up e | None \<Rightarrow> delete_nic L C A CallerCtx (nic_of n) key })
        (\<lambda>_ es'. ?fine (es' @ [CloudGet (VmId n) (map_sum id VmResource r)]))"
      by (rule logs_bind) (auto split: option.split intro!: logs_intros nic)
  qed
qed

lemma azure_find_logs:
  "logs (azure_find_runner L C A key) (\<lambda>r es. harmless_events es \<and>
     (r = Inr None \<longrightarrow> vm_not_found (azure_resource_name L key) es))"
  unfolding azure_find_runner_def get_vm_def Let_def
  by (auto simp: vm_not_found_def intro!: logs_intros split: sum.split option.split)

lemma ownership_tags_owned: "azure_owned L C key (ownership_tags L C key)"
  by (simp add: azure_owned_def ownership_tags_def azure_tag_value_def azure_controller_tag_def azure_job_tag_key_def)

lemma created_tag_owned: "azure_owned L C key (AList.update azure_created_tag v (ownership_tags L C key))"
  by (simp add: azure_owned_def ownership_tags_def azure_tag_value_def azure_controller_tag_def azure_job_tag_key_def
      azure_created_tag_def)

definition nic_ensured :: "cloud_lib \<Rightarrow> azure_client \<Rightarrow> string \<Rightarrow> azure_event list \<Rightarrow> azure_event list \<Rightarrow> bool" where
  "nic_ensured L C key es es' \<longleftrightarrow>
    disciplined (azure_creation L C key) (es' @ es) \<and> list_all (\<lambda>e. mutation e \<longrightarrow> nic_creation e) (es' @ es) \<and>
    vm_not_found (azure_resource_name L key) (es' @ es)"

lemma ensure_nic_logs:
  assumes "harmless_events es" and "vm_not_found (azure_resource_name L key) es"
  shows "logs (ensure_nic L C A (azure_resource_name L key) key) (\<lambda>_. nic_ensured L C key es)"
proof -
  have quiet: "nic_ensured L C key es (es' @ es)" if "harmless_events es'" for es'
    using assms that
    by (auto simp: nic_ensured_def vm_not_found_def list_all_iff intro!: disciplined_harmless)
  have get: "nic_ensured L C key es [CloudGet (NicId n) r]" for n r
    using assms by (auto simp: nic_ensured_def vm_not_found_def disciplined_harmless list_all_iff)
  have create: "nic_ensured L C key es [CloudCreate (NicSpec spec) r, CloudGet (NicId (nic_of (azure_resource_name L key))) (Inl err)]"
    if "azure_not_found err" "spec = nic_create_spec L C (nic_of (azure_resource_name L key)) key now" for spec r err now
    using assms that
    by (auto simp: nic_ensured_def vm_not_found_def azure_creation_def Let_def nic_create_spec_def created_tag_owned
        disciplined_harmless list_all_iff)
  show ?thesis
    unfolding ensure_nic_def get_nic_def Let_def
    by (auto simp: get create check_def split: sum.split option.split intro!: logs_intros)
qed

lemma delete_nic_events:
  "logs (delete_nic L C A ctx name key) (\<lambda>_ es. harmless_events es \<or>
     (\<exists>r nic. es = [CloudDelete (NicId name) r, CloudGet (NicId name) (Inr (NicResource nic))] \<and>
        azure_owned L C key (nic_tags nic)))"
  unfolding delete_nic_def get_nic_def
  by (auto intro!: logs_intros split: sum.split option.split)

lemma cleanup_nic_logs:
  assumes "disciplined (azure_creation L C key) (CloudCreate (VmSpec spec) r # es)"
    and "vs_name spec = azure_resource_name L key"
  shows "logs (cleanup_nic_after_vm_failure L C A (azure_resource_name L key) key cause)
     (\<lambda>_ es'. disciplined (azure_creation L C key) (es' @ CloudCreate (VmSpec spec) r # es))"
  unfolding cleanup_nic_after_vm_failure_def
proof (rule logs_bind [OF delete_nic_events])
  fix f and es' :: "azure_event list"
  let ?name = "azure_resource_name L key"
  assume "harmless_events es' \<or>
    (\<exists>r nic. es' = [CloudDelete (NicId (nic_of ?name)) r, CloudGet (NicId (nic_of ?name)) (Inr (NicResource nic))] \<and>
       azure_owned L C key (nic_tags nic))"
  then have "disciplined (azure_creation L C key) (es' @ CloudCreate (VmSpec spec) r # es)"
    using assms by (auto simp: disciplined_append_harmless azure_creation_def Let_def nic_checked_def)
  then show "logs (case f of None \<Rightarrow> fail cause
     | Some e \<Rightarrow> fail (ErrJoin [cause, ErrWrap ''clean up Azure NIC after VM creation failure: '' e]))
     (\<lambda>_ es''. disciplined (azure_creation L C key) ((es'' @ es') @ CloudCreate (VmSpec spec) r # es))"
    by (auto intro!: logs_intros split: option.split)
qed

lemma azure_create_logs:
  "logs (azure_create_runner L C A params) (\<lambda>_. disciplined (azure_creation L C (p_job_key params)))"
  unfolding azure_create_runner_def
proof (rule logs_check [OF azure_find_logs])
  fix existing and es :: "azure_event list"
  let ?key = "p_job_key params"
  let ?name = "azure_resource_name L ?key"
  assume *: "harmless_events es \<and> ((Inr existing :: go_error + runner_instance option) = Inr None \<longrightarrow> vm_not_found ?name es)"
  have after: "logs (do {
        let spec = vm_create_spec L C ?key ?name the_nic user_data;
        r \<leftarrow> api (aapi_vm_create A spec) (CloudCreate (VmSpec spec));
        case r of
          Some e \<Rightarrow> cleanup_nic_after_vm_failure L C A ?name ?key (ErrWrap ''create Azure runner: '' e)
        | None \<Rightarrow> do {
            w \<leftarrow> quiet_api (aapi_wait A CallerCtx);
            case w of
              Some e \<Rightarrow> cleanup_nic_after_vm_failure L C A ?name ?key (ErrWrap ''wait for Azure runner creation: '' e)
            | None \<Rightarrow> ok \<lparr>ri_id = ?name, ri_name = ?name\<rparr> } })
      (\<lambda>_ es''. disciplined (azure_creation L C ?key) ((es'' @ es') @ es))" 
    if "nic_ensured L C ?key es es'" for the_nic user_data es'
  proof -
    let ?spec = "vm_create_spec L C ?key ?name the_nic user_data"
    have vm: "disciplined (azure_creation L C ?key) (CloudCreate (VmSpec ?spec) r # es' @ es)" for r
      using that unfolding nic_ensured_def
      by (auto simp: azure_creation_def Let_def vm_create_spec_def ownership_tags_owned)
    have named: "vs_name ?spec = ?name" by (simp add: vm_create_spec_def)
    note cleanup = cleanup_nic_logs [OF vm named]
    show ?thesis
      using cleanup vm by (auto simp: Let_def split: option.split intro!: logs_intros)
  qed
  have quiet: "disciplined (azure_creation L C ?key) es" using * by (auto intro: disciplined_harmless)
  have nic: "logs (ensure_nic L C A ?name ?key) (\<lambda>_. nic_ensured L C ?key es)" if "existing = None"
    by (rule ensure_nic_logs) (use * that in auto)
  show "logs (case existing of Some i \<Rightarrow> ok i | None \<Rightarrow>
      (case render_cloud_init (ax_template C) params of
         Inl e \<Rightarrow> fail e
       | Inr user_data \<Rightarrow>
           (let name = ?name in
            check id (ensure_nic L C A name ?key) (\<lambda>the_nic. do {
              let spec = vm_create_spec L C ?key name the_nic user_data;
              r \<leftarrow> api (aapi_vm_create A spec) (CloudCreate (VmSpec spec));
              case r of
                Some e \<Rightarrow> cleanup_nic_after_vm_failure L C A name ?key (ErrWrap ''create Azure runner: '' e)
              | None \<Rightarrow> do {
                  w \<leftarrow> quiet_api (aapi_wait A CallerCtx);
                  case w of
                    Some e \<Rightarrow> cleanup_nic_after_vm_failure L C A name ?key (ErrWrap ''wait for Azure runner creation: '' e)
                  | None \<Rightarrow> ok \<lparr>ri_id = name, ri_name = name\<rparr> } }))))
     (\<lambda>_ es'. disciplined (azure_creation L C ?key) (es' @ es))"
  proof (cases existing)
    case (Some i)
    with quiet show ?thesis by (auto intro!: logs_intros)
  next
    case None
    show ?thesis
    proof (cases "render_cloud_init (ax_template C) params")
      case (Inl e)
      with None quiet show ?thesis by (auto intro!: logs_intros)
    next
      case (Inr d)
      show ?thesis
        unfolding None option.case Inr sum.case Let_def [where s = ?name]
        by (rule logs_check [OF nic [OF None]]) (simp add: nic_ensured_def, erule after)
    qed
  qed
qed (auto intro: disciplined_harmless)

section \<open>The sweep obeys the contract\<close>

text \<open>A run over the pages of a listing from \<open>page\<close> on has the value of a complete listing from there, or fails.\<close>

definition pages_shown :: "(nat \<Rightarrow> azure_query) \<Rightarrow> ('a \<Rightarrow> azure_resource) \<Rightarrow> nat \<Rightarrow> 'a option list \<Rightarrow>
    go_error + 'a option list \<Rightarrow> azure_event list \<Rightarrow> bool" where
  "pages_shown q K page acc r es \<longleftrightarrow> harmless_events es \<and>
    (\<forall>vs. r = Inr vs \<longrightarrow>
       (\<exists>rest. vs = acc @ rest \<and> listed (q page) es (map K (List.map_filter id rest))))"

abbreviation values_page :: "(nat \<Rightarrow> azure_query) \<Rightarrow> ('a \<Rightarrow> azure_resource) \<Rightarrow> nat \<Rightarrow>
    go_error + 'a option list \<times> bool \<Rightarrow> azure_event" where
  "values_page q K page \<equiv> page_event q page (map K \<circ> List.map_filter id)"

lemma pages_shown_fail: "pages_shown q K page acc (Inl e) []" "pages_shown q K page acc (Inl e) [values_page q K page r]"
  by (simp_all add: pages_shown_def)

lemma pages_shown_last: "pages_shown q K page acc (Inr (acc @ vs)) [values_page q K page (Inr (vs, False))]"
  using listed_page(1) [of q page "map K \<circ> List.map_filter id" vs] by (simp add: pages_shown_def)

lemma pages_shown_step:
  assumes "pages_shown q K (page + 1) (acc @ vs) r es"
  shows "pages_shown q K page acc r (es @ [values_page q K page (Inr (vs, True))])"
  unfolding pages_shown_def
proof (intro conjI allI impI)
  show "harmless_events (es @ [values_page q K page (Inr (vs, True))])" using assms by (simp add: pages_shown_def)
  fix all assume "r = Inr all"
  with assms obtain rest where "all = (acc @ vs) @ rest" "listed (q (page + 1)) es (map K (List.map_filter id rest))"
    unfolding pages_shown_def by blast
  then show "\<exists>rest. all = acc @ rest \<and>
      listed (q page) (es @ [values_page q K page (Inr (vs, True))]) (map K (List.map_filter id rest))"
    using listed_page(2) [of q page es "map K (List.map_filter id rest)" "map K \<circ> List.map_filter id" vs]
    by (intro exI [where x = "vs @ rest"]) (simp add: List.map_filter_def)
qed

lemma pages_loop_logs:
  assumes "\<And>page acc. loop 0 page acc = (fail ErrDeadlineExceeded :: ('x, 'a option list) azure_call)"
    and "\<And>n page acc. loop (Suc n) page acc =
      check id (api (f page) (values_page q K page))
        (\<lambda>(values, more). if more then loop n (page + 1) (acc @ values) else ok (acc @ values))"
  shows "logs (loop n page acc) (pages_shown q K page acc)"
proof (induction n arbitrary: page acc)
  case 0
  then show ?case by (auto simp: assms(1) pages_shown_fail intro!: logs_intros)
next
  case (Suc n)
  show ?case
    unfolding assms(2)
  proof (rule logs_check_api)
    fix p :: "'a option list \<times> bool"
    obtain vs more where p: "p = (vs, more)" by fastforce
    have "logs (loop n (page + 1) (acc @ vs))
        (\<lambda>r es. pages_shown q K page acc r (es @ [values_page q K page (Inr (vs, True))]))"
      by (rule logs_mono [OF Suc.IH]) (rule pages_shown_step)
    with p show "logs (case p of (values, more) \<Rightarrow> if more then loop n (page + 1) (acc @ values) else ok (acc @ values))
        (\<lambda>r es. pages_shown q K page acc r (es @ [values_page q K page (Inr p)]))"
      by (cases more) (auto simp: pages_shown_last intro!: logs_intros)
  qed (rule pages_shown_fail)
qed

lemma vm_pages_logs: "logs (vm_pages n A page acc) (pages_shown VmPage VmResource page acc)"
  by (rule pages_loop_logs [where loop = "\<lambda>n. vm_pages n A"]) simp_all

lemma nic_pages_logs: "logs (nic_pages n A page acc) (pages_shown NicPage NicResource page acc)"
  by (rule pages_loop_logs [where loop = "\<lambda>n. nic_pages n A"]) simp_all

lemma set_map_filter_id: "set (List.map_filter id vs) = {v. Some v \<in> set vs}"
  by (force simp: List.map_filter_def)

text \<open>A loop over the machines deletes only orphans and protects the interfaces of the machines it has passed.\<close>

definition vms_swept ::
    "azure_client \<Rightarrow> string list \<Rightarrow> time \<Rightarrow> azure_vm list \<Rightarrow> azure_vm option list \<Rightarrow> string list \<Rightarrow>
     int \<times> string list \<times> go_error option \<Rightarrow> azure_event list \<Rightarrow> bool" where
  "vms_swept C known cutoff all vms protected r es \<longleftrightarrow>
    list_all (vm_orphan C known cutoff all) es \<and> set protected \<subseteq> set (fst (snd r)) \<and>
    (snd (snd r) = None \<longrightarrow> (\<forall>vm m. Some vm \<in> set vms \<longrightarrow> vm_name vm = Some m \<longrightarrow>
       azure_tag_value (vm_tags vm) azure_controller_tag = ax_controller_id C \<longrightarrow> nic_of m \<in> set (fst (snd r))))"

lemma vm_sweep_loop_logs:
  "(\<And>v. Some v \<in> set vms \<Longrightarrow> v \<in> set all) \<Longrightarrow>
   logs (vm_sweep_loop C A known cutoff vms deleted protected) (vms_swept C known cutoff all vms protected)"
proof (induction vms arbitrary: deleted protected)
  case Nil
  then show ?case by (auto intro!: logs_intros simp: vms_swept_def)
next
  case (Cons v vs)
  let ?swept = "vms_swept C known cutoff all"
  note IH = Cons.IH [OF Cons.prems [OF list.set_intros(2)]]
  show ?case
  proof (cases "\<exists>vm name. v = Some vm \<and> vm_name vm = Some name \<and>
      azure_tag_value (vm_tags vm) azure_controller_tag = ax_controller_id C")
    case False
    have skip: "?swept (v # vs) protected r es" if "?swept vs protected r es" for r es
      using that False by (auto simp: vms_swept_def)
    have "logs (vm_sweep_loop C A known cutoff vs deleted protected) (?swept (v # vs) protected)"
      by (rule logs_mono [OF IH skip])
    with False show ?thesis by (cases v) auto
  next
    case True
    then obtain vm name where v: "v = Some vm" "vm_name vm = Some name"
        "azure_tag_value (vm_tags vm) azure_controller_tag = ax_controller_id C" by blast
    let ?prot = "nic_of name # protected"
    have keep: "?swept (v # vs) protected r es" if "?swept vs ?prot r es" for r es
      using that v by (auto simp: vms_swept_def)
    have again: "logs (vm_sweep_loop C A known cutoff vs d ?prot) (?swept (v # vs) protected)" for d
      by (rule logs_mono [OF IH keep])
    have stop: "?swept (v # vs) protected (d, ?prot, Some e) []" for d e
      by (auto simp: vms_swept_def)
    have orphan: "vm_orphan C known cutoff all (CloudDelete (VmId name) r)"
      if "name \<notin> set known" "vm_created vm = Some t" "t < cutoff" for r t
      using that v Cons.prems [of vm] by (auto simp: vm_orphan_def)
    have failed: "?swept (v # vs) protected (d, ?prot, Some e) [CloudDelete (VmId name) r]"
      if "vm_orphan C known cutoff all (CloudDelete (VmId name) r)" for d e r
      using that by (auto simp: vms_swept_def)
    have keep': "?swept (v # vs) protected r (es @ [CloudDelete (VmId name) q])"
      if "vm_orphan C known cutoff all (CloudDelete (VmId name) q)" "?swept vs ?prot r es" for r es q
      using that v by (auto simp: vms_swept_def)
    have after: "logs (vm_sweep_loop C A known cutoff vs d ?prot)
        (\<lambda>r es. ?swept (v # vs) protected r (es @ [CloudDelete (VmId name) q]))"
      if "vm_orphan C known cutoff all (CloudDelete (VmId name) q)" for d q
      by (rule logs_mono [OF IH keep' [OF that]])
    show ?thesis
      unfolding v(1) using v(2,3) orphan
      by (cases "vm_created vm")
        (auto simp: Let_def intro!: logs_intros stop [unfolded v(1)] again [unfolded v(1)]
          after [unfolded v(1)] failed [unfolded v(1)] split: option.split)
  qed
qed

lemma nic_sweep_loop_logs:
  assumes "nic_of ` set known \<subseteq> set protected"
    and "\<And>vm m. vm \<in> set vms \<Longrightarrow> vm_name vm = Some m \<Longrightarrow>
       azure_tag_value (vm_tags vm) azure_controller_tag = ax_controller_id C \<Longrightarrow> nic_of m \<in> set protected"
  shows "(\<And>n. Some n \<in> set nics \<Longrightarrow> n \<in> set all) \<Longrightarrow>
     logs (nic_sweep_loop L C A cutoff nics deleted protected) (\<lambda>_. list_all (nic_orphan L C known cutoff vms all))"
proof (induction nics arbitrary: deleted)
  case Nil
  then show ?case by (auto intro!: logs_intros)
next
  case (Cons n ns)
  note IH = Cons.IH [OF Cons.prems [OF list.set_intros(2)]]
  show ?case
  proof (cases "\<exists>nic name. n = Some nic \<and> nic_name nic = Some name")
    case False
    with IH show ?thesis by (cases n) auto
  next
    case True
    then obtain nic name where n: "n = Some nic" "nic_name nic = Some name" by blast
    have orphan: "nic_orphan L C known cutoff vms all (CloudDelete (NicId name) r)"
      if "azure_tag_value (nic_tags nic) azure_controller_tag = ax_controller_id C" "\<not> nic_attached nic"
        "name \<notin> set protected"
        "lib_rfc3339_nano L (azure_tag_value (nic_tags nic) azure_created_tag) = Inr t" "t < cutoff" for r t
    proof -
      have "nic \<in> set all" using n Cons.prems [of nic] by simp
      moreover have "name \<notin> nic_of ` set known" using that(3) assms(1) by auto
      moreover have "name \<noteq> nic_of m" if "vm \<in> set vms" "vm_name vm = Some m"
          "azure_tag_value (vm_tags vm) azure_controller_tag = ax_controller_id C" for vm m
        using that assms(2) [of vm m] \<open>name \<notin> set protected\<close> by auto
      ultimately show ?thesis
        unfolding nic_orphan_def using that n(2) by blast
    qed
    show ?thesis
      unfolding n(1) using n(2) orphan
      by (cases "lib_rfc3339_nano L (azure_tag_value (nic_tags nic) azure_created_tag)")
        (auto simp: Let_def intro!: logs_intros IH split: option.split)
  qed
qed

lemma azure_sweep_logs:
  "logs (azure_sweep_orphaned_runners L C A known cutoff) (\<lambda>_. disciplined (azure_orphan L C known cutoff))"
  unfolding azure_sweep_orphaned_runners_def
proof (rule logs_bind [OF vm_pages_logs])
  fix r es
  let ?p = "azure_orphan L C known cutoff"
  assume vm_pages: "pages_shown VmPage VmResource 1 [] r es"
  then have quiet: "disciplined ?p es" by (auto simp: pages_shown_def intro: disciplined_harmless)
  show "logs (case r of
       Inl e \<Rightarrow> State_Monad.return (0, Some (ErrWrap ''list Azure VMs for orphan sweep: '' e))
     | Inr vms \<Rightarrow> do {
         p \<leftarrow> vm_sweep_loop C A known cutoff vms 0 (map nic_of known);
         case p of
           (deleted, protected, Some e) \<Rightarrow> State_Monad.return (deleted, Some e)
         | (deleted, protected, None) \<Rightarrow> do {
             r \<leftarrow> nic_pages (lib_budget L) A 1 [];
             case r of
               Inl e \<Rightarrow> State_Monad.return (deleted, Some (ErrWrap ''list Azure NICs for orphan sweep: '' e))
             | Inr nics \<Rightarrow> nic_sweep_loop L C A cutoff nics deleted protected } })
     (\<lambda>_ es'. disciplined ?p (es' @ es))"
  proof (cases r)
    case (Inl e)
    with quiet show ?thesis by (auto intro!: logs_intros)
  next
    case (Inr vms)
    let ?vms = "List.map_filter id vms"
    have vms: "listed (VmPage 1) es (map VmResource ?vms)"
      using vm_pages Inr by (auto simp: pages_shown_def)
    let ?swept = "vms_swept C known cutoff ?vms vms (map nic_of known)"
    have deleted: "disciplined ?p (es' @ es)" if "?swept x es'" for x es'
    proof (rule disciplined_list_all)
      show "list_all (vm_orphan C known cutoff ?vms) es'" using that by (simp add: vms_swept_def)
      show "?p e (es'' @ es)" if "vm_orphan C known cutoff ?vms e" for e es''
        using that vms unfolding azure_orphan_def by blast
    qed (rule quiet)
    have nics: "logs (nic_sweep_loop L C A cutoff nics d protected) (\<lambda>_ late. disciplined ?p (late @ es'' @ es' @ es))"
      if swept: "?swept (d, protected, None) es'" and pages: "pages_shown NicPage NicResource 1 [] (Inr nics) es''"
      for nics d protected es' es''
    proof (rule logs_mono [OF nic_sweep_loop_logs [where vms = ?vms and all = "List.map_filter id nics"]])
      have nics: "listed (NicPage 1) es'' (map NicResource (List.map_filter id nics))" "harmless_events es''"
        using pages by (auto simp: pages_shown_def)
      fix u and late assume "list_all (nic_orphan L C known cutoff ?vms (List.map_filter id nics)) late"
      then show "disciplined ?p (late @ es'' @ es' @ es)"
      proof (rule disciplined_list_all)
        show "?p e (late' @ es'' @ es' @ es)"
          if "nic_orphan L C known cutoff ?vms (List.map_filter id nics) e" for e late'
          using that vms nics(1) unfolding azure_orphan_def by blast
        show "disciplined ?p (es'' @ es' @ es)"
          using deleted [OF swept] nics(2) by (simp add: disciplined_append_harmless)
      qed
    qed (use swept in \<open>auto simp: vms_swept_def set_map_filter_id\<close>)
    have after: "logs (do {
        r \<leftarrow> nic_pages (lib_budget L) A 1 [];
        case r of
          Inl e \<Rightarrow> State_Monad.return (d, Some (ErrWrap ''list Azure NICs for orphan sweep: '' e))
        | Inr nics \<Rightarrow> nic_sweep_loop L C A cutoff nics d protected })
       (\<lambda>_ es''. disciplined ?p ((es'' @ es') @ es))"
      if swept: "?swept (d, protected, None) es'" for d protected es'
    proof (rule logs_bind [OF nic_pages_logs])
      fix r es''
      assume pages: "pages_shown NicPage NicResource 1 [] r es''"
      then have "disciplined ?p (es'' @ es' @ es)"
        using deleted [OF swept] by (auto simp: pages_shown_def disciplined_append_harmless)
      then show "logs (case r of
          Inl e \<Rightarrow> State_Monad.return (d, Some (ErrWrap ''list Azure NICs for orphan sweep: '' e))
        | Inr nics \<Rightarrow> nic_sweep_loop L C A cutoff nics d protected)
        (\<lambda>_ late. disciplined ?p (((late @ es'') @ es') @ es))"
        using pages nics [OF swept] by (auto intro!: logs_intros split: sum.split)
    qed
    have loop: "logs (vm_sweep_loop C A known cutoff vms 0 (map nic_of known)) ?swept"
      by (rule vm_sweep_loop_logs) (simp add: set_map_filter_id)
    show ?thesis
      unfolding Inr sum.case
    proof (rule logs_bind [OF loop])
      fix x es' assume swept: "?swept x es'"
      obtain d protected err where x: "x = (d, protected, err)" by (cases x)
      from swept after deleted [OF swept] show "logs (case x of
           (deleted, protected, Some e) \<Rightarrow> State_Monad.return (deleted, Some e)
         | (deleted, protected, None) \<Rightarrow> do {
             r \<leftarrow> nic_pages (lib_budget L) A 1 [];
             case r of
               Inl e \<Rightarrow> State_Monad.return (deleted, Some (ErrWrap ''list Azure NICs for orphan sweep: '' e))
             | Inr nics \<Rightarrow> nic_sweep_loop L C A cutoff nics deleted protected })
         (\<lambda>_ es''. disciplined ?p ((es'' @ es') @ es))"
        unfolding x by (cases err) (auto intro!: logs_return)
    qed
  qed
qed

interpretation ms: cloud_adapter "azure L C A" "azure_permitted L C" for L C A
proof
  note unfold = azure_def adapter.select_convs
  show "logs (ad_find (azure L C A) key) (\<lambda>_. disciplined (azure_permitted L C (AdFind key)))" for key
    unfolding unfold by (rule logs_mono [OF azure_find_logs]) (blast intro: disciplined_harmless)
  show "logs (ad_create (azure L C A) params) (\<lambda>_. disciplined (azure_permitted L C (AdCreate params)))" for params
    unfolding unfold by (rule logs_mono [OF azure_create_logs]) (erule disciplined_mono, simp)
  show "logs (ad_delete (azure L C A) n key) (\<lambda>_. disciplined (azure_permitted L C (AdDelete n key)))" for n key
    unfolding unfold by (rule logs_mono [OF azure_delete_logs]) (erule disciplined_mono, simp)
  show "logs (ad_cleanup (azure L C A) key) (\<lambda>_. disciplined (azure_permitted L C (AdCleanup key)))" for key
    unfolding unfold azure_cleanup_runner_def
    by (rule logs_mono [OF azure_delete_logs]) (erule disciplined_mono, simp)
  show "logs (ad_sweep (azure L C A) known cutoff)
      (\<lambda>_. disciplined (azure_permitted L C (AdSweep known cutoff)))" for known cutoff
    unfolding unfold by (rule logs_mono [OF azure_sweep_logs]) (erule disciplined_mono, simp)
qed (simp_all add: azure_def)

end
