(* ===== verification/Cloud_Properties.thy ===== *)
theory Cloud_Properties
  imports Cloud_DigitalOcean Cloud_AWS Cloud_GCP Cloud_Azure
begin

text \<open>
  The properties of the cloud adapters: what they may create and delete, and how the creation of a
  droplet ends.
\<close>

section \<open>Changes\<close>

lemma disciplinedI:
  "(\<And>late e early. es = late @ e # early \<Longrightarrow> mutation e \<Longrightarrow> p e early) \<Longrightarrow> disciplined p es"
proof (induction es)
  case (Cons e es)
  have "mutation e \<longrightarrow> p e es" using Cons.prems [of "[]"] by simp
  moreover have "disciplined p es"
    by (rule Cons.IH) (metis Cons.prems append_Cons)
  ultimately show ?case by simp
qed simp

text \<open>Some operation of the run permits the event in view of its own earlier events.\<close>

definition run_permits ::
    "(adapter_op \<Rightarrow> ('i, 'r, 'c, 'q) cloud_event \<Rightarrow> ('i, 'r, 'c, 'q) cloud_event list \<Rightarrow> bool) \<Rightarrow> adapter_op list \<Rightarrow>
     ('i, 'r, 'c, 'q) cloud_event \<Rightarrow> ('i, 'r, 'c, 'q) cloud_event list \<Rightarrow> bool" where
  "run_permits permitted ops e es \<longleftrightarrow> (\<exists>op \<in> set ops. \<exists>own rest. es = own @ rest \<and> permitted op e own)"

definition fresh_cloud :: "'x \<Rightarrow> ('x, 'e) cloud" where
  "fresh_cloud x = \<lparr>cl_outside = x, cl_log = []\<rparr>"

context cloud_adapter
begin

lemma run_disciplined: "disciplined (run_permits permitted ops) (cl_log (ad_run ad ops (fresh_cloud x)))"
proof (rule disciplinedI)
  fix late e early
  assume "cl_log (ad_run ad ops (fresh_cloud x)) = late @ e # early" and "mutation e"
  from run_law [OF _ this] show "run_permits permitted ops e early"
    unfolding run_permits_def by (auto simp: fresh_cloud_def)
qed

end

text \<open>C35: However the operations of the DigitalOcean adapter are sequenced and whatever the API answers, every
  request that changes something is one its operation permits in view of the answers before it. A
  droplet is created only when the events of its operation before are a complete listing of the
  droplets with the tag of its job, from the first page to the one that has no next, which shows
  none, and then a complete listing of the firewalls, which shows the configured one without inbound
  rules on the controller's tag and no other that opens ports on the droplet's tags. A droplet is
  deleted only directly after a fetch that showed the tags of the controller and the job, never the
  excluded one of a cleanup, or as an orphan that a complete listing of the controller's droplets
  showed, that is unknown to the store and older than the cutoff.\<close>

theorem digitalocean_changes_are_permitted:
  "disciplined (run_permits (do_permitted L C) ops)
     (cl_log (ad_run (digitalocean L C A) ops (fresh_cloud x)))"
  by (rule dg.run_disciplined)

text \<open>C36: The same of the other adapters. An EC2 instance is launched under the tags and the client
  token of its job only when the events of its operation before are a complete listing, over all its
  pages, filtered by the tags of the controller and of this job and by the states before
  termination, which shows no instance; it is terminated after a fetch that showed both tags and a
  state before shutdown. A Compute Engine instance is inserted after its name was not found and
  deleted after a fetch that showed both labels; on Azure the interface and then the machine are
  created under names and tags of the job after the machine was not found, each is deleted after a
  fetch that showed both tags, and a failed creation removes only the interface of its own job.
  Sweeps delete only what carries the controller's identity, is unknown to the store and older than
  the cutoff: on EC2 an instance that a page filtered by the controller's tag and the live states
  showed, on Compute Engine one of a complete listing of the zone, on Azure a machine of a complete
  listing of the machines or, after a complete listing of the interfaces too, an interface that is
  attached to nothing and of no machine that is known or was listed.\<close>

theorem hash_named_clouds_changes_are_permitted:
  "disciplined (run_permits (aws_permitted L C1) ops) (cl_log (ad_run (amazon L C1 A1) ops (fresh_cloud x1))) \<and>
   disciplined (run_permits (gcp_permitted L C2) ops) (cl_log (ad_run (google L C2 A2) ops (fresh_cloud x2))) \<and>
   disciplined (run_permits (azure_permitted L C3) ops) (cl_log (ad_run (azure L C3 A3) ops (fresh_cloud x3)))"
  by (intro conjI am.run_disciplined gc.run_disciplined ms.run_disciplined)

section \<open>The end of a creation\<close>

text \<open>
  The events of a poll: a complete listing, over all its pages, of the droplets of the job, all of
  them of the controller. It is clean when none has the name.
\<close>

definition clean_poll :: "cloud_lib \<Rightarrow> do_client \<Rightarrow> string \<Rightarrow> string \<Rightarrow> do_event list \<Rightarrow> bool" where
  "clean_poll L C key name es \<longleftrightarrow>
    (\<exists>ds. job_droplets L C key es ds \<and> (\<forall>d \<in> set ds. dr_name d \<noteq> name))"

fun clean_polls :: "nat \<Rightarrow> cloud_lib \<Rightarrow> do_client \<Rightarrow> string \<Rightarrow> string \<Rightarrow> do_event list \<Rightarrow> bool" where
  "clean_polls 0 L C key name es \<longleftrightarrow> True"
| "clean_polls (Suc n) L C key name es \<longleftrightarrow>
    (\<exists>poll rest. es = poll @ rest \<and> clean_poll L C key name poll \<and> clean_polls n L C key name rest)"

text \<open>The latest poll shows exactly one droplet with the name.\<close>

definition poll_shows :: "cloud_lib \<Rightarrow> do_client \<Rightarrow> string \<Rightarrow> string \<Rightarrow> droplet \<Rightarrow> do_event list \<Rightarrow> bool" where
  "poll_shows L C key name d es \<longleftrightarrow>
    (\<exists>poll rest ds. es = poll @ rest \<and> job_droplets L C key poll ds \<and> filter (\<lambda>d. dr_name d = name) ds = [d])"

lemma poll_shows_append: "poll_shows L C key name d es \<Longrightarrow> poll_shows L C key name d (es @ es')"
  unfolding poll_shows_def by (metis append.assoc)

definition polled ::
    "cloud_lib \<Rightarrow> do_client \<Rightarrow> string \<Rightarrow> string \<Rightarrow> go_error + droplet option \<Rightarrow> do_event list \<Rightarrow> bool" where
  "polled L C key name r es \<longleftrightarrow> harmless_events es \<and>
    (r = Inr None \<longrightarrow> clean_poll L C key name es) \<and>
    (\<forall>d. r = Inr (Some d) \<longrightarrow> poll_shows L C key name d es)"

lemma match_name_filter:
  "match_name key name ds found = Inr r \<Longrightarrow>
   (case found of None \<Rightarrow> [] | Some d \<Rightarrow> [d]) @ filter (\<lambda>d. dr_name d = name) ds =
     (case r of None \<Rightarrow> [] | Some d \<Rightarrow> [d])"
proof (induction ds arbitrary: found)
  case (Cons d ds)
  from Cons.prems Cons.IH show ?case
    by (cases "dr_name d = name"; cases found) fastforce+
qed simp

lemma polled_logs: "logs (find_job_droplet_by_name L C A ctx key name) (polled L C key name)"
  unfolding find_job_droplet_by_name_def
proof (rule logs_check [OF list_job_logs])
  fix ds and es :: "do_event list"
  assume "harmless_events es \<and> (\<forall>ds'. (Inr ds :: go_error + droplet list) = Inr ds' \<longrightarrow> job_droplets L C key es ds')"
  then have listed: "harmless_events es" "job_droplets L C key es ds" by auto
  have "polled L C key name (match_name key name ds None) es"
  proof (cases "match_name key name ds None")
    case (Inl e)
    with listed show ?thesis by (simp add: polled_def)
  next
    case (Inr r)
    from match_name_filter [OF this] have only: "filter (\<lambda>d. dr_name d = name) ds = (case r of None \<Rightarrow> [] | Some d \<Rightarrow> [d])"
      by simp
    show ?thesis
    proof (cases r)
      case None
      with only have "\<forall>d \<in> set ds. dr_name d \<noteq> name" by (simp add: filter_empty_conv)
      with listed Inr None show ?thesis by (auto simp: polled_def clean_poll_def)
    next
      case (Some d)
      have "poll_shows L C key name d es"
        unfolding poll_shows_def
        by (intro exI [where x = es] exI [where x = "[]"] exI [where x = ds])
          (use only listed(2) Some in simp)
      with listed Inr Some show ?thesis by (simp add: polled_def)
    qed
  qed
  then show "logs (case match_name key name ds None of Inl e \<Rightarrow> fail e | Inr m \<Rightarrow> ok m)
      (\<lambda>b es'. polled L C key name b (es' @ es))"
    by (auto intro!: logs_intros split: sum.split)
qed (simp add: polled_def)

text \<open>A context that is done stays done, as \<open>context.Context\<close> documents of \<open>Err\<close>.\<close>

definition context_stays_done :: "'x do_api \<Rightarrow> bool" where
  "context_stays_done A \<longleftrightarrow>
    (\<forall>ctx x e x'. dapi_ctx_err A ctx x = (Some e, x') \<longrightarrow> fst (dapi_ctx_err A ctx x') \<noteq> None)"

lemma logs_context_twice:
  assumes "context_stays_done A"
    and "logs (f clean (Some ())) Q" and "logs (f 0 None) Q" and "logs (f 0 (Some ())) Q"
  shows "logs (do {
      clean \<leftarrow> do { e \<leftarrow> quiet_api (dapi_ctx_err A ctx); State_Monad.return (if e = None then 0 else clean) };
      e \<leftarrow> quiet_api (dapi_ctx_err A ctx);
      f clean (map_option (\<lambda>_. ()) e) }) Q"
proof (rule logsI)
  fix s a t
  assume run: "run_state (do {
      clean \<leftarrow> do { e \<leftarrow> quiet_api (dapi_ctx_err A ctx); State_Monad.return (if e = None then 0 else clean) };
      e \<leftarrow> quiet_api (dapi_ctx_err A ctx);
      f clean (map_option (\<lambda>_. ()) e) }) s = (a, t)"
  obtain e1 x1 where one: "dapi_ctx_err A ctx (cl_outside s) = (e1, x1)" by fastforce
  obtain e2 x2 where two: "dapi_ctx_err A ctx x1 = (e2, x2)" by fastforce
  have sticky: "e1 \<noteq> None \<Longrightarrow> e2 \<noteq> None"
    using assms(1) one two unfolding context_stays_done_def by (cases e1) (auto, metis fst_conv option.distinct(1))
  let ?u = "s\<lparr>cl_outside := x2\<rparr>"
  from run one two
  have "run_state (f (if e1 = None then 0 else clean) (map_option (\<lambda>_. ()) e2)) ?u = (a, t)" by simp
  then show "\<exists>es. cl_log t = es @ cl_log s \<and> Q a es"
    using sticky logsD [OF assms(2), of ?u a t] logsD [OF assms(3), of ?u a t] logsD [OF assms(4), of ?u a t]
    by (cases e1; cases e2) auto
qed

definition recovered ::
    "cloud_lib \<Rightarrow> do_client \<Rightarrow> string \<Rightarrow> string \<Rightarrow> go_error + droplet option \<times> bool \<Rightarrow> do_event list \<Rightarrow> bool" where
  "recovered L C key name r es \<longleftrightarrow>
    (case r of
       Inl e \<Rightarrow> False
     | Inr (Some d, absent) \<Rightarrow> poll_shows L C key name d es
     | Inr (None, absent) \<Rightarrow> absent \<longrightarrow> clean_polls 3 L C key name es)"

lemma recovery_loop_logs:
  assumes "context_stays_done A"
  shows "clean < 3 \<Longrightarrow> clean_polls clean L C key name older \<Longrightarrow>
    logs (recovery_loop n L C A key name clean) (\<lambda>r es. harmless_events es \<and> recovered L C key name r (es @ older))"
proof (induction n arbitrary: clean older)
  case 0
  then show ?case
    by (auto simp: ambiguous_recovery_result_def recovered_def confirmed_absence_observations_def intro!: logs_intros)
next
  case (Suc n)
  let ?Q = "\<lambda>r es. harmless_events es \<and> recovered L C key name r (es @ older)"
  define go where "go clean e = (if e \<noteq> None then ambiguous_recovery_result clean
      else do {
        finished \<leftarrow> quiet_api (dapi_wait A RecoveryCtx (do_recovery_poll C));
        if finished then ambiguous_recovery_result clean
        else recovery_loop n L C A key name clean })" for clean and e :: "unit option"
  have step: "recovery_loop (Suc n) L C A key name clean = do {
      r \<leftarrow> find_job_droplet_by_name L C A RecoveryCtx key name;
      case r of
        Inr (Some d) \<Rightarrow> ok (Some d, False)
      | Inr None \<Rightarrow>
          if clean + 1 \<ge> 3 then ambiguous_recovery_result (clean + 1)
          else do { e \<leftarrow> quiet_api (dapi_ctx_err A RecoveryCtx); go (clean + 1) (map_option (\<lambda>_. ()) e) }
      | Inl _ \<Rightarrow> do {
          clean \<leftarrow> do { e \<leftarrow> quiet_api (dapi_ctx_err A RecoveryCtx);
                       State_Monad.return (if e = None then 0 else clean) };
          e \<leftarrow> quiet_api (dapi_ctx_err A RecoveryCtx);
          go clean (map_option (\<lambda>_. ()) e) } }"
    unfolding recovery_loop.simps
    by (rule arg_cong [where f = "State_Monad.bind _"], rule ext)
      (auto simp: go_def confirmed_absence_observations_def split: sum.split option.split)
  have stop: "logs (ambiguous_recovery_result k) (\<lambda>r es'. harmless_events (es' @ es) \<and> recovered L C key name r (es' @ es @ older))"
    if "harmless_events es" and "k \<ge> 3 \<longrightarrow> clean_polls 3 L C key name (es @ older)" for k es
    using that by (auto simp: ambiguous_recovery_result_def recovered_def confirmed_absence_observations_def intro!: logs_intros)
  have went: "logs (go k e) (\<lambda>r es'. harmless_events (es' @ es) \<and> recovered L C key name r (es' @ es @ older))"
    if "harmless_events es" and "k < 3" and "e = None \<longrightarrow> clean_polls k L C key name (es @ older)" for k e es
  proof (cases e)
    case None
    with that have polls: "clean_polls k L C key name (es @ older)" by simp
    have "logs (recovery_loop n L C A key name k)
        (\<lambda>r es'. harmless_events (es' @ es) \<and> recovered L C key name r (es' @ es @ older))"
      by (rule logs_mono [OF Suc.IH [OF that(2) polls]]) (use that(1) in simp)
    with that stop [of es k] None show ?thesis
      unfolding go_def by (auto intro!: logs_bind_quiet)
  next
    case (Some u)
    with that stop [of es k] show ?thesis unfolding go_def by simp
  qed
  show ?case
    unfolding step
  proof (rule logs_bind [OF polled_logs])
    fix r es assume r: "polled L C key name r es"
    show "logs (case r of
        Inr (Some d) \<Rightarrow> ok (Some d, False)
      | Inr None \<Rightarrow>
          if clean + 1 \<ge> 3 then ambiguous_recovery_result (clean + 1)
          else do { e \<leftarrow> quiet_api (dapi_ctx_err A RecoveryCtx); go (clean + 1) (map_option (\<lambda>_. ()) e) }
      | Inl _ \<Rightarrow> do {
          clean \<leftarrow> do { e \<leftarrow> quiet_api (dapi_ctx_err A RecoveryCtx);
                       State_Monad.return (if e = None then 0 else clean) };
          e \<leftarrow> quiet_api (dapi_ctx_err A RecoveryCtx);
          go clean (map_option (\<lambda>_. ()) e) })
        (\<lambda>r es'. harmless_events (es' @ es) \<and> recovered L C key name r ((es' @ es) @ older))" (is "?goal r")
    proof (cases r)
      case (Inl e)
      with r have quiet: "harmless_events es" by (simp add: polled_def)
      show "?goal r"
        unfolding Inl sum.case append.assoc
        by (rule logs_context_twice [OF assms]) (use Suc.prems(1) went [OF quiet] in simp_all)
    next
      case (Inr found)
      show "?goal r"
      proof (cases found)
        case None
        with r Inr have quiet: "harmless_events es" and "clean_poll L C key name es" by (auto simp: polled_def)
        then have polls: "clean_polls (clean + 1) L C key name (es @ older)" using Suc.prems(2) by auto
        with Suc.prems(1) stop [OF quiet, of "clean + 1"] went [OF quiet, of "clean + 1"] show ?thesis
          unfolding Inr None sum.case option.case append.assoc
          by (auto simp: not_le eval_nat_numeral less_Suc_eq intro!: logs_bind_quiet simp del: clean_polls.simps)
      next
        case (Some d)
        with r Inr show ?thesis by (auto simp: polled_def recovered_def intro!: logs_intros poll_shows_append)
      qed
    qed
  qed
qed

text \<open>
  How a creation whose request failed with \<open>err\<close> ends, in view of the events after the request: an
  error that decides the outcome is reported as it is; otherwise the droplet is found under its
  name, or three polls in a row have not shown it, or the outcome is reported as unknown.
\<close>

definition create_ended ::
    "cloud_lib \<Rightarrow> do_client \<Rightarrow> string \<Rightarrow> string \<Rightarrow> go_error \<Rightarrow> go_error + runner_instance \<Rightarrow> do_event list \<Rightarrow> bool" where
  "create_ended L C key name err r late \<longleftrightarrow>
    (if ambiguous_create_error err
     then (\<exists>d. r = Inr (droplet_instance d) \<and> poll_shows L C key name d late) \<or>
          (r = Inl (ErrWrap ''create droplet after confirmed absence: '' err) \<and> clean_polls 3 L C key name late) \<or>
          r = Inl (failed ErrCreateOutcomeUnknown (''create droplet: '' @ error_text err))
     else r = Inl (ErrWrap ''create droplet: '' err))"

definition creation_outcome ::
    "cloud_lib \<Rightarrow> do_client \<Rightarrow> runner_params \<Rightarrow> go_error + runner_instance \<Rightarrow> do_event list \<Rightarrow> bool" where
  "creation_outcome L C params r es \<longleftrightarrow>
    (\<forall>late rq f early. es = late @ CloudCreate rq f # early \<longrightarrow>
       (case f of
          None \<Rightarrow> \<exists>d. r = Inr (droplet_instance d)
        | Some err \<Rightarrow> create_ended L C (p_job_key params)
            (droplet_name L (p_job_key params) (p_provision_epoch params)) err r late))"

lemma recover_create_logs:
  assumes "context_stays_done A"
  shows "logs (recover_create L C A key name err)
    (\<lambda>r late. harmless_events late \<and> create_ended L C key name err r late)"
proof (cases "ambiguous_create_error err")
  case False
  then show ?thesis by (simp add: recover_create_def create_ended_def logs_ends)
next
  case True
  have "logs (reconcile_ambiguous_create L C A key name)
      (\<lambda>r es. harmless_events es \<and> recovered L C key name r es)"
    unfolding reconcile_ambiguous_create_def
    using recovery_loop_logs [OF assms, of 0 L C key name "[]" "lib_budget L"] by simp
  with True show ?thesis
    unfolding recover_create_def
    by simp (rule logs_check, assumption,
      auto simp: recovered_def create_ended_def split: option.splits prod.splits intro!: logs_intros)
qed

lemma only_creation:
  "harmless_events late \<Longrightarrow> harmless_events early \<Longrightarrow>
   late @ CloudCreate rq f # early = late' @ CloudCreate rq' f' # early' \<Longrightarrow> late' = late \<and> rq' = rq \<and> f' = f"
proof (induction late arbitrary: late')
  case Nil
  then show ?case by (cases late') (auto simp: list_all_iff)
next
  case (Cons e late)
  then show ?case by (cases late') auto
qed

lemma no_creation: "harmless_events es \<Longrightarrow> creation_outcome L C params r es"
  unfolding creation_outcome_def by (auto simp: list_all_iff)

lemma one_creation:
  assumes "harmless_events late" and "harmless_events early"
    and "case f of None \<Rightarrow> \<exists>d. r = Inr (droplet_instance d)
       | Some err \<Rightarrow> create_ended L C (p_job_key params)
           (droplet_name L (p_job_key params) (p_provision_epoch params)) err r late"
  shows "creation_outcome L C params r (late @ CloudCreate rq f # early)"
  unfolding creation_outcome_def using assms(3) only_creation [OF assms(1,2)] by blast

lemma reads_firewalls: "reads (validate_runner_firewalls L C A tags)"
  unfolding validate_runner_firewalls_def
  by (rule logs_mono [OF firewall_pages_logs]) (simp add: firewalls_checked_def)

text \<open>C37: When the request to create a droplet fails with an error that leaves the outcome open, the
  creation yields the one droplet that a complete later listing of the job showed under the requested
  name, or reports a confirmed absence after three complete listings in a row, each over all its
  pages, that showed only droplets of the controller and none of that name, or reports the outcome as
  unknown; an error that decides the outcome is reported at once, and a request that succeeds yields
  its droplet.\<close>

theorem digitalocean_creation_outcome:
  assumes "context_stays_done A"
  shows "logs (do_create_runner L C A params) (creation_outcome L C params)"
proof -
  let ?key = "p_job_key params"
  have find: "reads (do_find_runner L C A ?key)"
    by (rule logs_mono [OF find_logs]) simp
  have recover: "logs (recover_create L C A ?key (droplet_name L ?key (p_provision_epoch params)) err)
      (\<lambda>r late. creation_outcome L C params r (late @ CloudCreate rq (Some err) # es))"
    if "harmless_events es" for rq es err
    by (rule logs_mono [OF recover_create_logs [OF assms]]) (use that in \<open>auto intro!: one_creation\<close>)
  have created: "creation_outcome L C params (Inr (droplet_instance d)) (CloudCreate rq None # es)"
    if "harmless_events es" for rq es d
    using one_creation [where late = "[]" and early = es and f = None and rq = rq] that by simp blast
  show ?thesis
    unfolding do_create_runner_def
  proof (rule logs_check [OF find])
    fix existing :: "runner_instance option" and es :: "do_event list"
    assume es: "harmless_events es"
    show "logs (case existing of Some i \<Rightarrow> ok i | None \<Rightarrow>
        check id (validate_runner_firewalls L C A [do_controller_tag C, runner_job_tag L ?key])
          (\<lambda>_. case render_cloud_init (do_template C) params of
             Inl e \<Rightarrow> fail e
           | Inr user_data \<Rightarrow> do {
               let rq = droplet_create_request L C params user_data;
               r \<leftarrow> api (dapi_create A CallerCtx rq) (\<lambda>r. CloudCreate rq (failure_of r));
               case r of
                 Inr d \<Rightarrow> ok (droplet_instance d)
               | Inl err \<Rightarrow> recover_create L C A ?key (droplet_name L ?key (p_provision_epoch params)) err }))
        (\<lambda>r es'. creation_outcome L C params r (es' @ es))"
    proof (cases existing)
      case (Some i)
      with es show ?thesis by (auto intro!: logs_intros no_creation)
    next
      case None
      show ?thesis
        unfolding None option.case
        by (rule logs_check [OF reads_firewalls])
          (use es in \<open>auto simp: Let_def failure_of_def split: sum.split
             intro!: logs_intros recover created intro: no_creation\<close>)
    qed
  qed (rule no_creation)
qed

text \<open>An account in which a creation times out and no droplet ever shows up.\<close>

definition sample_lib :: cloud_lib where
  "sample_lib = \<lparr>lib_sha256 = (\<lambda>s. ''hash''), lib_rfc3339 = (\<lambda>s. Inr 0),
     lib_rfc3339_nano = (\<lambda>s. Inr 0), lib_parse_files = (\<lambda>s. Inl (ErrText ''no file'')), lib_budget = 9\<rparr>"

definition sample_do_client :: do_client where
  "sample_do_client = \<lparr>do_template = Some (\<lambda>p. Inr ''#cloud-config''), do_region = ''nyc3'', do_size = ''s'',
     do_image = ''ubuntu'', do_ssh_fingerprints = [], do_controller_tag = ''runner-controller-c1'',
     do_vpc_uuid = ''v'', do_firewall_id = ''f1'', do_recovery_timeout = 15 * second, do_recovery_poll = 2 * second\<rparr>"

definition silent_account :: "unit do_api" where
  "silent_account = \<lparr>
     dapi_firewalls = (\<lambda>ctx page x. (Inr ([\<lparr>fw_id = ''f1'', fw_inbound_rules = 0, fw_tags = [''runner-controller-c1'']\<rparr>], False), x)),
     dapi_list_by_tag = (\<lambda>ctx tag page x. (Inr ([], False), x)),
     dapi_get = (\<lambda>ctx i x. (Inl (ErrProvider ''godo.ErrorResponse'' 404), x)),
     dapi_create = (\<lambda>ctx rq x. (Inl (ErrText ''timeout''), x)),
     dapi_delete = (\<lambda>ctx i x. (None, x)), dapi_ctx_err = (\<lambda>ctx x. (None, x)), dapi_wait = (\<lambda>ctx d x. (False, x))\<rparr>"

definition sample_runner :: runner_params where
  "sample_runner = \<lparr>p_job_key = ''o/r:1'', p_provision_epoch = 1, p_runner_name = ''n'', p_runner_jit_config = ''j'',
     p_runner_version = ''v'', p_runner_sha256 = ''h'', p_chef_installer_sha256 = ''h''\<rparr>"

definition silent_creation :: "(go_error + runner_instance) \<times> (unit, do_event) cloud" where
  "silent_creation = run_state (do_create_runner sample_lib sample_do_client silent_account sample_runner) (fresh_cloud ())"

lemma silent_creation_ends:
  "fst silent_creation = Inl (ErrWrap ''create droplet after confirmed absence: '' (ErrText ''timeout''))"
  by code_simp

lemma digitalocean_creation_outcome_witness:
  "context_stays_done silent_account \<and>
   creation_outcome sample_lib sample_do_client sample_runner (fst silent_creation) (cl_log (snd silent_creation))"
proof -
  have still: "context_stays_done silent_account"
    by (simp add: context_stays_done_def silent_account_def)
  have "run_state (do_create_runner sample_lib sample_do_client silent_account sample_runner) (fresh_cloud ()) =
      (fst silent_creation, snd silent_creation)"
    by (simp add: silent_creation_def)
  from logsD [OF digitalocean_creation_outcome [OF still] this] still show ?thesis
    by (auto simp: fresh_cloud_def)
qed

end
