(* ===== verification/Router.thy ===== *)
theory Router
  imports Webhook_Ingress
begin

text \<open>
  The installation router, \<open>cmd/installation-router/main.go\<close>: it reads the installation and the
  repository out of a delivery and hands the delivery to the controller of that installation, or to
  the one of that repository. An upstream is known by the address of its reverse proxy.
\<close>

section \<open>Routing\<close>

record router_request =
  rt_path :: string
  rt_delivery :: http_delivery

datatype route_result = Reject int string | Forward string http_delivery

text \<open>The anonymous struct of the event: the installation and the full name of the repository.\<close>

type_synonym route_event = "int \<times> string"

definition dec_route_event :: "route_event dec" where
  "dec_route_event = dec_struct
    [(''installation'', dec_struct [(''id'', field fst (\<lambda>v e. (v, snd e)) dec_int64)]),
     (''repository'', dec_struct [(''full_name'', field snd (\<lambda>v e. (fst e, v)) dec_string)])]"

type_synonym routes = "(int \<times> string) list"

type_synonym repository_routes = "((int \<times> string) \<times> string) list"

text \<open>The body is read with the limit of one megabyte, and handed on as it was read.\<close>

definition installation_router ::
    "(string \<Rightarrow> json option) \<Rightarrow> routes \<Rightarrow> repository_routes \<Rightarrow> router_request \<Rightarrow> route_result" where
  "installation_router parse routes repositories rq =
    (let d = rt_delivery rq in
     if hd_method d \<noteq> ''POST'' \<or> rt_path rq \<noteq> ''/webhook'' then Reject 404 ''not found''
     else case read_body d of
       None \<Rightarrow> Reject 400 ''invalid request''
     | Some body \<Rightarrow>
         (case unmarshal parse dec_route_event (0, '''') body of
            Inl e \<Rightarrow> Reject 400 ''invalid request''
          | Inr (installation, full_name) \<Rightarrow>
              (case map_of routes installation of
                 None \<Rightarrow> Reject 403 ''installation not authorized''
               | Some upstream \<Rightarrow>
                   let upstream = (case map_of repositories (installation, to_lower full_name) of
                                     Some selected \<Rightarrow> selected | None \<Rightarrow> upstream)
                   in Forward upstream (d\<lparr>hd_body := Inr body\<rparr>))))"

section \<open>Configuration\<close>

text \<open>
  \<open>main\<close> ends the process with a message when the environment is not in order. The two entries of
  its map come in an order that Go leaves open, an argument here.
\<close>

definition positive_id :: "string \<Rightarrow> int option" where
  "positive_id v = (case parse_int v of Some n \<Rightarrow> if n \<le> 0 then None else Some n | None \<Rightarrow> None)"

fun route_entries :: "(string \<Rightarrow> string) \<Rightarrow> (string \<times> string) list \<Rightarrow> routes \<Rightarrow> string + routes" where
  "route_entries getenv [] routes = Inr routes"
| "route_entries getenv ((key, address) # entries) routes =
    (case positive_id (getenv key) of
       None \<Rightarrow> Inl (''invalid '' @ key)
     | Some i \<Rightarrow>
         if map_of routes i \<noteq> None then Inl ''installation identities must differ''
         else route_entries getenv entries ((i, address) # routes))"

definition router_entries :: "(string \<times> string) list" where
  "router_entries =
    [(''LEGACY_INSTALLATION_ID'', ''http://127.0.0.1:8080''),
     (''KADUPUL_INSTALLATION_ID'', ''http://127.0.0.1:8081'')]"

definition router_config ::
    "(string \<Rightarrow> string) \<Rightarrow> (string \<times> string) list \<Rightarrow> string + (routes \<times> repository_routes)" where
  "router_config getenv entries =
    (case route_entries getenv entries [] of
       Inl message \<Rightarrow> Inl message
     | Inr routes \<Rightarrow>
         if getenv ''MANTL_RUNNERS_ENABLED'' = ''true''
         then case positive_id (getenv ''LEGACY_INSTALLATION_ID'') of
                None \<Rightarrow> Inl ''invalid Mantl installation identity''
              | Some i \<Rightarrow> Inr (routes, [((i, ''somethingwithproof/mantl''), ''http://127.0.0.1:8083'')])
         else Inr (routes, []))"

end
