(* ===== verification/Router_Properties.thy ===== *)
theory Router_Properties
  imports Router Webhook_Properties
begin

text \<open>
  The router and the controllers read the same delivery: what the router selects by is what the
  controller that accepts the delivery authorizes.
\<close>

section \<open>Two readings of one document\<close>

text \<open>
  A decoder agrees with another one for a part of its target: whenever it succeeds, so does the
  other, with the part of its result.
\<close>

definition reads_part :: "('a \<Rightarrow> 'b) \<Rightarrow> 'a dec \<Rightarrow> 'b dec \<Rightarrow> bool" where
  "reads_part part d d' \<longleftrightarrow>
    (\<forall>j a. part (fst (d j a)) = fst (d' j (part a)) \<and> (snd (d j a) \<longrightarrow> snd (d' j (part a))))"

definition reads_other :: "('a \<Rightarrow> 'b) \<Rightarrow> 'a dec \<Rightarrow> bool" where
  "reads_other part d \<longleftrightarrow> (\<forall>j a. part (fst (d j a)) = part a)"

fun part_of_field :: "('a \<Rightarrow> 'b) \<Rightarrow> 'a dec option \<Rightarrow> 'b dec option \<Rightarrow> bool" where
  "part_of_field part None None = True"
| "part_of_field part (Some d) None = reads_other part d"
| "part_of_field part (Some d) (Some d') = reads_part part d d'"
| "part_of_field part None (Some d') = False"

definition member :: "(string \<times> 'a dec) list \<Rightarrow> string \<Rightarrow> json \<Rightarrow> 'a \<Rightarrow> 'a \<times> bool" where
  "member fs k j a = (case find_field fs k of None \<Rightarrow> (a, True) | Some d \<Rightarrow> d j a)"

lemma members_step:
  "fst (dec_members fs ((k, j) # kvs) a) = fst (dec_members fs kvs (fst (member fs k j a)))"
  "snd (dec_members fs ((k, j) # kvs) a) \<longleftrightarrow>
     snd (member fs k j a) \<and> snd (dec_members fs kvs (fst (member fs k j a)))"
  by (simp_all add: member_def split: prod.split option.split)

lemma member_part:
  assumes "part_of_field part (find_field fs k) (find_field fs' k)"
  shows "part (fst (member fs k j a)) = fst (member fs' k j (part a)) \<and>
    (snd (member fs k j a) \<longrightarrow> snd (member fs' k j (part a)))"
  using assms unfolding member_def
  by (cases "find_field fs k"; cases "find_field fs' k") (simp_all add: reads_part_def reads_other_def)

lemma members_part:
  assumes "\<And>k. part_of_field part (find_field fs k) (find_field fs' k)"
  shows "part (fst (dec_members fs kvs a)) = fst (dec_members fs' kvs (part a)) \<and>
    (snd (dec_members fs kvs a) \<longrightarrow> snd (dec_members fs' kvs (part a)))"
proof (induction kvs arbitrary: a)
  case (Cons kv kvs)
  obtain k j where kv: "kv = (k, j)" by fastforce
  show ?case
    unfolding kv members_step
    using Cons.IH [of "fst (member fs k j a)"] member_part [OF assms [of k], of j a] by simp
qed simp

lemma struct_part:
  assumes "\<And>k. part_of_field part (find_field fs k) (find_field fs' k)"
  shows "reads_part part (dec_struct fs) (dec_struct fs')"
  using members_part [OF assms] by (auto simp: reads_part_def dec_struct_def split: json.split)

lemma unmarshal_part:
  assumes "reads_part part d d'" and "unmarshal parse d zero text = Inr a"
  shows "unmarshal parse d' (part zero) text = Inr (part a)"
proof -
  obtain j where j: "parse text = Some j" "d j zero = (a, True)"
    using assms(2) by (auto simp: unmarshal_def split: option.splits prod.splits bool.splits)
  have "d' j (part zero) = (part a, True)"
    using assms(1) j(2) unfolding reads_part_def by (metis fst_conv snd_conv prod.collapse)
  with j(1) show ?thesis by (simp add: unmarshal_def)
qed

text \<open>When the names of a struct are in lower case, its fields are found by the name without case.\<close>

lemma find_field_lower:
  assumes "list_all (\<lambda>(n, d). to_lower n = n) fs"
  shows "find_field fs k = map_of fs (to_lower k)"
proof (cases "map_of fs k")
  case None
  have "List.find (\<lambda>(n, d). equal_fold n k) fs = map_option (Pair (to_lower k)) (map_of fs (to_lower k))"
    using assms by (induction fs) (auto simp: equal_fold_def)
  with None show ?thesis by (simp add: find_field_def option.map_comp comp_def option.map_ident)
next
  case (Some d)
  then have "to_lower k = k" using assms by (auto simp: list_all_iff dest!: map_of_SomeD)
  with Some show ?thesis by (simp add: find_field_def)
qed

lemma struct_part_lower:
  assumes "list_all (\<lambda>(n, d). to_lower n = n) fs" and "list_all (\<lambda>(n, d). to_lower n = n) fs'"
    and "\<And>k. part_of_field part (map_of fs k) (map_of fs' k)"
  shows "reads_part part (dec_struct fs) (dec_struct fs')"
  by (rule struct_part) (simp add: find_field_lower assms)

lemma struct_other:
  assumes "\<And>n d. (n, d) \<in> set fs \<Longrightarrow> reads_other part d"
  shows "reads_other part (dec_struct fs)"
proof -
  have found: "find_field fs k = Some d \<Longrightarrow> reads_other part d" for k d
    using assms by (auto simp: find_field_def find_Some_iff split: option.splits dest!: map_of_SomeD) (metis nth_mem)
  then have one: "part (fst (member fs k j a)) = part a" for k j a
    by (auto simp: member_def reads_other_def split: option.split)
  have "part (fst (dec_members fs kvs a)) = part a" for kvs a
  proof (induction kvs arbitrary: a)
    case (Cons kv kvs)
    then show ?case by (cases kv) (simp only: members_step one)
  qed simp
  then show ?thesis by (auto simp: reads_other_def dec_struct_def split: json.split)
qed

lemma field_other: "(\<And>v a. part (put v a) = part a) \<Longrightarrow> reads_other part (field sel put d)"
  by (auto simp: reads_other_def field_def split: prod.split)

lemma field_part:
  assumes "\<And>v a. part (put v a) = put' (f v) (part a)" and "\<And>a. f (sel a) = sel' (part a)" and "reads_part f d d'"
  shows "reads_part part (field sel put d) (field sel' put' d')"
  using assms unfolding reads_part_def field_def by (auto split: prod.split) (metis fst_conv snd_conv)+

definition routed_part :: "workflow_job_event \<Rightarrow> route_event" where
  "routed_part event = (ev_installation_id event, ro_full_name (ev_repo event))"

lemma reads_part_refl: "reads_part id d d"
  by (simp add: reads_part_def)

lemma lower_names:
  "to_lower ''id'' = ''id''" "to_lower ''action'' = ''action''" "to_lower ''workflow_job'' = ''workflow_job''"
  "to_lower ''repository'' = ''repository''" "to_lower ''installation'' = ''installation''"
  "to_lower ''full_name'' = ''full_name''" "to_lower ''name'' = ''name''" "to_lower ''private'' = ''private''"
  "to_lower ''owner'' = ''owner''"
  by code_simp+

definition repository_part :: "int \<Rightarrow> repo_info \<Rightarrow> route_event" where
  "repository_part i repo = (i, ro_full_name repo)"

lemma repository_fields:
  "reads_part (repository_part i) (field ro_full_name (\<lambda>v. ro_full_name_update (\<lambda>_. v)) dec_string)
     (field snd (\<lambda>v e. (fst e, v)) dec_string)"
  "reads_other (repository_part i) (field ro_name (\<lambda>v. ro_name_update (\<lambda>_. v)) dec_string)"
  "reads_other (repository_part i) (field ro_private (\<lambda>v. ro_private_update (\<lambda>_. v)) dec_bool)"
  "reads_other (repository_part i)
     (dec_struct [(''login'', field ro_owner_login (\<lambda>v. ro_owner_login_update (\<lambda>_. v)) dec_string)])"
  by (rule field_part [where f = id], simp_all add: repository_part_def reads_part_refl field_other)
    (rule struct_other, simp add: repository_part_def field_other)

lemma repository_reads:
  "reads_part (repository_part i) dec_repo_info
     (dec_struct [(''full_name'', field snd (\<lambda>v e. (fst e, v)) dec_string)])"
  unfolding dec_repo_info_def
  by (rule struct_part_lower) (simp_all add: lower_names repository_fields)

lemma installation_reads:
  "reads_part routed_part
     (dec_struct [(''id'', field ev_installation_id (\<lambda>v. ev_installation_id_update (\<lambda>_. v)) dec_int64)])
     (dec_struct [(''id'', field fst (\<lambda>v e. (v, snd e)) dec_int64)])"
  by (rule struct_part_lower)
    (auto simp: lower_names routed_part_def intro!: field_part [where f = id] reads_part_refl)

lemma event_repository_reads:
  "reads_part routed_part (field ev_repo (\<lambda>v. ev_repo_update (\<lambda>_. v)) dec_repo_info)
     (dec_struct [(''full_name'', field snd (\<lambda>v e. (fst e, v)) dec_string)])"
  using repository_reads
  by (auto simp: reads_part_def field_def routed_part_def repository_part_def split: prod.split) (metis fst_conv snd_conv)+

lemma event_reads: "reads_part routed_part dec_workflow_job_event dec_route_event"
  unfolding dec_workflow_job_event_def dec_route_event_def
  by (rule struct_part_lower)
    (auto simp: lower_names routed_part_def [abs_def] intro!: field_other
      installation_reads [unfolded routed_part_def [abs_def]] event_repository_reads [unfolded routed_part_def [abs_def]])

section \<open>Routing\<close>

text \<open>C40: The router hands a delivery on unchanged, and if the controller it reaches accepts it, then
  it was routed by what that controller authorized: to the upstream of the installation that the
  controller is configured with, or to the one of that installation and a repository that the
  controller allows. No other upstream can get a delivery accepted.\<close>

theorem accepted_delivery_was_routed_to_its_controller:
  assumes "installation_router (e_json E) routes repositories rq = Forward upstream d"
    and "run_state (serve_http E h d) w = ((202, text), w')"
  shows "d = rt_delivery rq \<and>
    (\<exists>repository \<in> set (h_allowed_repositories h).
       map_of repositories (h_installation_id h, repository) = Some upstream \<or>
       map_of repositories (h_installation_id h, repository) = None \<and>
         map_of routes (h_installation_id h) = Some upstream)"
proof -
  obtain body installation full_name first where
      body: "read_body (rt_delivery rq) = Some body" "d = (rt_delivery rq)\<lparr>hd_body := Inr body\<rparr>"
    and routed: "unmarshal (e_json E) dec_route_event (0, '''') body = Inr (installation, full_name)"
    and route: "map_of routes installation = Some first"
      "upstream = (case map_of repositories (installation, to_lower full_name) of Some s \<Rightarrow> s | None \<Rightarrow> first)"
    using assms(1) unfolding installation_router_def Let_def
    by (auto split: if_splits option.splits sum.splits prod.splits)
  have same: "d = rt_delivery rq"
    using body by (auto simp: read_body_def split: sum.splits if_splits)
  obtain b event x where served: "read_body d = Some b"
      "unmarshal (e_json E) dec_workflow_job_event zero_event b = Inr event"
      "run_state (serve_event E h d event) (w\<lparr>w_outside := x\<rparr>) = ((202, text), w')"
    using assms(2) by (rule serve_http_event)
  have "b = body" using served(1) same body(1) by simp
  with unmarshal_part [OF event_reads served(2)] routed
  have part: "installation = ev_installation_id event" "full_name = ro_full_name (ev_repo event)"
    by (simp_all add: routed_part_def zero_event_def)
  obtain repository where target: "ev_installation_id event = h_installation_id h"
      "validate_repository h (ev_repo event) = Inr (repository, True)"
      "repository = to_lower (ro_owner_login (ev_repo event) @ ''/'' @ ro_name (ev_repo event))"
      "repository \<in> set (h_allowed_repositories h)"
    using served(3) by (rule serve_event_target)
  have "to_lower full_name = repository"
    using target(2,3) part(2) by (auto simp: validate_repository_def Let_def equal_fold_def split: if_splits)
  with route part target same show ?thesis
    by (auto split: option.splits)
qed

text \<open>The delivery of the sample is routed to its controller and accepted there.\<close>

definition sample_route :: router_request where
  "sample_route = \<lparr>rt_path = ''/webhook'', rt_delivery = sample_delivery\<rparr>"

theorem accepted_delivery_was_routed_to_its_controller_witness:
  "\<exists>w'. installation_router (e_json calm) [(5, ''http://127.0.0.1:8080'')] [] sample_route =
      Forward ''http://127.0.0.1:8080'' sample_delivery \<and>
    run_state (serve_http calm sample_handler sample_delivery) (world_of (store_with [])) = ((202, ''queued''), w') \<and>
    map_of [(5, ''http://127.0.0.1:8080'')] (h_installation_id sample_handler) = Some ''http://127.0.0.1:8080''"
proof -
  have route: "installation_router (e_json calm) [(5, ''http://127.0.0.1:8080'')] [] sample_route =
      Forward ''http://127.0.0.1:8080'' sample_delivery"
  proof -
    have "unmarshal (e_json calm) dec_route_event (0, '''') ''{}'' = Inr (5, ''acme/app'')"
      using unmarshal_part [OF event_reads sample_event] by (simp add: routed_part_def zero_event_def)
    moreover have "read_body sample_delivery = Some ''{}''" by (rule sample_checks)
    moreover have "hd_method sample_delivery = ''POST''" "sample_delivery\<lparr>hd_body := Inr ''{}''\<rparr> = sample_delivery"
      by (simp_all add: sample_delivery_def)
    ultimately show ?thesis by (simp add: installation_router_def sample_route_def Let_def)
  qed
  obtain w' where "run_state (serve_http calm sample_handler sample_delivery) (world_of (store_with [])) =
      ((202, ''queued''), w')" using sample_delivery_queued by blast
  with route accepted_delivery_was_routed_to_its_controller [OF route this] show ?thesis by auto
qed

end
