(* ===== verification/Startup.thy ===== *)
theory Startup
  imports Webhook_Ingress Cloud_DigitalOcean Cloud_AWS Cloud_GCP Cloud_Azure
begin

text \<open>
  The controller process, \<open>cmd/webhook/main.go\<close>: its configuration from the environment, the choice
  of the cloud adapter, the validation of the GitHub token with retries, and the order of start and
  shutdown.

  Libraries are parameters: the environment variables, \<open>time.ParseDuration\<close> and the text of a
  duration, and the reading of files.
\<close>

record process_env =
  pe_getenv :: "string \<Rightarrow> string"
  pe_parse_duration :: "string \<Rightarrow> duration option"
  pe_duration_text :: "duration \<Rightarrow> string"
  pe_read_file :: "string \<Rightarrow> go_error + string"

text \<open>The Go idiom \<open>if v, err = f(); err != nil { return cfg, err }\<close>.\<close>

definition and_then :: "go_error + 'a \<Rightarrow> ('a \<Rightarrow> go_error + 'b) \<Rightarrow> go_error + 'b" where
  "and_then r f = (case r of Inl e \<Rightarrow> Inl e | Inr a \<Rightarrow> f a)"

lemma and_then_Inr: "and_then r f = Inr b \<longleftrightarrow> (\<exists>a. r = Inr a \<and> f a = Inr b)"
  by (cases r) (simp_all add: and_then_def)

section \<open>Environment variables\<close>

definition not_set :: "string \<Rightarrow> go_error" where
  "not_set key = ErrText (''required environment variable '' @ key @ '' is not set'')"

definition required_env :: "process_env \<Rightarrow> string \<Rightarrow> go_error + string" where
  "required_env P key =
    (let v = trim_space (pe_getenv P key) in if v = '''' then Inl (not_set key) else Inr v)"

definition required_raw_env :: "process_env \<Rightarrow> string \<Rightarrow> go_error + string" where
  "required_raw_env P key =
    (let v = pe_getenv P key in if v = '''' then Inl (not_set key) else Inr v)"

fun required_values :: "process_env \<Rightarrow> string list \<Rightarrow> string gomap \<Rightarrow> go_error + string gomap" where
  "required_values P [] values = Inr values"
| "required_values P (key # keys) values =
    and_then (required_env P key) (\<lambda>v. required_values P keys (AList.update key v values))"

definition env_or_default :: "process_env \<Rightarrow> string \<Rightarrow> string \<Rightarrow> string" where
  "env_or_default P key fallback =
    (let v = trim_space (pe_getenv P key) in if v \<noteq> '''' then v else fallback)"

definition positive_integer :: "string \<Rightarrow> string \<Rightarrow> go_error + int" where
  "positive_integer key v =
    (case parse_int v of
       Some n \<Rightarrow> if n \<le> 0 then Inl (ErrText (key @ '' must be a positive integer'')) else Inr n
     | None \<Rightarrow> Inl (ErrText (key @ '' must be a positive integer'')))"

definition required_positive_int64 :: "process_env \<Rightarrow> string \<Rightarrow> go_error + int" where
  "required_positive_int64 P key = and_then (required_env P key) (positive_integer key)"

definition env_positive_int64 :: "process_env \<Rightarrow> string \<Rightarrow> int \<Rightarrow> go_error + int" where
  "env_positive_int64 P key fallback = positive_integer key (env_or_default P key (itoa fallback))"

definition env_positive_int :: "process_env \<Rightarrow> string \<Rightarrow> int \<Rightarrow> go_error + int" where
  "env_positive_int P key fallback = positive_integer key (env_or_default P key (itoa fallback))"

text \<open>\<open>strconv.ParseBool\<close> and \<open>strconv.FormatBool\<close>.\<close>

definition parse_bool :: "string \<Rightarrow> bool option" where
  "parse_bool s =
    (if s \<in> set [''1'', ''t'', ''T'', ''TRUE'', ''true'', ''True''] then Some True
     else if s \<in> set [''0'', ''f'', ''F'', ''FALSE'', ''false'', ''False''] then Some False
     else None)"

definition format_bool :: "bool \<Rightarrow> string" where
  "format_bool b = (if b then ''true'' else ''false'')"

definition env_bool_value :: "process_env \<Rightarrow> string \<Rightarrow> bool \<Rightarrow> go_error + bool" where
  "env_bool_value P key fallback =
    (case parse_bool (env_or_default P key (format_bool fallback)) of
       None \<Rightarrow> Inl (ErrText (key @ '' must be true or false''))
     | Some b \<Rightarrow> Inr b)"

definition split_csv :: "string \<Rightarrow> string list" where
  "split_csv v = trimmed_pieces (CHR '','') v"

definition env_duration :: "process_env \<Rightarrow> string \<Rightarrow> duration \<Rightarrow> go_error + duration" where
  "env_duration P key fallback =
    (case pe_parse_duration P (env_or_default P key (pe_duration_text P fallback)) of
       Some d \<Rightarrow> if d \<le> 0 then Inl (ErrText (key @ '' must be a positive duration'')) else Inr d
     | None \<Rightarrow> Inl (ErrText (key @ '' must be a positive duration'')))"

section \<open>The configuration\<close>

record runtime_config =
  rc_app_id :: int
  rc_installation_id :: int
  rc_private_key_path :: string
  rc_state_file :: string
  rc_required_label :: string
  rc_listen_addr :: string
  rc_webhook_secret :: string
  rc_runner_version :: string
  rc_runner_sha256 :: string
  rc_chef_installer_sha256 :: string
  rc_allowed_labels :: "string list"
  rc_allowed_repositories :: "string list"
  rc_allowed_public_repositories :: "string list"
  rc_runner_group_id :: int
  rc_worker_count :: int
  rc_max_live_runners :: int
  rc_max_attempts :: int
  rc_max_runner_age :: duration
  rc_cancelled_runner_ttl :: duration
  rc_registration_timeout :: duration
  rc_liveness_settle_window :: duration
  rc_liveness_confirmations :: int
  rc_deleted_retention :: duration

definition nonempty_list :: "string \<Rightarrow> string list \<Rightarrow> go_error + string list" where
  "nonempty_list key values =
    (if length values = 0
     then Inl (ErrText (key @ '' must contain at least one non-empty value'')) else Inr values)"

definition load_runtime_config :: "process_env \<Rightarrow> go_error + runtime_config" where
  "load_runtime_config P =
    and_then (required_positive_int64 P ''APP_ID'') (\<lambda>app.
    and_then (required_positive_int64 P ''APP_INSTALLATION_ID'') (\<lambda>installation.
    and_then (required_env P ''APP_PRIVATE_KEY_FILE'') (\<lambda>key_path.
    and_then (required_env P ''ALLOWED_REPOSITORIES'') (\<lambda>repositories.
    and_then (nonempty_list ''ALLOWED_REPOSITORIES'' (split_csv repositories)) (\<lambda>repositories.
    and_then (required_env P ''ALLOWED_LABELS'') (\<lambda>labels.
    and_then (nonempty_list ''ALLOWED_LABELS'' (split_csv labels)) (\<lambda>labels.
    and_then (required_raw_env P ''WEBHOOK_SECRET'') (\<lambda>secret.
    and_then (required_env P ''RUNNER_VERSION'') (\<lambda>version.
    and_then (required_env P ''RUNNER_SHA256'') (\<lambda>sha.
    and_then (required_env P ''CHEF_INSTALLER_SHA256'') (\<lambda>chef.
    and_then (env_positive_int64 P ''RUNNER_GROUP_ID'' 1) (\<lambda>group_id.
    and_then (env_positive_int P ''WORKER_COUNT'' 4) (\<lambda>workers.
    and_then (env_positive_int P ''MAX_LIVE_RUNNERS'' 20) (\<lambda>live.
    and_then (env_positive_int P ''MAX_ATTEMPTS'' 5) (\<lambda>attempts.
    and_then (env_duration P ''MAX_RUNNER_AGE'' (6 * hour)) (\<lambda>age.
    and_then (env_duration P ''CANCELLED_RUNNER_TTL'' (5 * minute)) (\<lambda>cancelled.
    and_then (env_duration P ''RUNNER_REGISTRATION_TIMEOUT'' (10 * minute)) (\<lambda>registration.
    and_then (env_duration P ''LIVENESS_SETTLE_WINDOW'' (2 * minute)) (\<lambda>settle.
    and_then (env_positive_int P ''LIVENESS_CONFIRMATIONS'' 3) (\<lambda>confirmations.
    and_then (env_duration P ''DELETED_RECORD_RETENTION'' (24 * hour)) (\<lambda>retention.
    Inr \<lparr>rc_app_id = app, rc_installation_id = installation, rc_private_key_path = key_path,
         rc_state_file = env_or_default P ''STATE_FILE'' ''/var/lib/github-runners/state.json'',
         rc_required_label = env_or_default P ''REQUIRED_LABEL'' ''self-hosted'',
         rc_listen_addr = env_or_default P ''LISTEN_ADDR'' '':8080'',
         rc_webhook_secret = secret, rc_runner_version = version, rc_runner_sha256 = sha,
         rc_chef_installer_sha256 = chef, rc_allowed_labels = labels,
         rc_allowed_repositories = repositories,
         rc_allowed_public_repositories = split_csv (pe_getenv P ''ALLOWED_PUBLIC_REPOSITORIES''),
         rc_runner_group_id = group_id, rc_worker_count = workers, rc_max_live_runners = live,
         rc_max_attempts = attempts, rc_max_runner_age = age, rc_cancelled_runner_ttl = cancelled,
         rc_registration_timeout = registration, rc_liveness_settle_window = settle,
         rc_liveness_confirmations = confirmations,
         rc_deleted_retention = retention\<rparr>)))))))))))))))))))))"

section \<open>The cloud adapter\<close>

text \<open>What the SDK constructors of the providers may answer.\<close>

record sdk_env =
  sdk_aws :: "string \<Rightarrow> go_error option"
  sdk_gcp :: "go_error option"
  sdk_azure :: "(string \<times> go_error) option"

datatype cloud_client =
    DigitalOceanClient do_client
  | AwsClient aws_client
  | GcpClient gcp_client
  | AzureClient azure_client

definition required_value :: "string gomap \<Rightarrow> string \<Rightarrow> string" where
  "required_value values key = (case map_of values key of Some v \<Rightarrow> v | None \<Rightarrow> '''')"

definition digitalocean_config :: "process_env \<Rightarrow> string \<Rightarrow> string \<Rightarrow> go_error + do_config" where
  "digitalocean_config P controller_id cloud_init =
    and_then (required_values P [''DIGITALOCEAN_TOKEN'', ''DO_VPC_UUID'', ''DO_FIREWALL_ID''] []) (\<lambda>required.
    Inr \<lparr>dc_token = required_value required ''DIGITALOCEAN_TOKEN'',
         dc_region = env_or_default P ''DO_REGION'' ''nyc3'',
         dc_size = env_or_default P ''DO_SIZE'' ''s-4vcpu-8gb-amd'',
         dc_image = env_or_default P ''DO_IMAGE'' ''ubuntu-24-04-x64'',
         dc_ssh_fingerprints = split_csv (pe_getenv P ''DO_SSH_FINGERPRINTS''),
         dc_cloud_init_path = cloud_init, dc_controller_id = controller_id,
         dc_vpc_uuid = required_value required ''DO_VPC_UUID'',
         dc_firewall_id = required_value required ''DO_FIREWALL_ID''\<rparr>)"

definition aws_runtime_config :: "process_env \<Rightarrow> string \<Rightarrow> string \<Rightarrow> bool \<Rightarrow> go_error + aws_config" where
  "aws_runtime_config P controller_id cloud_init spot =
    and_then (required_values P [''AWS_REGION'', ''AWS_AMI_ID'', ''AWS_INSTANCE_TYPE'', ''AWS_SUBNET_ID'',
      ''AWS_SECURITY_GROUP_IDS''] []) (\<lambda>required.
    and_then (env_bool_value P ''AWS_EXTERNAL_IP'' False) (\<lambda>external_ip.
    Inr \<lparr>ac_region = required_value required ''AWS_REGION'', ac_ami = required_value required ''AWS_AMI_ID'',
         ac_instance_type = required_value required ''AWS_INSTANCE_TYPE'',
         ac_subnet_id = required_value required ''AWS_SUBNET_ID'',
         ac_security_group_ids = split_csv (required_value required ''AWS_SECURITY_GROUP_IDS''),
         ac_instance_profile_arn = pe_getenv P ''AWS_INSTANCE_PROFILE_ARN'',
         ac_key_name = pe_getenv P ''AWS_KEY_NAME'', ac_cloud_init_path = cloud_init,
         ac_controller_id = controller_id, ac_spot = spot, ac_external_ip = external_ip\<rparr>))"

definition gcp_runtime_config :: "process_env \<Rightarrow> string \<Rightarrow> string \<Rightarrow> bool \<Rightarrow> go_error + gcp_config" where
  "gcp_runtime_config P controller_id cloud_init spot =
    and_then (required_values P [''GCP_PROJECT_ID'', ''GCP_ZONE'', ''GCP_MACHINE_TYPE'', ''GCP_SOURCE_IMAGE'',
      ''GCP_SUBNETWORK'', ''GCP_RUNNER_SERVICE_ACCOUNT_EMAIL''] []) (\<lambda>required.
    and_then (env_bool_value P ''GCP_EXTERNAL_IP'' False) (\<lambda>external_ip.
    Inr \<lparr>gf_project_id = required_value required ''GCP_PROJECT_ID'',
         gf_zone = required_value required ''GCP_ZONE'',
         gf_machine_type = required_value required ''GCP_MACHINE_TYPE'',
         gf_source_image = required_value required ''GCP_SOURCE_IMAGE'',
         gf_subnetwork = required_value required ''GCP_SUBNETWORK'', gf_cloud_init_path = cloud_init,
         gf_controller_id = controller_id,
         gf_service_account_email = required_value required ''GCP_RUNNER_SERVICE_ACCOUNT_EMAIL'',
         gf_spot = spot, gf_external_ip = external_ip\<rparr>))"

definition azure_runtime_config :: "process_env \<Rightarrow> string \<Rightarrow> string \<Rightarrow> bool \<Rightarrow> go_error + azure_config" where
  "azure_runtime_config P controller_id cloud_init spot =
    and_then (required_values P [''AZURE_SSH_PUBLIC_KEY_FILE'', ''AZURE_SUBSCRIPTION_ID'', ''AZURE_RESOURCE_GROUP'',
      ''AZURE_LOCATION'', ''AZURE_VM_SIZE'', ''AZURE_IMAGE'', ''AZURE_SUBNET_ID''] []) (\<lambda>required.
    case pe_read_file P (required_value required ''AZURE_SSH_PUBLIC_KEY_FILE'') of
      Inl e \<Rightarrow> Inl (ErrWrap ''read Azure SSH public key: '' e)
    | Inr ssh_key \<Rightarrow> Inr
        \<lparr>az_subscription_id = required_value required ''AZURE_SUBSCRIPTION_ID'',
         az_resource_group = required_value required ''AZURE_RESOURCE_GROUP'',
         az_location = required_value required ''AZURE_LOCATION'',
         az_vm_size = required_value required ''AZURE_VM_SIZE'', az_image = required_value required ''AZURE_IMAGE'',
         az_subnet_id = required_value required ''AZURE_SUBNET_ID'',
         az_admin_username = env_or_default P ''AZURE_ADMIN_USERNAME'' ''runneradmin'',
         az_ssh_public_key = trim_space ssh_key, az_cloud_init_path = cloud_init,
         az_controller_id = controller_id, az_spot = spot\<rparr>)"

definition new_compute_client :: "process_env \<Rightarrow> sdk_env \<Rightarrow> cloud_lib \<Rightarrow> go_error + cloud_client" where
  "new_compute_client P S L =
    (let provider = to_lower (env_or_default P ''COMPUTE_PROVIDER'' ''digitalocean'') in
     and_then (required_env P ''CONTROLLER_ID'') (\<lambda>controller_id.
     let cloud_init = env_or_default P ''CLOUD_INIT_PATH'' ''/opt/github-runners/cloud-init/runner.yaml.tmpl'' in
     and_then (env_bool_value P ''RUNNER_SPOT'' False) (\<lambda>spot.
       if provider = ''digitalocean'' then
         if spot
         then Inl (ErrText ''DigitalOcean does not expose a Spot VM equivalent; unset RUNNER_SPOT'')
         else and_then (digitalocean_config P controller_id cloud_init) (\<lambda>c.
              map_sum id DigitalOceanClient (new_do_client L c))
       else if provider = ''aws'' then
         and_then (aws_runtime_config P controller_id cloud_init spot) (\<lambda>c.
         map_sum id AwsClient (new_aws_client L (sdk_aws S) c))
       else if provider = ''gcp'' then
         and_then (gcp_runtime_config P controller_id cloud_init spot) (\<lambda>c.
         map_sum id GcpClient (new_gcp_client L (sdk_gcp S) c))
       else if provider = ''azure'' then
         and_then (azure_runtime_config P controller_id cloud_init spot) (\<lambda>c.
         map_sum id AzureClient (new_azure_client L (sdk_azure S) c))
       else Inl (ErrText (''unsupported COMPUTE_PROVIDER '' @ go_quote provider @
                          '' (expected digitalocean, aws, gcp, or azure)'')))))"

section \<open>Validation of the token\<close>

text \<open>
  What the retries depend on: the context, the validation, the clock, the jitter below a bound, and
  the select between the context and the timer, which answers whether the context won. The log
  keeps every validation with its outcome and every wait with the time it was decided.
\<close>

record 'x retry_env =
  re_ctx_err :: "'x \<Rightarrow> go_error option \<times> 'x"
  re_validate :: "'x \<Rightarrow> go_error option \<times> 'x"
  re_now :: "'x \<Rightarrow> time \<times> 'x"
  re_rand :: "int \<Rightarrow> 'x \<Rightarrow> int \<times> 'x"
  re_select :: "duration \<Rightarrow> 'x \<Rightarrow> bool \<times> 'x"

record retry_policy =
  rp_min_delay :: duration
  rp_jitter :: duration
  rp_max_elapsed :: duration
  rp_max_attempts :: nat

datatype retry_event = Validated "go_error option" | Waited time duration

type_synonym 'x retry_action = "('x, retry_event, go_error option) cloud_call"

definition wait_for_token_retry :: "'x retry_env \<Rightarrow> time \<Rightarrow> duration \<Rightarrow> 'x retry_action" where
  "wait_for_token_retry R now delay = do {
     finished \<leftarrow> api (re_select R delay) (\<lambda>_. Waited now delay);
     if finished then quiet_api (re_ctx_err R) else done_ok }"

definition retry_delay_of :: "'x retry_env \<Rightarrow> retry_policy \<Rightarrow> time \<Rightarrow> ('x, retry_event, duration) cloud_call" where
  "retry_delay_of R p reset_at = do {
     now \<leftarrow> quiet_api (re_now R);
     let delay = time_sub reset_at now;
     let delay = (if delay < rp_min_delay p then rp_min_delay p else delay);
     if rp_jitter p > 0
     then do { j \<leftarrow> quiet_api (re_rand R (rp_jitter p)); State_Monad.return (wrap64 (delay + j)) }
     else State_Monad.return delay }"

text \<open>The first argument counts the attempts left.\<close>

fun retry_loop :: "nat \<Rightarrow> 'x retry_env \<Rightarrow> (duration \<Rightarrow> string) \<Rightarrow> retry_policy \<Rightarrow> time \<Rightarrow> nat \<Rightarrow> 'x retry_action" where
  "retry_loop 0 R show_duration p started count =
     give_up (ErrText ''GitHub token-scope validation retry policy is invalid'')"
| "retry_loop (Suc n) R show_duration p started count = do {
     c \<leftarrow> quiet_api (re_ctx_err R);
     case c of Some e \<Rightarrow> give_up e | None \<Rightarrow> do {
     v \<leftarrow> api (re_validate R) Validated;
     case v of None \<Rightarrow> done_ok | Some err \<Rightarrow>
       (case rate_limit_reset err of
          None \<Rightarrow> give_up err
        | Some reset_at \<Rightarrow>
            if count = rp_max_attempts p
            then give_up (ErrWrap (''GitHub token-scope validation remained rate limited after '' @
                                   itoa (int count) @ '' attempts: '') err)
            else do {
              delay \<leftarrow> retry_delay_of R p reset_at;
              now \<leftarrow> quiet_api (re_now R);
              if now + delay > started + rp_max_elapsed p
              then give_up (ErrWrap (''GitHub token-scope validation throttle exceeds '' @
                                     show_duration (rp_max_elapsed p) @ '' startup budget: '') err)
              else do {
                _ \<leftarrow> quiet_api (re_now R);
                w \<leftarrow> wait_for_token_retry R now delay;
                case w of
                  Some e \<Rightarrow> give_up e
                | None \<Rightarrow> retry_loop n R show_duration p started (count + 1) } }) } }"

definition validate_with_policy ::
    "'x retry_env \<Rightarrow> (duration \<Rightarrow> string) \<Rightarrow> retry_policy \<Rightarrow> 'x retry_action" where
  "validate_with_policy R show_duration p = do {
     started \<leftarrow> quiet_api (re_now R);
     retry_loop (rp_max_attempts p) R show_duration p started 1 }"

definition token_retry_policy :: retry_policy where
  "token_retry_policy = \<lparr>rp_min_delay = 5 * second, rp_jitter = second, rp_max_elapsed = 5 * minute,
     rp_max_attempts = 5\<rparr>"

definition validate_github_token_scope :: "'x retry_env \<Rightarrow> (duration \<Rightarrow> string) \<Rightarrow> 'x retry_action" where
  "validate_github_token_scope R show_duration = validate_with_policy R show_duration token_retry_policy"

section \<open>Start and shutdown\<close>

datatype serve_event = StartWorkers | StartListener | ShutdownServer | CancelWorkers | WaitWorkers

text \<open>What ends the wait: the signal, or the listener with its error.\<close>

datatype serve_end = SignalReceived | ListenerReturned "go_error option"

definition server_closed :: go_error where
  "server_closed = ErrText ''http: Server closed''"

definition unexpected_listener_error :: "go_error option \<Rightarrow> go_error option" where
  "unexpected_listener_error e =
    (case e of
       None \<Rightarrow> None
     | Some e \<Rightarrow> if errors_is e server_closed then None else Some (ErrWrap ''HTTP server failed: '' e))"

definition emit :: "serve_event \<Rightarrow> (serve_event list, unit) state" where
  "emit e = State (\<lambda>trace. ((), trace @ [e]))"

definition serve_until_shutdown :: "serve_end \<Rightarrow> (serve_event list, go_error option) state" where
  "serve_until_shutdown how = do {
     _ \<leftarrow> emit StartWorkers;
     _ \<leftarrow> emit StartListener;
     let listener_err = (case how of SignalReceived \<Rightarrow> None | ListenerReturned e \<Rightarrow> unexpected_listener_error e);
     _ \<leftarrow> emit ShutdownServer;
     _ \<leftarrow> emit CancelWorkers;
     _ \<leftarrow> emit WaitWorkers;
     State_Monad.return listener_err }"

text \<open>The handler of \<open>/health\<close> beside the one of \<open>/webhook\<close>.\<close>

definition health_response :: "string \<Rightarrow> response" where
  "health_response meth = (if meth \<noteq> ''GET'' then (405, ''method not allowed'') else (200, ''ok''))"

definition github_app_of :: "runtime_config \<Rightarrow> string \<Rightarrow> github_app" where
  "github_app_of c key =
    \<lparr>app_id = rc_app_id c, app_installation_id = rc_installation_id c, app_private_key = key,
     app_allowed_repositories = rc_allowed_repositories c, app_read_workflow_runs = True,
     app_cached_token = '''', app_token_expires = zero_time, app_cached_scope = ''''\<rparr>"

text \<open>The interval between polls is left to its default.\<close>

definition handler_config :: "runtime_config \<Rightarrow> config" where
  "handler_config c =
    \<lparr>cf_webhook_secret = rc_webhook_secret c, cf_github_client = True, cf_compute_client = True,
     cf_store = True, cf_required_label = rc_required_label c, cf_allowed_labels = rc_allowed_labels c,
     cf_allowed_repositories = rc_allowed_repositories c,
     cf_allowed_public_repositories = rc_allowed_public_repositories c,
     cf_runner_version = rc_runner_version c, cf_runner_sha256 = rc_runner_sha256 c,
     cf_chef_installer_sha256 = rc_chef_installer_sha256 c, cf_runner_group_id = rc_runner_group_id c,
     cf_worker_count = rc_worker_count c, cf_max_live_runners = rc_max_live_runners c,
     cf_max_attempts = rc_max_attempts c, cf_poll_interval = 0,
     cf_max_runner_age = rc_max_runner_age c, cf_cancelled_runner_ttl = rc_cancelled_runner_ttl c,
     cf_registration_timeout = rc_registration_timeout c,
     cf_liveness_settle_window = rc_liveness_settle_window c,
     cf_liveness_confirmations = rc_liveness_confirmations c, cf_installation_id = rc_installation_id c\<rparr>"

text \<open>
  The retries around \<open>ValidateTokenScope\<close> of the App: the context, jitter and timer are those of
  the process, the clock is the one of the client.
\<close>

definition app_retry_env :: "'x net \<Rightarrow> 'x retry_env \<Rightarrow> 'x gh retry_env" where
  "app_retry_env N W =
    \<lparr>re_ctx_err = (\<lambda>s. case re_ctx_err W (gh_outside s) of (a, x) \<Rightarrow> (a, s\<lparr>gh_outside := x\<rparr>)),
     re_validate = run_state (validate_token_scope N),
     re_now = run_state (gh_now N),
     re_rand = (\<lambda>n s. case re_rand W n (gh_outside s) of (a, x) \<Rightarrow> (a, s\<lparr>gh_outside := x\<rparr>)),
     re_select = (\<lambda>d s. case re_select W d (gh_outside s) of (a, x) \<Rightarrow> (a, s\<lparr>gh_outside := x\<rparr>))\<rparr>"

record process_io =
  pio_load :: load_io
  pio_saves :: "save_io list"
  pio_now :: time
  pio_disk :: disk

record controller =
  co_handler :: handler
  co_store :: file_store
  co_app :: github_app
  co_cloud :: cloud_client
  co_listen_addr :: string

text \<open>
  \<open>run\<close> up to the listener: the error that ends the process, or the running parts. The deferred
  closes follow in both cases.
\<close>

definition start_controller ::
    "process_env \<Rightarrow> sdk_env \<Rightarrow> cloud_lib \<Rightarrow> process_io \<Rightarrow> 'x net \<Rightarrow> 'x retry_env \<Rightarrow> 'y env \<Rightarrow> 'x \<Rightarrow>
     go_error + controller" where
  "start_controller P S L I N W E x =
    (case load_runtime_config P of
       Inl e \<Rightarrow> Inl (ErrWrap ''invalid configuration: '' e)
     | Inr c \<Rightarrow>
    (case pe_read_file P (rc_private_key_path c) of
       Inl e \<Rightarrow> Inl (ErrWrap ''read GitHub App private key file: '' e)
     | Inr key \<Rightarrow>
    (case fst (open_file_store (rc_state_file c) [with_deleted_retention (rc_deleted_retention c)]
        (pio_load I) (pio_saves I) (pio_now I) (pio_disk I)) of
       Inl e \<Rightarrow> Inl (ErrWrap ''open lifecycle state: '' e)
     | Inr store \<Rightarrow>
    (case new_compute_client P S L of
       Inl e \<Rightarrow> Inl (ErrWrap ''create compute client: '' e)
     | Inr cloud \<Rightarrow>
    (case run_state (validate_github_token_scope (app_retry_env N W) (pe_duration_text P))
        \<lparr>cl_outside = \<lparr>gh_app = github_app_of c key, gh_outside = x\<rparr>, cl_log = []\<rparr> of
       (Some e, _) \<Rightarrow> Inl (ErrWrap ''validate GitHub token scope: '' e)
     | (None, s) \<Rightarrow>
    (case new_handler E (handler_config c) store of
       (Inl e, _) \<Rightarrow> Inl (ErrWrap ''create webhook handler: '' e)
     | (Inr h, store) \<Rightarrow>
         Inr \<lparr>co_handler = h, co_store = store, co_app = gh_app (cl_outside s), co_cloud = cloud,
              co_listen_addr = rc_listen_addr c\<rparr>))))))"

end
