(* ===== verification/Token_Properties.thy ===== *)
theory Token_Properties
  imports Startup Cloud_Properties
begin

text \<open>
  The validation of the GitHub token at the start of the controller: bounded attempts, paced by the
  rate limit, within the budget.
\<close>

fun validation :: "retry_event \<Rightarrow> bool" where
  "validation (Validated v) = True"
| "validation (Waited t d) = False"

text \<open>The delay before the next attempt: the time to the reset, at least the minimum, and some jitter.\<close>

definition reset_delay :: "retry_policy \<Rightarrow> time \<Rightarrow> duration \<Rightarrow> bool" where
  "reset_delay p reset_at d \<longleftrightarrow>
    (\<exists>now j. let least = max (rp_min_delay p) (time_sub reset_at now) in
       d = (if rp_jitter p > 0 then wrap64 (least + j) else least))"

text \<open>
  Validations and waits alternate. A wait follows a validation that was rate limited, takes the
  delay for its reset, and ends within the budget from the start.
\<close>

fun paced :: "retry_policy \<Rightarrow> time \<Rightarrow> retry_event list \<Rightarrow> bool" where
  "paced p started [] \<longleftrightarrow> True"
| "paced p started (Validated v # es) \<longleftrightarrow>
    paced p started es \<and> (case es of [] \<Rightarrow> True | e # es \<Rightarrow> \<not> validation e)"
| "paced p started (Waited t d # es) \<longleftrightarrow>
    paced p started es \<and> t + d \<le> started + rp_max_elapsed p \<and>
    (case es of Validated (Some err) # es \<Rightarrow>
       (case rate_limit_reset err of Some reset_at \<Rightarrow> reset_delay p reset_at d | None \<Rightarrow> False)
     | _ \<Rightarrow> False)"

definition validation_outcome ::
    "retry_policy \<Rightarrow> time \<Rightarrow> nat \<Rightarrow> go_error option \<Rightarrow> retry_event list \<Rightarrow> retry_event list \<Rightarrow> bool" where
  "validation_outcome p started n r es old \<longleftrightarrow>
    paced p started (es @ old) \<and> length (filter validation es) \<le> n \<and>
    (r = None \<longleftrightarrow> (\<exists>rest. es = Validated None # rest))"

lemma reset_delay_logs: "logs (retry_delay_of R p reset_at) (\<lambda>d es. es = [] \<and> reset_delay p reset_at d)"
proof -
  have least: "(if time_sub reset_at now < rp_min_delay p then rp_min_delay p else time_sub reset_at now) =
      max (rp_min_delay p) (time_sub reset_at now)" for now by simp
  show ?thesis
    unfolding retry_delay_of_def reset_delay_def Let_def least
    by (auto intro!: logs_intros simp del: max.absorb1 max.absorb2 max.absorb3 max.absorb4) blast+
qed

lemma wait_logs: "logs (wait_for_token_retry R now d) (\<lambda>_ es. es = [Waited now d])"
  unfolding wait_for_token_retry_def
  by (auto intro!: logs_intros logs_quiet_api)

lemma retry_loop_logs:
  assumes "paced p started old" and "old = [] \<or> \<not> validation (hd old)"
  shows "logs (retry_loop n R show_duration p started count) (\<lambda>r es. validation_outcome p started n r es old)"
  using assms
proof (induction n arbitrary: count old)
  case 0
  then show ?case by (auto simp: validation_outcome_def intro!: logs_intros)
next
  case (Suc n)
  let ?Q = "\<lambda>r es. validation_outcome p started (Suc n) r es old"
  have checked: "paced p started (Validated v # old)" for v
    using Suc.prems by (auto split: list.split)
  have stop: "?Q r [Validated v]" if "r = None \<longleftrightarrow> v = None" for v r
    using that checked [of v] by (auto simp: validation_outcome_def)
  have waited: "paced p started (Waited now d # Validated (Some err) # old)"
    if "rate_limit_reset err = Some reset_at" "reset_delay p reset_at d" "now + d \<le> started + rp_max_elapsed p"
    for now d err reset_at
    using that checked [of "Some err"] by simp
  have over: "?Q (Some e) [Waited now d, Validated (Some err)]"
    if "paced p started (Waited now d # Validated (Some err) # old)" for e now d err
    using that by (auto simp: validation_outcome_def)
  have again: "logs (retry_loop n R show_duration p started (count + 1)) (\<lambda>r es. ?Q r (es @ [Waited now d, Validated (Some err)]))"
    if w: "paced p started (Waited now d # Validated (Some err) # old)" for now d err
  proof (rule logs_mono [OF Suc.IH [OF w]])
    fix r es
    assume "validation_outcome p started n r es (Waited now d # Validated (Some err) # old)"
    then show "?Q r (es @ [Waited now d, Validated (Some err)])"
      by (auto simp: validation_outcome_def Cons_eq_append_conv append_eq_Cons_conv)
  qed simp
  have after: "logs (do {
      delay \<leftarrow> retry_delay_of R p reset_at;
      now \<leftarrow> quiet_api (re_now R);
      if now + delay > started + rp_max_elapsed p
      then give_up (e now delay)
      else do {
        _ \<leftarrow> quiet_api (re_now R);
        w \<leftarrow> wait_for_token_retry R now delay;
        case w of
          Some e \<Rightarrow> give_up e
        | None \<Rightarrow> retry_loop n R show_duration p started (count + 1) } })
      (\<lambda>r es. ?Q r (es @ [Validated (Some err)]))" if "rate_limit_reset err = Some reset_at" for e err reset_at
  proof (rule logs_bind [OF reset_delay_logs])
    fix d and es :: "retry_event list"
    assume d: "es = [] \<and> reset_delay p reset_at d"
    have wait: "logs (do {
        w \<leftarrow> wait_for_token_retry R now d;
        case w of Some e \<Rightarrow> give_up e | None \<Rightarrow> retry_loop n R show_duration p started (count + 1) })
        (\<lambda>r es. ?Q r (es @ [Validated (Some err)]))" if "now + d \<le> started + rp_max_elapsed p" for now
    proof (rule logs_bind [OF wait_logs])
      fix w and es :: "retry_event list" assume es: "es = [Waited now d]"
      note w = waited [OF \<open>rate_limit_reset err = Some reset_at\<close> conjunct2 [OF d] that]
      show "logs (case w of Some e \<Rightarrow> give_up e | None \<Rightarrow> retry_loop n R show_duration p started (count + 1))
          (\<lambda>r es'. ?Q r ((es' @ es) @ [Validated (Some err)]))"
        using again [OF w] over [OF w] es by (auto intro!: logs_intros split: option.split)
    qed
    show "logs (do {
        now \<leftarrow> quiet_api (re_now R);
        if now + d > started + rp_max_elapsed p
        then give_up (e now d)
        else do {
          _ \<leftarrow> quiet_api (re_now R);
          w \<leftarrow> wait_for_token_retry R now d;
          case w of
            Some e \<Rightarrow> give_up e
          | None \<Rightarrow> retry_loop n R show_duration p started (count + 1) } })
        (\<lambda>r es'. ?Q r ((es' @ es) @ [Validated (Some err)]))"
      using d stop wait by (auto intro!: logs_bind_quiet logs_ends)
  qed
  have none: "?Q (Some e) []" for e
    using Suc.prems by (auto simp: validation_outcome_def)
  show ?case
    unfolding retry_loop.simps
    by (auto intro!: logs_bind_quiet logs_bind_api logs_ends after stop none split: option.split)
qed

text \<open>C38: Whatever GitHub, the clock and the context do, the validation of the token makes at most the
  configured number of attempts; between two of them it waits, only after an attempt that was rate
  limited, for the delay to its reset, and so that the wait ends within the budget from the start;
  and it succeeds exactly if its last attempt did.\<close>

theorem token_validation_is_bounded:
  "validation_outcome p (fst (re_now R x)) (rp_max_attempts p)
     (fst (run_state (validate_with_policy R show_duration p) (fresh_cloud x)))
     (cl_log (snd (run_state (validate_with_policy R show_duration p) (fresh_cloud x)))) []"
proof -
  obtain started y where now: "re_now R x = (started, y)" by fastforce
  let ?loop = "retry_loop (rp_max_attempts p) R show_duration p started 1"
  have run: "run_state (validate_with_policy R show_duration p) (fresh_cloud x) = run_state ?loop (fresh_cloud y)"
    using now by (simp add: validate_with_policy_def fresh_cloud_def)
  obtain r t where loop: "run_state ?loop (fresh_cloud y) = (r, t)" by fastforce
  have "logs ?loop (\<lambda>r es. validation_outcome p started (rp_max_attempts p) r es [])"
    by (rule retry_loop_logs) simp_all
  from logsD [OF this loop] show ?thesis
    unfolding run loop now by (auto simp: fresh_cloud_def)
qed

text \<open>A reset beyond the range of a duration makes the jitter overflow: the attempts follow at once.\<close>

definition far_reset :: "unit retry_env" where
  "far_reset = \<lparr>re_ctx_err = (\<lambda>x. (None, x)), re_validate = (\<lambda>x. (Some (ErrRateLimit (2 * max_duration) 429), x)),
     re_now = (\<lambda>x. (0, x)), re_rand = (\<lambda>n x. (1, x)), re_select = (\<lambda>d x. (False, x))\<rparr>"

lemma far_reset_simps:
  "rate_limit_reset (ErrRateLimit t n) = Some t"
  "re_ctx_err far_reset x = (None, x)" "re_now far_reset x = (0, x)" "re_select far_reset d x = (False, x)"
  "re_validate far_reset x = (Some (ErrRateLimit (2 * max_duration) 429), x)" "re_rand far_reset i x = (1, x)"
  "rp_max_attempts token_retry_policy = 5" "rp_max_elapsed token_retry_policy = 5 * minute"
  "rp_jitter token_retry_policy = second" "rp_min_delay token_retry_policy = 5 * second"
  by (simp_all add: far_reset_def token_retry_policy_def rate_limit_reset_def rate_limit_error_def)

lemma far_reset_delay:
  "run_state (retry_delay_of far_reset token_retry_policy (2 * max_duration)) s = (min_duration, s)"
  by (simp add: retry_delay_of_def far_reset_simps time_sub_def wrap64_def min_duration_def max_duration_def second_def)

lemma far_reset_step:
  "count \<noteq> 5 \<Longrightarrow> run_state (retry_loop (Suc n) far_reset show_duration token_retry_policy 0 count) s =
   run_state (retry_loop n far_reset show_duration token_retry_policy 0 (Suc count))
     (s\<lparr>cl_log := [Waited 0 min_duration, Validated (Some (ErrRateLimit (2 * max_duration) 429))] @ cl_log s\<rparr>)"
proof -
  have "\<not> 0 + min_duration > 0 + 5 * minute" by (simp add: min_duration_def minute_def second_def)
  then show "count \<noteq> 5 \<Longrightarrow> ?thesis"
    by (cases s) (simp add: far_reset_simps far_reset_delay wait_for_token_retry_def done_ok_def)
qed

lemma retry_overflow_skips_wait:
  "filter (\<lambda>e. \<not> validation e)
     (cl_log (snd (run_state (validate_github_token_scope far_reset show_duration) (fresh_cloud ())))) =
   replicate 4 (Waited 0 min_duration)"
proof -
  let ?v = "Validated (Some (ErrRateLimit (2 * max_duration) 429))" and ?w = "Waited 0 min_duration"
  have last: "\<exists>e. run_state (retry_loop 1 far_reset show_duration token_retry_policy 0 5) s = (e, s\<lparr>cl_log := ?v # cl_log s\<rparr>)" for s
    by (simp add: far_reset_simps give_up_def)
  have "\<exists>e. run_state (validate_github_token_scope far_reset show_duration) (fresh_cloud ()) =
      (e, \<lparr>cl_outside = (), cl_log = [?v, ?w, ?v, ?w, ?v, ?w, ?v, ?w, ?v]\<rparr>)"
    using last [of "\<lparr>cl_outside = (), cl_log = [?w, ?v, ?w, ?v, ?w, ?v, ?w, ?v]\<rparr>"]
    by (simp add: validate_github_token_scope_def validate_with_policy_def far_reset_step far_reset_simps fresh_cloud_def
        eval_nat_numeral del: retry_loop.simps)
  then show ?thesis by (auto simp: eval_nat_numeral)
qed

end
