(* ===== verification/Startup_Properties.thy ===== *)
theory Startup_Properties
  imports Token_Properties Controller_Properties Names_Properties GitHub_Properties
begin

text \<open>
  What holds of a controller that starts: the store it opened, the handler it made, and the App
  whose token it validated. The last section has a start that succeeds.
\<close>

section \<open>The store of a started controller\<close>

lemma recover_steps_instance:
  "r_droplet_id (fst p) = 0 \<Longrightarrow> r_instance_id (fst (recover_steps p)) = r_instance_id (fst p)"
proof -
  have keep: "r_instance_id (fst (recover_claim p)) = r_instance_id (fst p) \<and> r_droplet_id (fst (recover_claim p)) = r_droplet_id (fst p)"
    "r_instance_id (fst (recover_provider p)) = r_instance_id (fst p) \<and> r_droplet_id (fst (recover_provider p)) = r_droplet_id (fst p)"
    "r_instance_id (fst (recover_provisioned_at p)) = r_instance_id (fst p) \<and> r_droplet_id (fst (recover_provisioned_at p)) = r_droplet_id (fst p)"
    "r_instance_id (fst (recover_interrupted p)) = r_instance_id (fst p) \<and> r_droplet_id (fst (recover_interrupted p)) = r_droplet_id (fst p)"
    for p
    by (auto simp: recover_claim_def recover_provider_def recover_provisioned_at_def recover_interrupted_def
        recover_interrupted_work_def Let_def split: prod.splits status.splits if_splits)
  have last: "r_droplet_id (fst p) = 0 \<Longrightarrow> r_instance_id (fst (recover_instance_id p)) = r_instance_id (fst p)" for p
    by (auto simp: recover_instance_id_def split: prod.splits)
  show "r_droplet_id (fst p) = 0 \<Longrightarrow> ?thesis"
    unfolding recover_steps_def by (simp add: last keep)
qed

lemma recovered_instance:
  "recovered now d r = Some r' \<Longrightarrow> r_droplet_id r = 0 \<Longrightarrow> r_instance_id r' = r_instance_id r"
  using recover_steps_instance [of "(r, False)"]
  by (auto simp: recovered_def recover_record_def split: if_splits prod.splits)

text \<open>No record is from the time when only the droplet was known.\<close>

definition no_legacy_markers :: "file_store \<Rightarrow> bool" where
  "no_legacy_markers s \<longleftrightarrow> (\<forall>k r. is_marker_key k \<longrightarrow> lookup_record s k = Some r \<longrightarrow> r_droplet_id r = 0)"

lemma recovered_marker: "recovered now d r = Some r' \<Longrightarrow> r_droplet_id r = 0 \<Longrightarrow> marker_idle r \<Longrightarrow> marker_idle r'"
  using recovered_Some [of now d r r'] recovered_instance [of now d r r']
  by (auto simp: marker_idle_def recovery_keeps_def settled_record_def)

section \<open>The App of a started controller\<close>

text \<open>Calls that leave the configuration of the App as it is.\<close>

definition keeps_app :: "('x gh, 'a) state \<Rightarrow> bool" where
  "keeps_app m \<longleftrightarrow> (\<forall>s. uncached (gh_app (snd (run_state m s))) = uncached (gh_app s))"

lemma keeps_app_steps [intro!]:
  "keeps_app (State_Monad.return a)" "keeps_app (ok a)" "keeps_app (fail e)" "keeps_app gh_get"
  "keeps_app (gh_now N)" "keeps_app (gh_do N rq)" "keeps_app (cache_token scope t)"
  by (auto simp: keeps_app_def ok_def fail_def cache_token_def uncached_def split: prod.split)

lemma keeps_app_bind [intro!]: "keeps_app m \<Longrightarrow> (\<And>a. keeps_app (f a)) \<Longrightarrow> keeps_app (State_Monad.bind m f)"
  by (simp add: keeps_app_def split: prod.split) (metis snd_conv)

lemma keeps_app_check [intro!]: "keeps_app m \<Longrightarrow> (\<And>a. keeps_app (f a)) \<Longrightarrow> keeps_app (check wrap m f)"
  unfolding check_def by (auto split: sum.split)

lemma keeps_app_calls [intro!]:
  "keeps_app (api_status_error N r action)" "keeps_app (generate_jwt N)"
  unfolding api_status_error_def generate_jwt_def
  by (auto split: option.split sum.split)

lemma keeps_app_fail_status [intro!]: "keeps_app (fail_status N r action)"
  unfolding fail_status_def by auto

lemma validate_keeps_app: "keeps_app (validate_token_scope N)"
  unfolding validate_token_scope_def installation_token_def
  by (auto split: option.split sum.split prod.split)

text \<open>Retries that leave a view of the outside as it is, and end without error only after a
  validation without error.\<close>

definition retry_keeps :: "('x \<Rightarrow> 'v) \<Rightarrow> 'x retry_env \<Rightarrow> bool" where
  "retry_keeps f R \<longleftrightarrow>
    (\<forall>x. f (snd (re_ctx_err R x)) = f x \<and> f (snd (re_validate R x)) = f x \<and> f (snd (re_now R x)) = f x) \<and>
    (\<forall>x i. f (snd (re_rand R i x)) = f x \<and> f (snd (re_select R i x)) = f x)"

definition answers :: "('x \<Rightarrow> 'a \<times> 'x) \<Rightarrow> ('x \<Rightarrow> 'v) \<Rightarrow> 'v \<Rightarrow> 'a \<Rightarrow> bool" where
  "answers g f c a \<longleftrightarrow> (\<exists>x y. g x = (a, y) \<and> f x = c)"

abbreviation outside_view :: "('x \<Rightarrow> 'v) \<Rightarrow> ('x, 'e) cloud \<Rightarrow> 'v" where
  "outside_view f \<equiv> \<lambda>s. f (cl_outside s)"

lemma ensures_bind_quiet:
  assumes "\<And>x. f (snd (g x)) = f x" and "\<And>a. ensures (outside_view f) (h a) Q c"
  shows "ensures (outside_view f) (State_Monad.bind (quiet_api g) h) Q c"
proof (rule ensuresI)
  fix w b w' assume c: "f (cl_outside w) = c" and run: "run_state (State_Monad.bind (quiet_api g) h) w = (b, w')"
  obtain a x where g: "g (cl_outside w) = (a, x)" by fastforce
  with assms(1) [of "cl_outside w"] c have "outside_view f (w\<lparr>cl_outside := x\<rparr>) = c" by simp
  from ensuresD [of "outside_view f", OF assms(2) [of a, folded this]] run g
  show "Q b (f (cl_outside w'))" by simp
qed

lemma ensures_bind_api:
  assumes "\<And>x. f (snd (g x)) = f x"
    and "\<And>a. answers g f c a \<Longrightarrow> ensures (outside_view f) (h a) Q c"
  shows "ensures (outside_view f) (State_Monad.bind (api g ev) h) Q c"
proof (rule ensuresI)
  fix w b w' assume c: "f (cl_outside w) = c" and run: "run_state (State_Monad.bind (api g ev) h) w = (b, w')"
  obtain a x where g: "g (cl_outside w) = (a, x)" by fastforce
  let ?w = "w\<lparr>cl_outside := x, cl_log := ev a # cl_log w\<rparr>"
  from assms(1) [of "cl_outside w"] c g have "outside_view f ?w = c" by simp
  from g c have "answers g f c a" unfolding answers_def by blast
  from ensuresD [of "outside_view f", OF assms(2) [OF this, folded \<open>outside_view f ?w = c\<close>]] run g
  show "Q b (f (cl_outside w'))" by simp
qed

lemma retry_loop_validated:
  assumes "retry_keeps f R"
  shows "ensures (outside_view f) (retry_loop n R show_duration p started count)
    (\<lambda>r v. v = c \<and> (r = None \<longrightarrow> answers (re_validate R) f c None)) c"
proof (induction n arbitrary: count)
  case 0
  then show ?case by (auto intro: ensures_ends)
next
  case (Suc n)
  note keep = assms [unfolded retry_keeps_def]
  let ?Q = "\<lambda>r v. v = c \<and> (r = None \<longrightarrow> answers (re_validate R) f c None)"
  have wait: "ensures (outside_view f) (State_Monad.bind (wait_for_token_retry R now d)
      (\<lambda>w. case w of Some e \<Rightarrow> give_up e | None \<Rightarrow> retry_loop n R show_duration p started (count + 1))) ?Q c" for now d
  proof (rule ensures_bind, unfold wait_for_token_retry_def, rule ensures_bind_api)
    fix finished
    have go: "ensures (outside_view f) (case w of Some e \<Rightarrow> give_up e
        | None \<Rightarrow> retry_loop n R show_duration p started (count + 1)) ?Q c" for w
      using Suc.IH by (auto intro: ensures_ends split: option.split)
    have ctx: "ensures (outside_view f) (quiet_api (re_ctx_err R)) (\<lambda>w v. v = c) c"
      by (rule ensuresI) (use keep in \<open>auto split: prod.splits dest: spec\<close>, metis snd_conv)
    show "ensures (outside_view f) (if finished then quiet_api (re_ctx_err R) else done_ok)
        (\<lambda>a. ensures (outside_view f) (case a of Some e \<Rightarrow> give_up e
           | None \<Rightarrow> retry_loop n R show_duration p started (count + 1)) ?Q) c"
      using go by (auto intro: ensures_ends ensures_mono [OF ctx])
  qed (use keep in auto)
  have delay: "ensures (outside_view f) (State_Monad.bind (retry_delay_of R p reset_at) h) ?Q c"
    if "\<And>d. ensures (outside_view f) (h d) ?Q c" for reset_at h
  proof (rule ensures_bind, rule ensures_mono)
    show "ensures (outside_view f) (retry_delay_of R p reset_at) (\<lambda>_ v. v = c) c"
      unfolding retry_delay_of_def Let_def using keep
      by (auto intro!: ensures_bind_quiet ensures_return)
  qed (use that in simp)
  show ?case
    unfolding retry_loop.simps using keep wait
    by (auto intro!: ensures_bind_quiet ensures_bind_api ensures_ends delay split: option.split)
qed

lemma app_retry_keeps: "retry_keeps (\<lambda>s. uncached (gh_app s)) (app_retry_env N W)"
  using validate_keeps_app [of N] by (auto simp: retry_keeps_def app_retry_env_def keeps_app_def split: prod.splits)

lemma token_validated:
  assumes "run_state (validate_github_token_scope (app_retry_env N W) show_duration) s = (None, t)"
  shows "uncached (gh_app (cl_outside t)) = uncached (gh_app (cl_outside s)) \<and>
    (\<exists>g g'. run_state (validate_token_scope N) g = (None, g') \<and> uncached (gh_app g) = uncached (gh_app (cl_outside s)))"
proof -
  let ?v = "outside_view (\<lambda>s. uncached (gh_app s))"
  let ?Q = "\<lambda>r v. v = ?v s \<and> (r = None \<longrightarrow>
      answers (re_validate (app_retry_env N W)) (\<lambda>s. uncached (gh_app s)) (?v s) None)"
  have keep: "uncached (gh_app (snd (re_now (app_retry_env N W) x))) = uncached (gh_app x)" for x
    using app_retry_keeps [of N W] by (simp add: retry_keeps_def)
  have "ensures ?v (validate_github_token_scope (app_retry_env N W) show_duration) ?Q (?v s)"
    unfolding validate_github_token_scope_def validate_with_policy_def
    by (rule ensures_bind_quiet, rule keep, rule retry_loop_validated [OF app_retry_keeps])
  from ensuresD [OF this assms] show ?thesis by (auto simp: app_retry_env_def answers_def)
qed

section \<open>The configuration of a started controller\<close>

lemma repository_loop_set:
  "repository_loop raws allowed = Inr allowed' \<Longrightarrow> set allowed' = set allowed \<union> (to_lower \<circ> trim_space) ` set raws"
  by (induction raws arbitrary: allowed) (auto simp: Let_def split: if_splits)

lemma public_loop_subset:
  "public_loop allowed raws public = Inr public' \<Longrightarrow> set public \<subseteq> set allowed \<Longrightarrow> set public' \<subseteq> set allowed"
proof (induction raws arbitrary: public)
  case (Cons raw raws)
  then show ?case by (auto simp: Let_def split: if_splits)
qed simp

text \<open>What holds of the handler that \<open>NewHandler\<close> makes, by configuration.\<close>

definition handler_in_order :: "config \<Rightarrow> handler \<Rightarrow> bool" where
  "handler_in_order c h \<longleftrightarrow>
    32 \<le> length (h_webhook_secret h) \<and> h_webhook_secret h = cf_webhook_secret c \<and>
    0 < h_installation_id h \<and> h_installation_id h = cf_installation_id c \<and>
    h_allowed_repositories h \<noteq> [] \<and>
    set (h_allowed_repositories h) = (to_lower \<circ> trim_space) ` set (cf_allowed_repositories c) \<and>
    set (h_allowed_public_repositories h) \<subseteq> set (h_allowed_repositories h) \<and>
    h_required_label h \<in> dom (map_of (h_allowed_labels h)) \<and>
    0 < h_worker_count h \<and> 0 < h_max_attempts h \<and> 0 < h_liveness_confirmations h \<and>
    hour \<le> h_max_runner_age h \<and> minute \<le> h_cancelled_runner_ttl h \<and>
    minute \<le> h_registration_timeout h \<and> h_registration_timeout h \<le> hour \<and>
    5 * minute \<le> h_reaper_timeout h"

lemma default_int_pos [simp]: "0 < fallback \<Longrightarrow> 0 < default_int v fallback"
  by (simp add: default_int_def)

lemma new_handler_in_order:
  assumes "new_handler E c s = (Inr h, t)"
  shows "handler_in_order c h" and "0 < fs_max_live_runners t"
    and "0 < cf_max_live_runners c \<Longrightarrow> fs_max_live_runners t = cf_max_live_runners c"
    and "t = s\<lparr>fs_max_live_runners := fs_max_live_runners t\<rparr>"
proof -
  have valid: "validate_handler_config c = None"
    using assms by (cases "validate_handler_config c") (simp_all add: new_handler_def)
  note new = assms [unfolded new_handler_def valid option.case]
  obtain required labels where
      labels: "normalize_allowed_labels (cf_required_label c) (cf_allowed_labels c) = Inr (required, labels)"
    using new by (cases "normalize_allowed_labels (cf_required_label c) (cf_allowed_labels c)") auto
  note new = new [unfolded labels sum.case prod.case]
  obtain repositories where
      repositories: "normalize_allowed_repositories (cf_allowed_repositories c) = Inr repositories"
    using new by (cases "normalize_allowed_repositories (cf_allowed_repositories c)") auto
  note new = new [unfolded repositories sum.case]
  obtain public where public: "public_loop repositories (cf_allowed_public_repositories c) [] = Inr public"
    using new by (cases "public_loop repositories (cf_allowed_public_repositories c) []") auto
  note new = new [unfolded public sum.case]
  obtain l where limits: "resolve_handler_limits c = Inr l"
    using new by (cases "resolve_handler_limits c") auto
  note new = new [unfolded limits sum.case]
  have ceiling: "set_max_live_runners (li_max_live_runners l) s = (None, t)"
    using new by (cases "set_max_live_runners (li_max_live_runners l) s") (auto split: option.splits)
  note h = new [unfolded ceiling prod.case option.case prod.inject sum.inject, THEN conjunct1, symmetric]
  have secret: "32 \<le> length (cf_webhook_secret c)" "0 < cf_installation_id c"
    using valid by (auto simp: validate_handler_config_def split: if_splits)
  have repos: "repositories \<noteq> []" "set repositories = (to_lower \<circ> trim_space) ` set (cf_allowed_repositories c)"
    using repositories
    by (auto simp: normalize_allowed_repositories_def split: sum.splits if_splits dest!: repository_loop_set)
  have required: "required \<in> dom (map_of labels)"
    using labels by (auto simp: normalize_allowed_labels_def Let_def split: sum.splits if_splits)
  have l: "0 < li_worker_count l" "0 < li_max_attempts l" "0 < li_liveness_confirmations l"
      "hour \<le> li_max_runner_age l" "minute \<le> li_cancelled_runner_ttl l"
      "minute \<le> li_registration_timeout l" "li_registration_timeout l \<le> hour"
      "li_max_live_runners l = default_int (cf_max_live_runners c) 20"
    using limits by (auto simp: resolve_handler_limits_def Let_def not_less split: if_splits)
  show "handler_in_order c h"
    unfolding handler_in_order_def
    using secret repos required l public_loop_subset [OF public] by (simp add: h reaper_timeout_def)
  from ceiling have t: "t = s\<lparr>fs_max_live_runners := li_max_live_runners l\<rparr>"
    by (auto simp: set_max_live_runners_def split: if_splits)
  show "0 < fs_max_live_runners t"
    and "0 < cf_max_live_runners c \<Longrightarrow> fs_max_live_runners t = cf_max_live_runners c"
    and "t = s\<lparr>fs_max_live_runners := fs_max_live_runners t\<rparr>"
    using l(8) unfolding t by (simp_all add: default_int_def)
qed

lemma env_positive: "env_positive_int P key fallback = Inr n \<Longrightarrow> 0 < n"
  by (auto simp: env_positive_int_def positive_integer_def split: option.splits if_splits)

lemma configured_ceiling: "load_runtime_config P = Inr c \<Longrightarrow> 0 < rc_max_live_runners c"
  by (auto simp: load_runtime_config_def and_then_Inr dest!: env_positive)

lemma handler_config_fields [simp]:
  "cf_max_live_runners (handler_config c) = rc_max_live_runners c"
  "cf_allowed_repositories (handler_config c) = rc_allowed_repositories c"
  "cf_installation_id (handler_config c) = rc_installation_id c"
  by (simp_all add: handler_config_def)

text \<open>
  What holds of a controller that runs: its store, its handler, and the App whose token GitHub has
  confirmed to be limited to the repositories that the handler serves.
\<close>

definition started_well :: "'x net \<Rightarrow> file_store \<Rightarrow> time \<Rightarrow> runtime_config \<Rightarrow> controller \<Rightarrow> bool" where
  "started_well N s now c co \<longleftrightarrow>
    (let t = co_store co; h = co_handler co; a = co_app co in
     store_inv t \<and> cache_ok t \<and> 24 * hour \<le> fs_deleted_retention t \<and>
     (\<forall>k. lookup_record t k = Option.bind (lookup_record s k) (recovered now (fs_deleted_retention t))) \<and>
     (markers_idle s \<and> no_legacy_markers s \<longrightarrow> store_ready t) \<and>
     0 < fs_max_live_runners t \<and> fs_max_live_runners t = rc_max_live_runners c \<and>
     handler_in_order (handler_config c) h \<and>
     app_installation_id a = h_installation_id h \<and>
     set (h_allowed_repositories h) = (to_lower \<circ> trim_space) ` set (app_allowed_repositories a) \<and>
     (\<exists>g g'. run_state (validate_token_scope N) g = (None, g') \<and> uncached (gh_app g) = uncached a))"

text \<open>C39: A controller that gets as far as its listener has the records that its predecessor left on
  disk, recovered, in a consistent store whose ceiling is the configured positive one and whose
  retention is a day or more; its handler requires a secret of 32 bytes and a required label that
  is allowed, and its limits are in range; and GitHub has issued it a token for exactly the
  installation and the repositories that its handler serves.\<close>

theorem controller_starts_well:
  assumes "start_controller P S L I N W E x = Inr co"
    and "store_inv s" and "pio_disk I = fs_disk s" and "list_all (\<lambda>io. io_truncate io = None) (pio_saves I)"
  shows "\<exists>c. load_runtime_config P = Inr c \<and> started_well N s (pio_now I) c co"
proof -
  obtain c where c: "load_runtime_config P = Inr c"
    using assms(1) by (cases "load_runtime_config P") (simp_all add: start_controller_def)
  note start = assms(1) [unfolded start_controller_def c sum.case]
  obtain key where key: "pe_read_file P (rc_private_key_path c) = Inr key"
    using start by (cases "pe_read_file P (rc_private_key_path c)") simp_all
  note start = start [unfolded key sum.case]
  let ?open = "open_file_store (rc_state_file c) [with_deleted_retention (rc_deleted_retention c)]
      (pio_load I) (pio_saves I) (pio_now I) (pio_disk I)"
  obtain store d where store: "?open = (Inr store, d)"
    using start by (cases ?open; cases "fst ?open") simp_all
  note start = start [unfolded store fst_conv sum.case]
  obtain cloud where cloud: "new_compute_client P S L = Inr cloud"
    using start by (cases "new_compute_client P S L") simp_all
  note start = start [unfolded cloud sum.case]
  let ?w = "\<lparr>cl_outside = \<lparr>gh_app = github_app_of c key, gh_outside = x\<rparr>, cl_log = []\<rparr>"
  obtain w where token: "run_state (validate_github_token_scope (app_retry_env N W) (pe_duration_text P)) ?w = (None, w)"
    using start by (cases "run_state (validate_github_token_scope (app_retry_env N W) (pe_duration_text P)) ?w")
      (auto split: option.splits)
  note start = start [unfolded token prod.case option.case]
  obtain h t where new: "new_handler E (handler_config c) store = (Inr h, t)"
    and co: "co_handler co = h" "co_store co = t" "co_app co = gh_app (cl_outside w)"
    using start by (cases "new_handler E (handler_config c) store") (auto split: sum.splits)
  note step = reopen_step [OF assms(2,4), where ds = "[rc_deleted_retention c]", simplified, OF store [unfolded assms(3)]]
  note order = new_handler_in_order [OF new]
  have t: "store_inv t" "cache_ok t" "24 * hour \<le> fs_deleted_retention t"
    "\<And>k. lookup_record t k = Option.bind (lookup_record s k) (recovered (pio_now I) (fs_deleted_retention t))"
  proof -
    from order(2,4) have "set_max_live_runners (fs_max_live_runners t) store = (None, t)"
      by (simp add: set_max_live_runners_def)
    note same = set_max_live_runners_step [OF this]
    have ret: "fs_deleted_retention t = fs_deleted_retention store"
      by (subst order(4)) simp
    show "store_inv t" "cache_ok t" "24 * hour \<le> fs_deleted_retention t"
      "\<And>k. lookup_record t k = Option.bind (lookup_record s k) (recovered (pio_now I) (fs_deleted_retention t))"
      using step same ret by simp_all
  qed
  have ready: "store_ready t" if "markers_idle s" "no_legacy_markers s"
    using that t unfolding store_ready_def markers_idle_def no_legacy_markers_def
    by (auto simp: bind_eq_Some_conv intro: recovered_marker)
  have ceiling: "0 < fs_max_live_runners t" "fs_max_live_runners t = rc_max_live_runners c"
    using order(2,3) configured_ceiling [OF c] by simp_all
  note valid = token_validated [OF token]
  then have app: "app_installation_id (gh_app (cl_outside w)) = rc_installation_id c"
      "app_allowed_repositories (gh_app (cl_outside w)) = rc_allowed_repositories c"
    by (simp_all add: uncached_def github_app_of_def)
  have serves: "set (h_allowed_repositories h) = (to_lower \<circ> trim_space) ` set (rc_allowed_repositories c)"
      "h_installation_id h = rc_installation_id c"
    using order(1) by (simp_all add: handler_in_order_def)
  show ?thesis
    unfolding started_well_def Let_def co
    using c t ready ceiling order(1) app serves valid by auto
qed

section \<open>A controller that starts\<close>

definition sample_variables :: "(string \<times> string) list" where
  "sample_variables =
    [(''APP_ID'', ''7''), (''APP_INSTALLATION_ID'', ''5''), (''APP_PRIVATE_KEY_FILE'', ''key.pem''),
     (''ALLOWED_REPOSITORIES'', '' Acme/App ''), (''ALLOWED_LABELS'', ''self-hosted''),
     (''WEBHOOK_SECRET'', replicate 32 (CHR ''s'')), (''RUNNER_VERSION'', ''2.300.1''),
     (''RUNNER_SHA256'', replicate 64 (CHR ''a'')), (''CHEF_INSTALLER_SHA256'', replicate 64 (CHR ''b'')),
     (''STATE_FILE'', ''state.json''), (''CONTROLLER_ID'', ''c1''), (''DIGITALOCEAN_TOKEN'', ''t''),
     (''DO_VPC_UUID'', ''v''), (''DO_FIREWALL_ID'', ''f'')]"

definition sample_process :: process_env where
  "sample_process =
    \<lparr>pe_getenv = (\<lambda>key. case map_of sample_variables key of Some v \<Rightarrow> v | None \<Rightarrow> ''''),
     pe_parse_duration = parse_int, pe_duration_text = itoa, pe_read_file = (\<lambda>path. Inr ''key'')\<rparr>"

definition sample_runtime :: runtime_config where
  "sample_runtime =
    \<lparr>rc_app_id = 7, rc_installation_id = 5, rc_private_key_path = ''key.pem'', rc_state_file = ''state.json'',
     rc_required_label = ''self-hosted'', rc_listen_addr = '':8080'', rc_webhook_secret = replicate 32 (CHR ''s''),
     rc_runner_version = ''2.300.1'', rc_runner_sha256 = replicate 64 (CHR ''a''),
     rc_chef_installer_sha256 = replicate 64 (CHR ''b''), rc_allowed_labels = [''self-hosted''],
     rc_allowed_repositories = [''Acme/App''], rc_allowed_public_repositories = [], rc_runner_group_id = 1,
     rc_worker_count = 4, rc_max_live_runners = 20, rc_max_attempts = 5, rc_max_runner_age = 6 * hour,
     rc_cancelled_runner_ttl = 5 * minute, rc_registration_timeout = 10 * minute,
     rc_liveness_settle_window = 2 * minute, rc_liveness_confirmations = 3, rc_deleted_retention = 24 * hour\<rparr>"

text \<open>Variables that are not set fall back to their defaults.\<close>

definition unset :: "string \<Rightarrow> bool" where
  "unset key \<longleftrightarrow> map_of sample_variables key = None"

lemma unset_default: "unset key \<Longrightarrow> env_or_default sample_process key fallback = fallback"
  by (simp add: unset_def env_or_default_def sample_process_def trim_space_def)

lemma unset_numbers:
  assumes "unset key" and "0 < n" and "n \<le> max_int64"
  shows "env_positive_int sample_process key n = Inr n" "env_positive_int64 sample_process key n = Inr n"
    "env_duration sample_process key n = Inr n"
proof -
  have "parse_int (itoa n) = Some n"
    by (rule parse_int_itoa) (use assms in \<open>simp_all add: min_int64_def\<close>)
  then show "env_positive_int sample_process key n = Inr n" "env_positive_int64 sample_process key n = Inr n"
    "env_duration sample_process key n = Inr n"
    using assms(2)
    by (simp_all add: env_positive_int_def env_positive_int64_def env_duration_def positive_integer_def
        unset_default [OF assms(1)] sample_process_def [THEN arg_cong [where f = pe_parse_duration]]
        sample_process_def [THEN arg_cong [where f = pe_duration_text]])
qed

lemma sample_unset:
  "unset ''RUNNER_GROUP_ID''" "unset ''WORKER_COUNT''" "unset ''MAX_LIVE_RUNNERS''" "unset ''MAX_ATTEMPTS''"
  "unset ''MAX_RUNNER_AGE''" "unset ''CANCELLED_RUNNER_TTL''" "unset ''RUNNER_REGISTRATION_TIMEOUT''"
  "unset ''LIVENESS_SETTLE_WINDOW''" "unset ''LIVENESS_CONFIRMATIONS''" "unset ''DELETED_RECORD_RETENTION''"
  "unset ''REQUIRED_LABEL''" "unset ''LISTEN_ADDR''" "unset ''ALLOWED_PUBLIC_REPOSITORIES''"
  "unset ''RUNNER_SPOT''" "unset ''COMPUTE_PROVIDER''" "unset ''CLOUD_INIT_PATH''"
  by (simp_all add: unset_def sample_variables_def)

lemma sample_required:
  "required_positive_int64 sample_process ''APP_ID'' = Inr 7"
  "required_positive_int64 sample_process ''APP_INSTALLATION_ID'' = Inr 5"
  "required_env sample_process ''APP_PRIVATE_KEY_FILE'' = Inr ''key.pem''"
  "required_env sample_process ''ALLOWED_REPOSITORIES'' = Inr ''Acme/App''"
  "required_env sample_process ''ALLOWED_LABELS'' = Inr ''self-hosted''"
  "required_raw_env sample_process ''WEBHOOK_SECRET'' = Inr (replicate 32 (CHR ''s''))"
  "required_env sample_process ''RUNNER_VERSION'' = Inr ''2.300.1''"
  "required_env sample_process ''RUNNER_SHA256'' = Inr (replicate 64 (CHR ''a''))"
  "required_env sample_process ''CHEF_INSTALLER_SHA256'' = Inr (replicate 64 (CHR ''b''))"
  "env_or_default sample_process ''STATE_FILE'' ''/var/lib/github-runners/state.json'' = ''state.json''"
  by code_simp+

lemma sample_lists:
  "split_csv ''Acme/App'' = [''Acme/App'']" "split_csv ''self-hosted'' = [''self-hosted'']"
  "split_csv (pe_getenv sample_process ''ALLOWED_PUBLIC_REPOSITORIES'') = []"
  by code_simp+

lemma sample_loads: "load_runtime_config sample_process = Inr sample_runtime"
  by (simp add: load_runtime_config_def and_then_def sample_required sample_lists nonempty_list_def sample_unset
      unset_numbers unset_default max_int64_def hour_def minute_def second_def sample_runtime_def)

definition sample_sdk :: sdk_env where
  "sample_sdk = \<lparr>sdk_aws = (\<lambda>r. None), sdk_gcp = None, sdk_azure = None\<rparr>"

definition sample_templates :: cloud_lib where
  "sample_templates = sample_lib\<lparr>lib_parse_files := (\<lambda>path. Inr (\<lambda>p. Inr ''#cloud-config''))\<rparr>"

lemma sample_cloud: "\<exists>cloud. new_compute_client sample_process sample_sdk sample_templates = Inr cloud"
proof -
  have "\<not> isl (new_compute_client sample_process sample_sdk sample_templates)" by code_simp
  then show ?thesis by (cases "new_compute_client sample_process sample_sdk sample_templates") auto
qed

text \<open>GitHub grants the token at the first request.\<close>

definition granting_net :: "unit net" where
  "granting_net = sample_net\<lparr>net_json := (\<lambda>_. Some (JObj [(''token'', JStr ''ghs''), (''expires_at'', JStr ''later''),
       (''permissions'', JObj [(''administration'', JStr ''write''), (''actions'', JStr ''read'')]),
       (''repositories'', JArr [JObj [(''full_name'', JStr ''Acme/App'')]])]))\<rparr>"

lemma sample_token:
  "\<exists>w. run_state (validate_github_token_scope (app_retry_env granting_net far_reset) itoa)
     \<lparr>cl_outside = \<lparr>gh_app = github_app_of sample_runtime ''key'', gh_outside = ()\<rparr>, cl_log = []\<rparr> = (None, w)"
proof -
  have "fst (run_state (validate_token_scope granting_net)
      \<lparr>gh_app = github_app_of sample_runtime ''key'', gh_outside = ()\<rparr>) = None" by code_simp
  then show ?thesis
    by (cases "run_state (validate_token_scope granting_net) \<lparr>gh_app = github_app_of sample_runtime ''key'', gh_outside = ()\<rparr>")
      (simp add: validate_github_token_scope_def validate_with_policy_def token_retry_policy_def eval_nat_numeral
        app_retry_env_def granting_net_def sample_net_def far_reset_simps done_ok_def)
qed

lemma sample_handler: "\<exists>h t. new_handler calm (handler_config sample_runtime) s = (Inr h, t)"
proof -
  have "validate_handler_config (handler_config sample_runtime) = None" by code_simp
  moreover have "normalize_allowed_labels (cf_required_label (handler_config sample_runtime))
      (cf_allowed_labels (handler_config sample_runtime)) = Inr (''self-hosted'', [(''self-hosted'', ''self-hosted'')])"
    by code_simp
  moreover have "normalize_allowed_repositories (cf_allowed_repositories (handler_config sample_runtime)) = Inr [''acme/app'']"
    by code_simp
  moreover have "public_loop [''acme/app''] (cf_allowed_public_repositories (handler_config sample_runtime)) [] = Inr []"
    by code_simp
  moreover obtain l where "resolve_handler_limits (handler_config sample_runtime) = Inr l" "li_max_live_runners l = 20"
    by (simp add: resolve_handler_limits_def handler_config_def sample_runtime_def default_int_def second_def
        minute_def hour_def Let_def)
  ultimately show ?thesis
    by (simp add: new_handler_def set_max_live_runners_def)
qed

lemma sample_opens:
  "\<exists>store d. open_file_store ''state.json'' [with_deleted_retention (24 * hour)] load_ok [] 90
     (fs_disk (one_record sample_deleting)) = (Inr store, d)"
  by (rule healthy_open_retaining [where retention = "24 * hour"]) simp_all

definition sample_disk_io :: process_io where
  "sample_disk_io = \<lparr>pio_load = load_ok, pio_saves = [], pio_now = 90, pio_disk = fs_disk (one_record sample_deleting)\<rparr>"

theorem controller_starts_well_witness:
  "\<exists>co. start_controller sample_process sample_sdk sample_templates sample_disk_io granting_net far_reset calm () = Inr co \<and>
     started_well granting_net (one_record sample_deleting) 90 sample_runtime co \<and>
     fs_max_live_runners (co_store co) = 20"
proof -
  have key: "pe_read_file sample_process path = Inr ''key''" "pe_duration_text sample_process = itoa" for path
    by (simp_all add: sample_process_def)
  have fields: "rc_state_file sample_runtime = ''state.json''" "rc_deleted_retention sample_runtime = 24 * hour"
    by (simp_all add: sample_runtime_def)
  obtain store d where open_store: "open_file_store ''state.json'' [with_deleted_retention (24 * hour)] load_ok [] 90
      (fs_disk (one_record sample_deleting)) = (Inr store, d)" using sample_opens by blast
  obtain cloud where cloud: "new_compute_client sample_process sample_sdk sample_templates = Inr cloud"
    using sample_cloud by blast
  obtain w where token: "run_state (validate_github_token_scope (app_retry_env granting_net far_reset) itoa)
     \<lparr>cl_outside = \<lparr>gh_app = github_app_of sample_runtime ''key'', gh_outside = ()\<rparr>, cl_log = []\<rparr> = (None, w)"
    using sample_token by blast
  obtain h t where handler: "new_handler calm (handler_config sample_runtime) store = (Inr h, t)"
    using sample_handler by blast
  obtain co where run:
      "start_controller sample_process sample_sdk sample_templates sample_disk_io granting_net far_reset calm () = Inr co"
    by (simp add: start_controller_def sample_loads key fields sample_disk_io_def open_store cloud token handler)
  have "store_inv (one_record sample_deleting)" using one_record_inv [OF sample_inv(3)] by simp
  from controller_starts_well [OF run this] run sample_loads show ?thesis
    by (auto simp: sample_disk_io_def started_well_def Let_def sample_runtime_def)
qed

end
