(* ===== verification/Spec2Isabelle.thy ===== *)
theory Spec2Isabelle
  imports Webhook_Properties Reaper_Properties Names_Properties GitHub_Properties Cloud_Properties Router_Properties Startup_Properties
begin

text \<open>skeleton\<close>

end
